(* ===== verification/Prelude.thy ===== *)
theory Prelude
  imports Main "HOL-Library.Word" "HOL-Library.Monad_Syntax"
begin

text \<open>
  Shared vocabulary of the development.  It names the types every component
  uses (bytes, error numbers), the checked memory accesses in which a C array
  access is written (an access outside of the object is the value \<^term>\<open>None\<close>),
  the \<^emph>\<open>memcpy\<close>-like update of a byte array, and the big-endian
  encodings behind the kernel's \<^emph>\<open>get_unaligned_be*\<close> and
  \<^emph>\<open>put_unaligned_be*\<close>.  The lemmas are collected in
  \<open>mem_simps\<close> (array accesses) and \<open>be_simps\<close> (encodings).
\<close>

unbundle bit_operations_syntax

type_synonym byte = "8 word"

named_theorems mem_simps "reads and writes of byte arrays"
named_theorems be_simps "big-endian encodings"

section \<open>Error numbers\<close>

abbreviation (input) EIO :: int where "EIO \<equiv> 5"
abbreviation (input) EAGAIN :: int where "EAGAIN \<equiv> 11"
abbreviation (input) ENOMEM :: int where "ENOMEM \<equiv> 12"
abbreviation (input) EFAULT :: int where "EFAULT \<equiv> 14"
abbreviation (input) EBUSY :: int where "EBUSY \<equiv> 16"
abbreviation (input) EEXIST :: int where "EEXIST \<equiv> 17"
abbreviation (input) ENODEV :: int where "ENODEV \<equiv> 19"
abbreviation (input) EINVAL :: int where "EINVAL \<equiv> 22"
abbreviation (input) ENOTTY :: int where "ENOTTY \<equiv> 25"
abbreviation (input) ERESTARTSYS :: int where "ERESTARTSYS \<equiv> 512"

section \<open>Checked accesses to an array\<close>

definition rd :: "'a list \<Rightarrow> nat \<Rightarrow> 'a option" where
  "rd xs i = (if i < length xs then Some (xs ! i) else None)"

definition rd_range :: "'a list \<Rightarrow> nat \<Rightarrow> nat \<Rightarrow> 'a list option" where
  "rd_range xs off n = (if off + n \<le> length xs then Some (take n (drop off xs)) else None)"

definition overwrite :: "nat \<Rightarrow> 'a list \<Rightarrow> 'a list \<Rightarrow> 'a list" where
  "overwrite off src xs = take off xs @ src @ drop (off + length src) xs"

definition wr_range :: "nat \<Rightarrow> 'a list \<Rightarrow> 'a list \<Rightarrow> 'a list option" where
  "wr_range off src xs =
     (if off + length src \<le> length xs then Some (overwrite off src xs) else None)"

section \<open>Big-endian numbers\<close>

primrec be_val :: "byte list \<Rightarrow> nat" where
  "be_val [] = 0"
| "be_val (b # bs) = unat b * 256 ^ length bs + be_val bs"

primrec be_bytes :: "nat \<Rightarrow> nat \<Rightarrow> byte list" where
  "be_bytes 0 v = []"
| "be_bytes (Suc n) v = of_nat (v div 256 ^ n) # be_bytes n v"

section \<open>Array accesses\<close>

lemma rd_Some [mem_simps]: "i < length xs \<Longrightarrow> rd xs i = Some (xs ! i)"
  by (simp add: rd_def)

lemma rd_0 [mem_simps]: "xs \<noteq> [] \<Longrightarrow> rd xs 0 = Some (xs ! 0)"
  by (simp add: rd_def)

lemma rd_None [mem_simps]: "length xs \<le> i \<Longrightarrow> rd xs i = None"
  by (simp add: rd_def)

lemma rd_range_Some [mem_simps]:
  "off + n \<le> length xs \<Longrightarrow> rd_range xs off n = Some (take n (drop off xs))"
  by (simp add: rd_range_def)

lemma rd_range_length: "rd_range xs off n = Some ys \<Longrightarrow> length ys = n"
  by (auto simp: rd_range_def split: if_splits)

lemma wr_range_Some [mem_simps]:
  "off + length src \<le> length xs \<Longrightarrow> wr_range off src xs = Some (overwrite off src xs)"
  by (simp add: wr_range_def)

lemma length_overwrite [simp]:
  "off + length src \<le> length xs \<Longrightarrow> length (overwrite off src xs) = length xs"
  by (simp add: overwrite_def)

lemma overwrite_nil [simp]: "overwrite off [] xs = xs"
  by (simp add: overwrite_def)

lemma nth_overwrite [mem_simps]:
  assumes "off + length src \<le> length xs" "i < length xs"
  shows "overwrite off src xs ! i =
           (if off \<le> i \<and> i < off + length src then src ! (i - off) else xs ! i)"
  using assms by (auto simp: overwrite_def nth_append min_def)

lemma take_overwrite [mem_simps]:
  "off + length src \<le> length xs \<Longrightarrow> n \<le> off \<Longrightarrow> take n (overwrite off src xs) = take n xs"
  by (simp add: overwrite_def min_absorb1)

lemma drop_overwrite [mem_simps]:
  "off + length src \<le> length xs \<Longrightarrow> off + length src \<le> n \<Longrightarrow>
   drop n (overwrite off src xs) = drop n xs"
  by (simp add: overwrite_def)

lemma take_overwrite_end [mem_simps]:
  "off + length src \<le> length xs \<Longrightarrow>
   take (off + length src) (overwrite off src xs) = take off xs @ src"
  by (simp add: overwrite_def)

lemma rd_range_overwrite_same:
  "off + length src \<le> length xs \<Longrightarrow>
   rd_range (overwrite off src xs) off (length src) = Some src"
  by (simp add: rd_range_def) (simp add: overwrite_def)

lemma rd_range_overwrite_disjoint:
  assumes "off + length src \<le> length xs" "o' + n \<le> off \<or> off + length src \<le> o'"
  shows "rd_range (overwrite off src xs) o' n = rd_range xs o' n"
proof -
  have "take n (drop o' (overwrite off src xs)) = take n (drop o' xs)" if "o' + n \<le> length xs"
    by (rule nth_equalityI) (use assms that in \<open>auto simp: nth_overwrite\<close>)
  then show ?thesis
    using assms by (simp add: rd_range_def)
qed

lemma overwrite_append:
  "off + length a + length b \<le> length xs \<Longrightarrow>
   overwrite (off + length a) b (overwrite off a xs) = overwrite off (a @ b) xs"
  by (cases a) (auto simp: overwrite_def min_def ac_simps)

lemma overwrite_inside:
  assumes "o' + length src \<le> length blk" "off + length blk \<le> length xs"
  shows "overwrite (off + o') src (overwrite off blk xs) = overwrite off (overwrite o' src blk) xs"
  by (rule nth_equalityI) (use assms in \<open>auto simp: nth_overwrite\<close>)

section \<open>Big-endian encodings\<close>

lemma unat_byte_less [simp]: "unat (b :: byte) < 256"
  using unsigned_less[of b, where 'a = nat] by simp

lemma length_be_bytes [simp]: "length (be_bytes n v) = n"
  by (induction n) auto

lemma be_val_less: "be_val bs < 256 ^ length bs"
proof (induction bs)
  case (Cons b bs)
  have "unat b * 256 ^ length bs + be_val bs < (unat b + 1) * 256 ^ length bs"
    using Cons by simp
  also have "\<dots> \<le> 256 * 256 ^ length bs"
    using unat_byte_less[of b] by (intro mult_right_mono) (simp_all only: Suc_leI add_Suc_right add_0_right One_nat_def zero_le)
  finally show ?case by simp
qed simp

lemma be_bytes_mod: "be_bytes n (v mod 256 ^ n) = be_bytes n v"
proof -
  have "be_bytes m (v mod 256 ^ n) = be_bytes m v" if "m \<le> n" for m
    using that
  proof (induction m)
    case (Suc m)
    have dvd: "(256::nat) ^ n = 256 ^ m * (256 * 256 ^ (n - Suc m))"
      using Suc.prems by (metis power_Suc le_add_diff_inverse power_add add_Suc_shift add_Suc)
    have "v mod 256 ^ n div 256 ^ m = v div 256 ^ m mod (256 * 256 ^ (n - Suc m))"
      unfolding dvd by (simp add: mod_mult2_eq)
    then have "(of_nat (v mod 256 ^ n div 256 ^ m) :: byte) = of_nat (v div 256 ^ m)"
      by (simp add: word_unat_eq_iff unat_of_nat mod_mod_cancel)
    then show ?case
      using Suc by simp
  qed simp
  then show ?thesis by simp
qed

lemma be_val_be_bytes [be_simps]: "be_val (be_bytes n v) = v mod 256 ^ n"
proof (induction n)
  case (Suc n)
  have "be_val (be_bytes (Suc n) v) = v div 256 ^ n mod 256 * 256 ^ n + v mod 256 ^ n"
    using Suc by (simp add: unat_of_nat)
  also have "\<dots> = v mod (256 ^ n * 256)"
    by (simp add: mod_mult2_eq)
  finally show ?case by (simp add: mult.commute)
qed simp

lemma be_bytes_be_val [be_simps]: "be_bytes (length bs) (be_val bs) = bs"
proof (induction bs)
  case (Cons b bs)
  have "(unat b * 256 ^ length bs + be_val bs) div 256 ^ length bs = unat b"
    using be_val_less[of bs] by simp
  moreover have "be_bytes (length bs) (unat b * 256 ^ length bs + be_val bs) = bs"
    using Cons be_bytes_mod[of "length bs" "unat b * 256 ^ length bs + be_val bs"]
      be_bytes_mod[of "length bs" "be_val bs"] by simp
  ultimately show ?case by simp
qed simp

end
