(* ===== verification/Byte_Fifo.thy ===== *)
theory Byte_Fifo
  imports Prelude
begin

text \<open>
  The contract a byte pipe offers to its users, as an interface: \<open>put\<close> accepts a
  prefix of the caller's bytes and appends it, \<open>get\<close> takes bytes off the front.
  The contract is conditional on \<open>room\<close>, because the drivers of this repository
  do not keep it for every write.  The client lemma is that a whole sequence of calls
  delivers the accepted bytes once each and in order.  The drivers interpret the
  interface on their own operations.
\<close>

datatype 'a fifo_op = Put "'a list" | Get nat

fun fifo_run ::
  "('a list \<Rightarrow> 's \<Rightarrow> (nat \<times> 's) option) \<Rightarrow> (nat \<Rightarrow> 's \<Rightarrow> (nat \<times> 'a list \<times> 's) option) \<Rightarrow>
   'a fifo_op list \<Rightarrow> 's \<Rightarrow> ('a list \<times> 'a list \<times> 's) option" where
  "fifo_run put get [] s = Some ([], [], s)"
| "fifo_run put get (Put xs # ops) s = do {
     (n, s1) \<leftarrow> put xs s;
     (acc, del, s2) \<leftarrow> fifo_run put get ops s1;
     Some (take n xs @ acc, del, s2) }"
| "fifo_run put get (Get len # ops) s = do {
     (n, out, s1) \<leftarrow> get len s;
     (acc, del, s2) \<leftarrow> fifo_run put get ops s1;
     Some (acc, out @ del, s2) }"

text \<open>Every write of the sequence finds room and every read finds data.\<close>

fun fifo_guard ::
  "('a list \<Rightarrow> 's \<Rightarrow> (nat \<times> 's) option) \<Rightarrow> (nat \<Rightarrow> 's \<Rightarrow> (nat \<times> 'a list \<times> 's) option) \<Rightarrow>
   ('a list \<Rightarrow> 's \<Rightarrow> bool) \<Rightarrow> ('s \<Rightarrow> 'a list) \<Rightarrow> 'a fifo_op list \<Rightarrow> 's \<Rightarrow> bool" where
  "fifo_guard put get room content [] s = True"
| "fifo_guard put get room content (Put xs # ops) s =
     (room xs s \<and> (case put xs s of None \<Rightarrow> False
        | Some (n, s1) \<Rightarrow> fifo_guard put get room content ops s1))"
| "fifo_guard put get room content (Get len # ops) s =
     (content s \<noteq> [] \<and> (case get len s of None \<Rightarrow> False
        | Some (n, out, s1) \<Rightarrow> fifo_guard put get room content ops s1))"

locale byte_fifo =
  fixes invar :: "'s \<Rightarrow> bool"
    and content :: "'s \<Rightarrow> 'a list"
    and put :: "'a list \<Rightarrow> 's \<Rightarrow> (nat \<times> 's) option"
    and get :: "nat \<Rightarrow> 's \<Rightarrow> (nat \<times> 'a list \<times> 's) option"
    and room :: "'a list \<Rightarrow> 's \<Rightarrow> bool"
  assumes put_appends: "invar s \<Longrightarrow> room xs s \<Longrightarrow> put xs s = Some (n, s') \<Longrightarrow>
      invar s' \<and> n \<le> length xs \<and> content s' = content s @ take n xs"
    and get_takes: "invar s \<Longrightarrow> content s \<noteq> [] \<Longrightarrow> get len s = Some (n, out, s') \<Longrightarrow>
      invar s' \<and> n = length out \<and> n \<le> len \<and> out @ content s' = content s"
begin

lemma run_in_order:
  assumes "invar s" "fifo_guard put get room content ops s"
  shows "\<exists>acc del s'. fifo_run put get ops s = Some (acc, del, s') \<and> invar s' \<and>
           content s @ acc = del @ content s'"
  using assms
proof (induction ops arbitrary: s)
  case (Cons op ops)
  show ?case
  proof (cases op)
    case (Put xs)
    with Cons.prems obtain n s1 where 1: "put xs s = Some (n, s1)" "room xs s"
      "fifo_guard put get room content ops s1"
      by (auto split: option.splits)
    then have 2: "invar s1" "content s1 = content s @ take n xs"
      using put_appends[OF Cons.prems(1) 1(2,1)] by auto
    then show ?thesis
      using Cons.IH[OF 2(1) 1(3)] 1 Put by auto
  next
    case (Get len)
    with Cons.prems obtain n out s1 where 1: "get len s = Some (n, out, s1)" "content s \<noteq> []"
      "fifo_guard put get room content ops s1"
      by (auto split: option.splits)
    then have 2: "invar s1" "content s = out @ content s1"
      using get_takes[OF Cons.prems(1) 1(2,1)] by auto
    then show ?thesis
      using Cons.IH[OF 2(1) 1(3)] 1 Get by auto
  qed
qed simp

end

end
