(* ===== verification/Scull_Pipe.thy ===== *)
theory Scull_Pipe
  imports Byte_Fifo
begin

text \<open>
  The blocking pipe driver \<^verbatim>\<open>src/nonblock/scullb.c\<close>: a ring buffer
  of \<^verbatim>\<open>DEVSIZE\<close> bytes with a read and a write pointer, protected by a
  semaphore.  Pointers into the buffer are offsets from \<^verbatim>\<open>sdev.buf\<close>.
  \<^verbatim>\<open>copy_to_user\<close> and \<^verbatim>\<open>copy_from_user\<close> belong to
  the kernel and are parameters: the first gives the number of bytes it could not
  copy, the second the bytes that land in the destination and that number.
  A whole call of read or write is a process that runs through the locking
  protocol one program point at a time (\<open>proc_step\<close>).
\<close>

section \<open>Data\<close>

definition DEVSIZE :: nat where "DEVSIZE = 42"

record scullb =
  sbuf :: "byte list option"
  sbuf_end :: nat
  rp :: nat
  wp :: nat
  nreaders :: int
  nwriters :: int
  bufsize :: nat
  async_queue :: bool

type_synonym to_user = "byte list \<Rightarrow> nat"
type_synonym from_user = "byte list \<Rightarrow> byte list \<times> nat"

section \<open>Operations on the ring\<close>

definition have_space :: "scullb \<Rightarrow> int" where
  "have_space dev =
     (if wp dev = rp dev then int (bufsize dev) - 1
      else (int (wp dev) - int (rp dev) + int (bufsize dev)) mod int (bufsize dev))"

text \<open>The number of bytes one call moves (lines 72 to 75 and 122 to 126).  The casts to
  \<^verbatim>\<open>size_t\<close> read \<open>have_space\<close> and the pointer differences as
  naturals; \<^verbatim>\<open>sdev.rp - sdev.wp - 1\<close> is taken only when the write
  pointer is below the read pointer.\<close>

definition read_count :: "nat \<Rightarrow> scullb \<Rightarrow> nat" where
  "read_count len dev =
     (if rp dev < wp dev then min len (wp dev - rp dev)
      else min len (sbuf_end dev - rp dev))"

definition write_count :: "nat \<Rightarrow> scullb \<Rightarrow> nat" where
  "write_count len dev =
     (let count = min len (nat (have_space dev))
      in if wp dev \<ge> rp dev then min count (sbuf_end dev - wp dev)
         else min count (rp dev - wp dev - 1))"

text \<open>
  The part of \<^verbatim>\<open>sdev_read\<close> that runs with the semaphore held and data
  available.  The test \<^verbatim>\<open>copy_to_user(...) < 0\<close> compares an unsigned
  value with zero and never holds, so there is no error exit here.  The result is
  the return value, the bytes that reached the user, and the new device.
\<close>

definition sdev_read_copy :: "to_user \<Rightarrow> nat \<Rightarrow> scullb \<Rightarrow> (nat \<times> byte list \<times> scullb) option" where
  "sdev_read_copy copy_to_user len dev = do {
     buf \<leftarrow> sbuf dev;
     let count = read_count len dev;
     src \<leftarrow> rd_range buf (rp dev) count;
     let uncopied = copy_to_user src;
     let r = rp dev + count;
     let r = (if r = sbuf_end dev then 0 else r);
     Some (count, take (count - uncopied) src, dev\<lparr>rp := r\<rparr>)
   }"

text \<open>
  The part of \<^verbatim>\<open>sdev_write\<close> that runs with the semaphore held.  Here
  \<^verbatim>\<open>ret\<close> is an \<^verbatim>\<open>int\<close> holding a number of bytes, so the
  test for a negative value does not hold either.
\<close>

definition sdev_write_copy ::
  "from_user \<Rightarrow> byte list \<Rightarrow> scullb \<Rightarrow> (nat \<times> scullb) option" where
  "sdev_write_copy copy_from_user ubuf dev = do {
     buf \<leftarrow> sbuf dev;
     let count = write_count (length ubuf) dev;
     let (landed, uncopied) = copy_from_user (take count ubuf);
     buf' \<leftarrow> wr_range (wp dev) landed buf;
     let w = wp dev + count;
     let w = (if w = sbuf_end dev then 0 else w);
     Some (count, dev\<lparr>sbuf := Some buf', wp := w\<rparr>)
   }"

section \<open>Module entry points\<close>

text \<open>
  \<^verbatim>\<open>start\<close>: the return values of the kernel calls are arguments;
  \<^verbatim>\<open>vmalloc\<close> reports failure with a null pointer, which
  \<^verbatim>\<open>IS_ERR\<close> does not recognise, so the error exit at line 185 is
  taken for no value \<^verbatim>\<open>vmalloc\<close> returns and the null pointer is kept.
  The result is the return value, the device, whether the character device region
  is still registered, and whether the buffer is still allocated.
\<close>

definition sdev_start ::
  "int \<Rightarrow> byte list option \<Rightarrow> int \<Rightarrow> int \<times> scullb \<times> bool \<times> bool" where
  "sdev_start alloc_chrdev_region vmalloc cdev_add =
     (let dev = \<lparr>sbuf = None, sbuf_end = 0, rp = 0, wp = 0, nreaders = 0, nwriters = 0,
                 bufsize = 0, async_queue = False\<rparr>
      in if alloc_chrdev_region < 0 then (- EFAULT, dev, False, False)
         else let dev = dev\<lparr>bufsize := DEVSIZE, sbuf := vmalloc, sbuf_end := DEVSIZE,
                            rp := 0, wp := 0, nreaders := 0, nwriters := 0\<rparr>
              in if cdev_add < 0 then (- EFAULT, dev, False, False)
                 else (0, dev, True, vmalloc \<noteq> None))"

datatype poll_bit = POLLIN | POLLRDNORM | POLLOUT | POLLWRNORM

text \<open>\<^verbatim>\<open>sdev_poll\<close>: the mask, or the error of an interrupted wait.\<close>

definition sdev_poll :: "bool \<Rightarrow> scullb \<Rightarrow> int + poll_bit list" where
  "sdev_poll interrupted dev =
     (if interrupted then Inl (- ERESTARTSYS)
      else Inr ((if rp dev \<noteq> wp dev then [POLLIN, POLLRDNORM] else []) @
                (if have_space dev \<noteq> 0 then [POLLOUT, POLLWRNORM] else [])))"

section \<open>The locking protocol\<close>

text \<open>
  Program points of \<^verbatim>\<open>sdev_read\<close> (R) and \<^verbatim>\<open>sdev_write\<close>
  (W): the first \<^verbatim>\<open>down_interruptible\<close>, the loop test with the
  semaphore held, the sleep, the second \<^verbatim>\<open>down_interruptible\<close>, the
  copy with the semaphore held, and the return with its value.
\<close>

datatype pc = R_down | R_test | R_wait | R_down2 | R_copy
  | W_down | W_test | W_wait | W_signal | W_down2 | W_copy
  | Returned int

record proc =
  p_pc :: pc
  p_len :: nat
  p_data :: "byte list"
  p_nonblock :: bool
  p_out :: "byte list"

record psys =
  dev :: scullb
  sem :: "nat option"
  procs :: "nat \<Rightarrow> proc option"

record env =
  env_signal :: bool
  env_to_user :: to_user
  env_from_user :: from_user

definition down :: "env \<Rightarrow> nat \<Rightarrow> pc \<Rightarrow> psys \<Rightarrow> (pc \<times> psys) option" where
  "down e pid next s =
     (if env_signal e then Some (Returned (- ERESTARTSYS), s)
      else if sem s = None then Some (next, s\<lparr>sem := Some pid\<rparr>)
      else None)"

definition up :: "psys \<Rightarrow> psys" where
  "up s = s\<lparr>sem := None\<rparr>"

text \<open>One step of the process \<open>pid\<close>; \<^term>\<open>None\<close> when it cannot move.\<close>

definition pc_step :: "env \<Rightarrow> nat \<Rightarrow> proc \<Rightarrow> psys \<Rightarrow> (proc \<times> psys) option" where
  "pc_step e pid p s = (case p_pc p of
     R_down \<Rightarrow> map_option (\<lambda>(n, s'). (p\<lparr>p_pc := n\<rparr>, s')) (down e pid R_test s)
   | R_test \<Rightarrow>
       if rp (dev s) = wp (dev s) then
         if p_nonblock p then Some (p\<lparr>p_pc := Returned (- EAGAIN)\<rparr>, up s)
         else Some (p\<lparr>p_pc := R_wait\<rparr>, up s)
       else Some (p\<lparr>p_pc := R_copy\<rparr>, s)
   | R_wait \<Rightarrow>
       if rp (dev s) \<noteq> wp (dev s) then Some (p\<lparr>p_pc := R_down2\<rparr>, s)
       else if env_signal e then Some (p\<lparr>p_pc := Returned (- ERESTARTSYS)\<rparr>, s)
       else None
   | R_down2 \<Rightarrow> map_option (\<lambda>(n, s'). (p\<lparr>p_pc := n\<rparr>, s')) (down e pid R_test s)
   | R_copy \<Rightarrow> do {
       (n, out, d) \<leftarrow> sdev_read_copy (env_to_user e) (p_len p) (dev s);
       Some (p\<lparr>p_pc := Returned (int n), p_out := out\<rparr>, up (s\<lparr>dev := d\<rparr>)) }
   | W_down \<Rightarrow> map_option (\<lambda>(n, s'). (p\<lparr>p_pc := n\<rparr>, s')) (down e pid W_test s)
   | W_test \<Rightarrow>
       if have_space (dev s) = 0 then
         if p_nonblock p then Some (p\<lparr>p_pc := Returned (- EAGAIN)\<rparr>, up s)
         else Some (p\<lparr>p_pc := W_wait\<rparr>, up s)
       else Some (p\<lparr>p_pc := W_copy\<rparr>, s)
   | W_wait \<Rightarrow> Some (p\<lparr>p_pc := W_signal\<rparr>, s)
   | W_signal \<Rightarrow>
       if env_signal e then Some (p\<lparr>p_pc := Returned (- ERESTARTSYS)\<rparr>, s)
       else Some (p\<lparr>p_pc := W_down2\<rparr>, s)
   | W_down2 \<Rightarrow> map_option (\<lambda>(n, s'). (p\<lparr>p_pc := n\<rparr>, s')) (down e pid W_test s)
   | W_copy \<Rightarrow> do {
       (n, d) \<leftarrow> sdev_write_copy (env_from_user e) (p_data p) (dev s);
       Some (p\<lparr>p_pc := Returned (int n)\<rparr>, up (s\<lparr>dev := d\<rparr>)) }
   | Returned n \<Rightarrow> None)"

definition proc_step :: "env \<Rightarrow> nat \<Rightarrow> psys \<Rightarrow> psys option" where
  "proc_step e pid s = do {
     p \<leftarrow> procs s pid;
     (p', s') \<leftarrow> pc_step e pid p s;
     Some (s'\<lparr>procs := (procs s')(pid \<mapsto> p')\<rparr>) }"

definition sdev_read :: "nat \<Rightarrow> bool \<Rightarrow> proc" where
  "sdev_read len nonblock =
     \<lparr>p_pc = R_down, p_len = len, p_data = [], p_nonblock = nonblock, p_out = []\<rparr>"

definition sdev_write :: "byte list \<Rightarrow> bool \<Rightarrow> proc" where
  "sdev_write data nonblock =
     \<lparr>p_pc = W_down, p_len = length data, p_data = data, p_nonblock = nonblock, p_out = []\<rparr>"

section \<open>Specification\<close>

text \<open>The bytes between the read and the write pointer, in the order they were written.\<close>

definition ring_data :: "scullb \<Rightarrow> byte list" where
  "ring_data d = (case sbuf d of None \<Rightarrow> []
     | Some buf \<Rightarrow> if rp d \<le> wp d then take (wp d - rp d) (drop (rp d) buf)
                   else drop (rp d) buf @ take (wp d) buf)"

definition ring_inv :: "scullb \<Rightarrow> bool" where
  "ring_inv d = (case sbuf d of None \<Rightarrow> False
     | Some buf \<Rightarrow> length buf = bufsize d \<and> sbuf_end d = bufsize d \<and> 1 < bufsize d \<and>
                   rp d < bufsize d \<and> wp d < bufsize d)"

text \<open>What the driver relies on of \<^verbatim>\<open>copy_from_user\<close>: it fills the whole
  destination, with the user's bytes when it reports that nothing is missing.\<close>

definition from_user_ok :: "from_user \<Rightarrow> bool" where
  "from_user_ok f = (\<forall>bs. length (fst (f bs)) = length bs \<and> (snd (f bs) = 0 \<longrightarrow> fst (f bs) = bs))"

text \<open>A write that does not bring the write pointer round to a read pointer at the start.\<close>

definition pipe_room :: "byte list \<Rightarrow> scullb \<Rightarrow> bool" where
  "pipe_room ub d = (\<not> (rp d = 0 \<and> wp d + write_count (length ub) d = bufsize d))"

abbreviation pipe_put :: "byte list \<Rightarrow> scullb \<Rightarrow> (nat \<times> scullb) option" where
  "pipe_put \<equiv> sdev_write_copy (\<lambda>bs. (bs, 0))"

abbreviation pipe_get :: "nat \<Rightarrow> scullb \<Rightarrow> (nat \<times> byte list \<times> scullb) option" where
  "pipe_get \<equiv> sdev_read_copy (\<lambda>_. 0)"

definition pipe_init :: "scullb \<Rightarrow> psys" where
  "pipe_init d = \<lparr>dev = d, sem = None, procs = Map.empty\<rparr>"

inductive pipe_reach :: "scullb \<Rightarrow> psys \<Rightarrow> bool" for d0 where
  init: "pipe_reach d0 (pipe_init d0)"
| call_read: "pipe_reach d0 s \<Longrightarrow> procs s pid = None \<Longrightarrow>
         pipe_reach d0 (s\<lparr>procs := (procs s)(pid \<mapsto> sdev_read len nb)\<rparr>)"
| call_write: "pipe_reach d0 s \<Longrightarrow> procs s pid = None \<Longrightarrow>
          pipe_reach d0 (s\<lparr>procs := (procs s)(pid \<mapsto> sdev_write data nb)\<rparr>)"
| step: "pipe_reach d0 s \<Longrightarrow> from_user_ok (env_from_user e) \<Longrightarrow> proc_step e pid s = Some s' \<Longrightarrow>
         pipe_reach d0 s'"

fun critical :: "pc \<Rightarrow> bool" where
  "critical R_test = True" | "critical R_copy = True"
| "critical W_test = True" | "critical W_copy = True"
| "critical _ = False"

fun writer_waits :: "pc \<Rightarrow> bool" where
  "writer_waits W_wait = True" | "writer_waits W_signal = True" | "writer_waits W_down2 = True"
| "writer_waits _ = False"

definition pipe_inv :: "psys \<Rightarrow> bool" where
  "pipe_inv s \<longleftrightarrow> ring_inv (dev s) \<and>
     (\<forall>pid. sem s = Some pid \<longleftrightarrow> (\<exists>p. procs s pid = Some p \<and> critical (p_pc p))) \<and>
     (\<forall>pid p. procs s pid = Some p \<longrightarrow> \<not> writer_waits (p_pc p) \<and>
        (p_pc p = R_copy \<longrightarrow> rp (dev s) \<noteq> wp (dev s)))"

text \<open>Concrete devices and states used as examples.\<close>

definition ex_dev :: scullb where
  "ex_dev = \<lparr>sbuf = Some (replicate 42 0), sbuf_end = 42, rp = 0, wp = 0, nreaders = 0,
     nwriters = 0, bufsize = 42, async_queue = False\<rparr>"

definition ex_full :: scullb where
  "ex_full = ex_dev\<lparr>wp := 21\<rparr>"

definition ex_held :: psys where
  "ex_held = the (proc_step \<lparr>env_signal = False, env_to_user = (\<lambda>_. 0), env_from_user = (\<lambda>bs. (bs, 0))\<rparr>
     1 ((pipe_init ex_dev)\<lparr>procs := [1 \<mapsto> sdev_write [7] False]\<rparr>))"

section \<open>The ring\<close>

lemma ring_invE:
  assumes "ring_inv d"
  obtains buf where "sbuf d = Some buf" "length buf = bufsize d" "sbuf_end d = bufsize d"
    "1 < bufsize d" "rp d < bufsize d" "wp d < bufsize d"
  using assms by (auto simp: ring_inv_def split: option.splits)

lemma have_space_eq:
  assumes "ring_inv d"
  shows "have_space d = (if wp d = rp d then int (bufsize d) - 1
     else if rp d < wp d then int (wp d - rp d) else int (bufsize d - (rp d - wp d)))"
proof -
  have "(int (wp d) - int (rp d) + int (bufsize d)) mod int (bufsize d) = int (wp d - rp d)"
    if "rp d < wp d" "wp d < bufsize d"
  proof -
    have "int (wp d) - int (rp d) + int (bufsize d) = int (wp d - rp d) + int (bufsize d)"
      using that by simp
    then show ?thesis using that by (simp only: mod_add_self2) simp
  qed
  moreover have "(int (wp d) - int (rp d) + int (bufsize d)) mod int (bufsize d)
      = int (bufsize d - (rp d - wp d))"
    if "wp d < rp d" "rp d < bufsize d"
  proof -
    have "int (wp d) - int (rp d) + int (bufsize d) = int (bufsize d - (rp d - wp d))"
      using that by simp
    then show ?thesis using that by (simp only: mod_pos_pos_trivial)
  qed
  moreover from assms have "rp d < bufsize d" "wp d < bufsize d"
    by (elim ring_invE; simp)+
  ultimately show ?thesis
    by (cases "wp d" "rp d" rule: linorder_cases) (simp_all add: have_space_def)
qed

lemma have_space_pos: "ring_inv d \<Longrightarrow> 0 < have_space d"
  by (frule have_space_eq) (elim ring_invE, auto)

lemma read_count_le:
  assumes "ring_inv d" shows "rp d + read_count len d \<le> bufsize d"
  using assms by (elim ring_invE) (auto simp: read_count_def min_def)

lemma write_count_le:
  assumes "ring_inv d" shows "wp d + write_count len d \<le> bufsize d" "write_count len d \<le> len"
  using assms by (elim ring_invE, auto simp: write_count_def Let_def min_def)+

lemma write_count_below:
  "ring_inv d \<Longrightarrow> wp d < rp d \<Longrightarrow> wp d + write_count len d < rp d"
  by (elim ring_invE) (auto simp: write_count_def Let_def min_def)

lemma sdev_read_copy_runs:
  assumes "ring_inv d"
  obtains buf where "sbuf d = Some buf"
    "sdev_read_copy f len d = Some (read_count len d,
       take (read_count len d - f (take (read_count len d) (drop (rp d) buf)))
         (take (read_count len d) (drop (rp d) buf)),
       d\<lparr>rp := (if rp d + read_count len d = bufsize d then 0 else rp d + read_count len d)\<rparr>)"
  using assms read_count_le[OF assms, of len]
  by (elim ring_invE) (auto simp: sdev_read_copy_def Let_def mem_simps)

lemma sdev_write_copy_runs:
  assumes "ring_inv d" "from_user_ok f"
  obtains buf where "sbuf d = Some buf"
    "sdev_write_copy f ub d = Some (write_count (length ub) d,
       d\<lparr>sbuf := Some (overwrite (wp d) (fst (f (take (write_count (length ub) d) ub))) buf),
         wp := (if wp d + write_count (length ub) d = bufsize d then 0
                else wp d + write_count (length ub) d)\<rparr>)"
    "length (fst (f (take (write_count (length ub) d) ub))) = write_count (length ub) d"
proof -
  let ?n = "write_count (length ub) d"
  have len: "length (fst (f (take ?n ub))) = ?n"
    using assms(2) write_count_le(2)[OF assms(1), of "length ub"] by (simp add: from_user_ok_def)
  show ?thesis
    using assms(1)
  proof (elim ring_invE)
    fix buf assume *: "sbuf d = Some buf" "length buf = bufsize d" "sbuf_end d = bufsize d"
    show ?thesis
      by (rule that[OF *(1) _ len])
        (use * len write_count_le(1)[OF assms(1), of "length ub"] in
          \<open>simp add: sdev_write_copy_def Let_def mem_simps split_beta\<close>)
  qed
qed

lemma sdev_read_copy_inv:
  assumes "ring_inv d" "sdev_read_copy f len d = Some (n, out, d')"
  shows "ring_inv d'"
  using assms(1)
proof (rule sdev_read_copy_runs[of d f len])
qed (use assms read_count_le[OF assms(1), of len] in
    \<open>auto simp: ring_inv_def split: option.splits\<close>)

lemma sdev_write_copy_inv:
  assumes "ring_inv d" "from_user_ok f" "sdev_write_copy f ub d = Some (n, d')"
  shows "ring_inv d'"
  by (rule sdev_write_copy_runs[OF assms(1,2), of ub])
    (use assms write_count_le[OF assms(1), of "length ub"] in
      \<open>auto simp: ring_inv_def split: option.splits\<close>)

lemma ring_data_nil_iff: "ring_inv d \<Longrightarrow> ring_data d = [] \<longleftrightarrow> rp d = wp d"
  by (elim ring_invE) (auto simp: ring_data_def)

lemma length_ring_data:
  "ring_inv d \<Longrightarrow> length (ring_data d) =
     (if rp d \<le> wp d then wp d - rp d else bufsize d - rp d + wp d)"
  by (elim ring_invE) (auto simp: ring_data_def)

lemma ring_read_data:
  assumes "ring_inv d" "rp d \<noteq> wp d" "sbuf d = Some buf"
    and d': "d' = d\<lparr>rp := (if rp d + read_count len d = bufsize d then 0
                        else rp d + read_count len d)\<rparr>"
  shows "take (read_count len d) (drop (rp d) buf) @ ring_data d' = ring_data d"
proof (cases "rp d < wp d")
  case True
  let ?n = "read_count len d"
  have n: "?n \<le> wp d - rp d" "wp d < bufsize d"
    using True assms(1) by (auto simp: read_count_def elim: ring_invE)
  have "take (wp d - rp d) (drop (rp d) buf)
      = take ?n (drop (rp d) buf) @ take (wp d - rp d - ?n) (drop ?n (drop (rp d) buf))"
    using n by (metis le_add_diff_inverse take_add)
  moreover have "rp d + ?n \<le> wp d" "rp d + ?n \<noteq> bufsize d"
    using True n by auto
  ultimately show ?thesis
    using True assms by (simp add: ring_data_def add.commute diff_diff_eq)
next
  case False
  let ?n = "read_count len d"
  have w: "wp d < rp d" "rp d < bufsize d" "length buf = bufsize d"
    using False assms by (auto elim: ring_invE)
  have n: "rp d + ?n \<le> bufsize d"
    by (rule read_count_le[OF assms(1)])
  have "drop (rp d) buf = take ?n (drop (rp d) buf) @ drop (rp d + ?n) buf"
    by (metis append_take_drop_id drop_drop add.commute)
  then show ?thesis
    using w n assms by (cases "rp d + ?n = bufsize d") (auto simp: ring_data_def)
qed

lemma ring_store_data:
  assumes "ring_inv d" "sbuf d = Some buf" "length src = n" "wp d + n \<le> bufsize d" "wp d < rp d \<Longrightarrow> wp d + n < rp d"
    and d': "d' = d\<lparr>sbuf := Some (overwrite (wp d) src buf),
                     wp := (if wp d + n = bufsize d then 0 else wp d + n)\<rparr>"
  shows "ring_data d' = (if rp d = 0 \<and> wp d + n = bufsize d then [] else ring_data d @ src)"
proof (cases "wp d < rp d")
  case True
  have "length buf = bufsize d" "rp d < bufsize d"
    using assms(1,2) by (auto elim: ring_invE)
  then show ?thesis
    using True assms(5)[OF True] assms(2,3) d'
      take_overwrite_end[of "wp d" src buf]
    by (auto simp: ring_data_def drop_overwrite)
next
  case False
  have *: "length buf = bufsize d" "wp d < bufsize d" "wp d + n \<le> bufsize d"
    using assms(1,2,4) by (auto elim: ring_invE)
  have body: "drop (rp d) (take (wp d + n) (overwrite (wp d) src buf))
      = drop (rp d) (take (wp d) buf) @ src"
    using take_overwrite_end[of "wp d" src buf] * False assms(3) by simp
  have whole: "take (wp d + n) (overwrite (wp d) src buf) = overwrite (wp d) src buf"
    if "wp d + n = bufsize d"
    using that * assms(3) by simp
  show ?thesis
    using False * body whole assms(2,3) d' by (auto simp: ring_data_def drop_take)
qed

lemma ring_write_data:
  assumes "ring_inv d" "sbuf d = Some buf" "length src = n" "n = write_count len d"
    and d': "d' = d\<lparr>sbuf := Some (overwrite (wp d) src buf),
                     wp := (if wp d + n = bufsize d then 0 else wp d + n)\<rparr>"
  shows "ring_data d' = (if rp d = 0 \<and> wp d + n = bufsize d then [] else ring_data d @ src)"
  using ring_store_data[OF assms(1-3) _ _ d'] write_count_le(1)[OF assms(1), of len]
    write_count_below[OF assms(1), of len] assms(4) by simp

lemma from_user_ok_id [simp]: "from_user_ok (\<lambda>bs. (bs, 0))"
  by (simp add: from_user_ok_def)

lemma sdev_write_copy_data:
  assumes "ring_inv d" "from_user_ok f" "sdev_write_copy f ub d = Some (n, d')"
    "snd (f (take n ub)) = 0"
  shows "n = write_count (length ub) d \<and>
     ring_data d' = (if rp d = 0 \<and> wp d + n = bufsize d then [] else ring_data d @ take n ub)"
proof (rule sdev_write_copy_runs[OF assms(1,2), of ub])
  fix buf
  let ?n = "write_count (length ub) d"
  assume runs: "sbuf d = Some buf"
    "sdev_write_copy f ub d = Some (?n, d\<lparr>sbuf := Some (overwrite (wp d) (fst (f (take ?n ub))) buf),
         wp := (if wp d + ?n = bufsize d then 0 else wp d + ?n)\<rparr>)"
    "length (fst (f (take ?n ub))) = ?n"
  then have n: "n = ?n" using assms(3) by simp
  have "fst (f (take n ub)) = take n ub"
    using assms(2,4) by (simp add: from_user_ok_def)
  then show ?thesis
    using ring_write_data[OF assms(1) runs(1) runs(3) refl refl] runs(2) assms(3) n by simp
qed

interpretation scullb_fifo: byte_fifo ring_inv ring_data pipe_put pipe_get pipe_room
proof unfold_locales
  fix s xs n s'
  assume *: "ring_inv s" "pipe_room xs s" "pipe_put xs s = Some (n, s')"
  then show "ring_inv s' \<and> n \<le> length xs \<and> ring_data s' = ring_data s @ take n xs"
    using sdev_write_copy_data[of s "\<lambda>bs. (bs, 0)" xs n s'] write_count_le(2)[of s "length xs"]
      sdev_write_copy_inv[of s "\<lambda>bs. (bs, 0)" xs n s']
    by (auto simp: pipe_room_def)
next
  fix s len n out s'
  assume *: "ring_inv s" "ring_data s \<noteq> []" "pipe_get len s = Some (n, out, s')"
  then have ne: "rp s \<noteq> wp s"
    by (simp add: ring_data_nil_iff)
  show "ring_inv s' \<and> n = length out \<and> n \<le> len \<and> out @ ring_data s' = ring_data s"
  proof (rule sdev_read_copy_runs[OF *(1), of "\<lambda>_. 0" len])
    fix buf
    let ?n = "read_count len s"
    assume runs: "sbuf s = Some buf"
      "pipe_get len s = Some (?n, take (?n - 0) (take ?n (drop (rp s) buf)),
         s\<lparr>rp := (if rp s + ?n = bufsize s then 0 else rp s + ?n)\<rparr>)"
    have "length (take ?n (drop (rp s) buf)) = ?n"
      using runs(1) *(1) read_count_le[OF *(1), of len] by (auto elim: ring_invE)
    moreover have "?n \<le> len" by (simp add: read_count_def)
    ultimately show ?thesis
      using ring_read_data[OF *(1) ne runs(1) refl] runs(2) *(3) sdev_read_copy_inv[OF *(1,3)]
      by auto
  qed
qed

section \<open>The locking protocol\<close>

lemmas step_defs = proc_step_def pc_step_def down_def up_def

lemma pipe_inv_init: "ring_inv d \<Longrightarrow> pipe_inv (pipe_init d)"
  by (simp add: pipe_inv_def pipe_init_def)

lemma pipe_inv_call:
  assumes "pipe_inv s" "procs s pid = None" "\<not> critical (p_pc p)" "\<not> writer_waits (p_pc p)"
    "p_pc p \<noteq> R_copy"
  shows "pipe_inv (s\<lparr>procs := (procs s)(pid \<mapsto> p)\<rparr>)"
  using assms unfolding pipe_inv_def by auto

text \<open>The three ways a process moves: it keeps the semaphore as it is, takes it, or gives
  it up (possibly with a new device, since it was alone in its critical section).\<close>

lemma pipe_inv_stay:
  assumes "pipe_inv s" "procs s pid = Some p" "critical (p_pc p') = critical (p_pc p)"
    "\<not> writer_waits (p_pc p')" "p_pc p' = R_copy \<Longrightarrow> rp (dev s) \<noteq> wp (dev s)"
  shows "pipe_inv (s\<lparr>procs := (procs s)(pid \<mapsto> p')\<rparr>)"
  using assms unfolding pipe_inv_def by auto

lemma pipe_inv_take:
  assumes "pipe_inv s" "sem s = None" "critical (p_pc p')" "p_pc p' \<noteq> R_copy"
  shows "pipe_inv (s\<lparr>sem := Some pid, procs := (procs s)(pid \<mapsto> p')\<rparr>)"
  using assms unfolding pipe_inv_def by (auto elim: critical.elims)

lemma pipe_inv_release:
  assumes "pipe_inv s" "procs s pid = Some p" "critical (p_pc p)" "ring_inv d"
    "\<not> critical (p_pc p')" "\<not> writer_waits (p_pc p')"
  shows "pipe_inv (s\<lparr>dev := d, sem := None, procs := (procs s)(pid \<mapsto> p')\<rparr>)"
proof -
  have "sem s = Some pid"
    using assms unfolding pipe_inv_def by auto
  then have alone: "\<not> critical (p_pc q)" if "procs s i = Some q" "i \<noteq> pid" for i q
    using assms(1) that unfolding pipe_inv_def by (metis option.inject)
  have "p_pc q \<noteq> R_copy" if "procs s i = Some q" "i \<noteq> pid" for i q
    using alone[OF that] by auto
  with alone show ?thesis
    using assms unfolding pipe_inv_def by auto
qed

lemma pipe_inv_release_same:
  assumes "pipe_inv s" "procs s pid = Some p" "critical (p_pc p)"
    "\<not> critical (p_pc p')" "\<not> writer_waits (p_pc p')"
  shows "pipe_inv (s\<lparr>sem := None, procs := (procs s)(pid \<mapsto> p')\<rparr>)"
proof -
  have "ring_inv (dev s)" using assms by (simp add: pipe_inv_def)
  from pipe_inv_release[OF assms(1,2,3) this assms(4,5)] show ?thesis by simp
qed

lemma pipe_inv_down:
  assumes "pipe_inv s" "procs s pid = Some p" "\<not> critical (p_pc p)"
    "critical nxt" "nxt \<noteq> R_copy" "down e pid nxt s = Some (n, s1)"
  shows "pipe_inv (s1\<lparr>procs := (procs s)(pid \<mapsto> p\<lparr>p_pc := n\<rparr>)\<rparr>)"
  using assms pipe_inv_stay[OF assms(1,2), of "p\<lparr>p_pc := n\<rparr>"]
    pipe_inv_take[OF assms(1), of "p\<lparr>p_pc := n\<rparr>" pid]
  by (auto simp: down_def split: if_splits)

lemma down_procs: "down e pid nxt s = Some (n, s1) \<Longrightarrow> procs s1 = procs s"
  by (auto simp: down_def split: if_splits)

lemma pipe_inv_step:
  assumes inv: "pipe_inv s" and ok: "from_user_ok (env_from_user e)"
    and step: "proc_step e pid s = Some s'"
  shows "pipe_inv s'"
proof -
  obtain p p' s1 where p: "procs s pid = Some p" and pc: "pc_step e pid p s = Some (p', s1)"
    and s': "s' = s1\<lparr>procs := (procs s1)(pid \<mapsto> p')\<rparr>"
    using step by (auto simp: proc_step_def bind_eq_Some_conv)
  have ring: "ring_inv (dev s)" and nw: "\<not> writer_waits (p_pc p)"
    using inv p by (auto simp: pipe_inv_def)
  have hs: "have_space (dev s) \<noteq> 0"
    using have_space_pos[OF ring] by simp
  note moves = pipe_inv_stay[OF inv p, of p'] pipe_inv_release_same[OF inv p, of p']
    pipe_inv_release[OF inv p, where p' = p'] pipe_inv_down[OF inv p]
  show ?thesis
  proof (cases "p_pc p")
    case R_down
    with pc obtain n where "down e pid R_test s = Some (n, s1)" "p' = p\<lparr>p_pc := n\<rparr>"
      by (auto simp: pc_step_def)
    then show ?thesis using moves(4)[of R_test e n s1] R_down s' by (simp add: down_procs)
  next
    case R_down2
    with pc obtain n where "down e pid R_test s = Some (n, s1)" "p' = p\<lparr>p_pc := n\<rparr>"
      by (auto simp: pc_step_def)
    then show ?thesis using moves(4)[of R_test e n s1] R_down2 s' by (simp add: down_procs)
  next
    case W_down
    with pc obtain n where "down e pid W_test s = Some (n, s1)" "p' = p\<lparr>p_pc := n\<rparr>"
      by (auto simp: pc_step_def)
    then show ?thesis using moves(4)[of W_test e n s1] W_down s' by (simp add: down_procs)
  next
    case R_copy
    with pc obtain n out d where "sdev_read_copy (env_to_user e) (p_len p) (dev s) = Some (n, out, d)"
      "p' = p\<lparr>p_pc := Returned (int n), p_out := out\<rparr>" "s1 = up (s\<lparr>dev := d\<rparr>)"
      by (auto simp: pc_step_def bind_eq_Some_conv)
    then show ?thesis
      using moves(3)[of d] sdev_read_copy_inv[OF ring] R_copy s' by (simp add: up_def)
  next
    case W_copy
    with pc obtain n d where "sdev_write_copy (env_from_user e) (p_data p) (dev s) = Some (n, d)"
      "p' = p\<lparr>p_pc := Returned (int n)\<rparr>" "s1 = up (s\<lparr>dev := d\<rparr>)"
      by (auto simp: pc_step_def bind_eq_Some_conv)
    then show ?thesis
      using moves(3)[of d] sdev_write_copy_inv[OF ring ok] W_copy s' by (simp add: up_def)
  qed (use pc s' nw hs moves(1,2) in \<open>auto simp: pc_step_def up_def split: if_splits\<close>)
qed

lemma pipe_reach_pipe_inv: "pipe_reach d0 s \<Longrightarrow> ring_inv d0 \<Longrightarrow> pipe_inv s"
proof (induction rule: pipe_reach.induct)
  case (call_read s pid len nb)
  then show ?case by (auto intro!: pipe_inv_call simp: sdev_read_def)
next
  case (call_write s pid data nb)
  then show ?case by (auto intro!: pipe_inv_call simp: sdev_write_def)
qed (auto simp: pipe_inv_init intro: pipe_inv_step)

section \<open>Properties\<close>

lemma ex_dev_inv [simp]: "ring_inv ex_dev" "ring_inv ex_full"
  by (simp_all add: ring_inv_def ex_dev_def ex_full_def)

text \<open>
  C28.  Every sequence of reads and writes on the ring in which a read finds data and no write
  brings the write pointer round to a read pointer standing at the start of the buffer is
  executed without an access outside of the buffer, and it delivers the accepted bytes once
  each and in order: what was in the pipe followed by what was accepted is what was
  delivered followed by what is still in the pipe.
\<close>

theorem pipe_delivers_in_order:
  assumes "ring_inv s" "fifo_guard pipe_put pipe_get pipe_room ring_data ops s"
  shows "\<exists>acc del s'. fifo_run pipe_put pipe_get ops s = Some (acc, del, s') \<and> ring_inv s' \<and>
           ring_data s @ acc = del @ ring_data s'"
  using assms by (rule scullb_fifo.run_in_order)

theorem pipe_delivers_in_order_witness:
  "\<exists>acc del s'. fifo_run pipe_put pipe_get [Put [1, 2, 3], Get 2, Put [4], Get 9] ex_dev
       = Some (acc, del, s') \<and> ring_inv s' \<and> ring_data ex_dev @ acc = del @ ring_data s'"
proof (rule pipe_delivers_in_order)
  show "fifo_guard pipe_put pipe_get pipe_room ring_data [Put [1, 2, 3], Get 2, Put [4], Get 9] ex_dev"
    by code_simp
qed simp

text \<open>
  C30.  The exact effect of a write that the user copy completes: it accepts the bytes that the
  count computed from \<^verbatim>\<open>have_space\<close> allows and appends them, except that
  when the read pointer stands at the start of the buffer and the accepted bytes reach its end,
  the pointers meet and the pipe reads as empty: everything in it is lost.
\<close>

theorem sdev_write_effect:
  assumes "ring_inv d" "from_user_ok f" "\<And>bs. snd (f bs) = 0"
  shows "\<exists>n d'. sdev_write_copy f ub d = Some (n, d') \<and> n = write_count (length ub) d \<and>
           ring_inv d' \<and>
           ring_data d' = (if rp d = 0 \<and> wp d + n = bufsize d then []
                           else ring_data d @ take n ub)"
proof -
  obtain n d' where "sdev_write_copy f ub d = Some (n, d')"
    by (rule sdev_write_copy_runs[OF assms(1,2), of ub]) auto
  then show ?thesis
    using sdev_write_copy_data[OF assms(1,2)] sdev_write_copy_inv[OF assms(1,2)] assms(3) by blast
qed

theorem sdev_write_effect_witness:
  "\<exists>n d'. sdev_write_copy (\<lambda>bs. (bs, 0)) (replicate 30 7) ex_full = Some (n, d') \<and> n = 21 \<and>
     length (ring_data ex_full) = 21 \<and> ring_data d' = []"
proof -
  have "write_count 30 ex_full = 21" "length (ring_data ex_full) = 21"
    by code_simp+
  moreover have "rp ex_full = 0" "wp ex_full = 21" "bufsize ex_full = 42"
    by (simp_all add: ex_full_def ex_dev_def)
  ultimately show ?thesis
    using sdev_write_effect[of ex_full "\<lambda>bs. (bs, 0)" "replicate 30 7"] by auto
qed

text \<open>
  C31.  In every state that any interleaving of read and write calls reaches, the pointers are
  inside of the buffer, at most one process is in a critical section and it is the one the
  semaphore was granted to, no finished call holds the semaphore, a reader copies only from a
  non-empty ring, and no writer is ever asleep: the test for a full buffer never holds.
\<close>

theorem pipe_reachable_safe:
  assumes "pipe_reach d0 s" "ring_inv d0"
  shows "ring_inv (dev s) \<and>
    (\<forall>pid p. procs s pid = Some p \<longrightarrow> (critical (p_pc p) \<longleftrightarrow> sem s = Some pid) \<and>
       (p_pc p = R_copy \<longrightarrow> ring_data (dev s) \<noteq> []) \<and> \<not> writer_waits (p_pc p)) \<and>
    (\<forall>pid. sem s = Some pid \<longrightarrow> procs s pid \<noteq> None)"
proof -
  have inv: "pipe_inv s" by (rule pipe_reach_pipe_inv[OF assms])
  then have "ring_inv (dev s)" by (simp add: pipe_inv_def)
  with inv show ?thesis
    unfolding pipe_inv_def by (simp add: ring_data_nil_iff) (metis option.distinct(1) option.inject)
qed

theorem pipe_reachable_safe_witness:
  "ring_inv (dev ((pipe_init ex_dev)\<lparr>procs := [1 \<mapsto> sdev_write [7] False]\<rparr>))"
proof -
  have "pipe_reach ex_dev ((pipe_init ex_dev)\<lparr>procs := (procs (pipe_init ex_dev))(1 \<mapsto> sdev_write [7] False)\<rparr>)"
    by (rule pipe_reach.call_write[OF pipe_reach.init]) (simp add: pipe_init_def)
  then show ?thesis
    using pipe_reachable_safe[of ex_dev "(pipe_init ex_dev)\<lparr>procs := [1 \<mapsto> sdev_write [7] False]\<rparr>"]
    by (simp add: pipe_init_def)
qed

text \<open>
  C32.  A process inside of a critical section is never stuck: in every reachable state the
  holder of the semaphore can move, no access of its copy leaves the buffer, and after at most
  two of its steps the semaphore is free again.
\<close>

theorem holder_releases:
  assumes "pipe_reach d0 s" "ring_inv d0" "sem s = Some pid" "from_user_ok (env_from_user e)"
  shows "\<exists>s'. proc_step e pid s = Some s' \<and>
           (sem s' = None \<or> (\<exists>s''. proc_step e pid s' = Some s'' \<and> sem s'' = None))"
proof -
  have inv: "pipe_inv s" by (rule pipe_reach_pipe_inv[OF assms(1,2)])
  then obtain p where p: "procs s pid = Some p" "critical (p_pc p)"
    using assms(3) unfolding pipe_inv_def by blast
  have ring: "ring_inv (dev s)" and hs: "have_space (dev s) \<noteq> 0"
    using inv have_space_pos[of "dev s"] by (auto simp: pipe_inv_def)
  obtain x where r: "sdev_read_copy (env_to_user e) (p_len p) (dev s) = Some x"
    by (rule sdev_read_copy_runs[OF ring, of "env_to_user e" "p_len p"]) blast
  obtain y where w: "sdev_write_copy (env_from_user e) (p_data p) (dev s) = Some y"
    by (rule sdev_write_copy_runs[OF ring assms(4), of "p_data p"]) blast
  show ?thesis
    using p hs r w by (cases x; cases y; cases "p_pc p")
      (auto simp: proc_step_def pc_step_def up_def)
qed

theorem holder_releases_witness:
  "\<exists>s'. proc_step \<lparr>env_signal = False, env_to_user = (\<lambda>_. 0), env_from_user = (\<lambda>bs. (bs, 0))\<rparr> 1 ex_held
      = Some s' \<and> sem ex_held = Some 1"
proof -
  let ?e = "\<lparr>env_signal = False, env_to_user = (\<lambda>_. 0), env_from_user = (\<lambda>bs. (bs, 0))\<rparr>"
  have "pipe_reach ex_dev ((pipe_init ex_dev)\<lparr>procs := (procs (pipe_init ex_dev))(1 \<mapsto> sdev_write [7] False)\<rparr>)"
    by (rule pipe_reach.call_write[OF pipe_reach.init]) (simp add: pipe_init_def)
  then have "pipe_reach ex_dev ex_held"
    by (rule pipe_reach.step[where e = ?e and pid = 1])
      (simp_all add: ex_held_def step_defs pipe_init_def sdev_write_def)
  moreover have "sem ex_held = Some 1"
    by (simp add: ex_held_def step_defs pipe_init_def sdev_write_def)
  ultimately show ?thesis
    using holder_releases[of ex_dev ex_held 1 ?e] by auto
qed



end
