(* ===== verification/Scst_Cmd.thy ===== *)
theory Scst_Cmd
  imports Prelude
begin

text \<open>
  The command and the device of the SCST target core
  (\<^verbatim>\<open>src/scst-trunk/scst/include/scst.h\<close>), restricted to the fields
  that the modelled code reads or writes, and the scatter lists of a command with their
  shortening and restoring (\<^verbatim>\<open>scst_adjust_sg\<close>,
  \<^verbatim>\<open>scst_restore_sg_buff\<close>).  C integers keep their width: an
  \<^verbatim>\<open>int\<close> is a 32-bit word and an \<^verbatim>\<open>int64_t\<close> a 64-bit
  word, read with \<^term>\<open>sint\<close> where the code compares them as signed numbers.
  Two fields are not part of the C structure: \<open>env_sense_mem\<close> and
  \<open>env_sg_mem\<close> are what the kernel's allocators hand out to this command.
\<close>

named_theorems flag_defs "constants of the C headers"

section \<open>Command flags\<close>

definition SCST_SMALL_TIMEOUT :: "32 word" where [flag_defs]: "SCST_SMALL_TIMEOUT = 0x1"
definition SCST_LONG_TIMEOUT :: "32 word" where [flag_defs]: "SCST_LONG_TIMEOUT = 0x2"
definition SCST_BOTH_TIMEOUTS :: "32 word" where [flag_defs]: "SCST_BOTH_TIMEOUTS = SCST_SMALL_TIMEOUT OR SCST_LONG_TIMEOUT"
definition SCST_TRANSFER_LEN_TYPE_FIXED :: "32 word" where [flag_defs]: "SCST_TRANSFER_LEN_TYPE_FIXED = 0x4"
definition SCST_UNKNOWN_LBA :: "32 word" where [flag_defs]: "SCST_UNKNOWN_LBA = 0x8"
definition SCST_UNKNOWN_LENGTH :: "32 word" where [flag_defs]: "SCST_UNKNOWN_LENGTH = 0x10"
definition SCST_INFO_VALID :: "32 word" where [flag_defs]: "SCST_INFO_VALID = 0x20"
definition SCST_LBA_NOT_VALID :: "32 word" where [flag_defs]: "SCST_LBA_NOT_VALID = 0x40"
definition SCST_IMPLICIT_HQ :: "32 word" where [flag_defs]: "SCST_IMPLICIT_HQ = 0x80"
definition SCST_SKIP_UA :: "32 word" where [flag_defs]: "SCST_SKIP_UA = 0x100"
definition SCST_WRITE_MEDIUM :: "32 word" where [flag_defs]: "SCST_WRITE_MEDIUM = 0x200"
definition SCST_LOCAL_CMD :: "32 word" where [flag_defs]: "SCST_LOCAL_CMD = 0x400"
definition SCST_FULLY_LOCAL_CMD :: "32 word" where [flag_defs]: "SCST_FULLY_LOCAL_CMD = 0x800"
definition SCST_REG_RESERVE_ALLOWED :: "32 word" where [flag_defs]: "SCST_REG_RESERVE_ALLOWED = 0x1000"
definition SCST_WRITE_EXCL_ALLOWED :: "32 word" where [flag_defs]: "SCST_WRITE_EXCL_ALLOWED = 0x2000"
definition SCST_EXCL_ACCESS_ALLOWED :: "32 word" where [flag_defs]: "SCST_EXCL_ACCESS_ALLOWED = 0x4000"
definition SCST_SERIALIZED :: "32 word" where [flag_defs]: "SCST_SERIALIZED = 0x10000"
definition SCST_STRICTLY_SERIALIZED :: "32 word" where [flag_defs]: "SCST_STRICTLY_SERIALIZED = 0x20000 OR SCST_SERIALIZED"
definition SCST_CAN_GEN_3PARTY_COMMANDS :: "32 word" where [flag_defs]: "SCST_CAN_GEN_3PARTY_COMMANDS = 0x40000"
definition SCST_DESCRIPTORS_BASED :: "32 word" where [flag_defs]: "SCST_DESCRIPTORS_BASED = 0x80000"
definition SCST_SCSI_ATOMIC :: "32 word" where [flag_defs]: "SCST_SCSI_ATOMIC = 0x100000"

section \<open>Constants of the SCSI headers\<close>

definition SAM_STAT_GOOD :: byte where [flag_defs]: "SAM_STAT_GOOD = 0"
definition SAM_STAT_CHECK_CONDITION :: byte where [flag_defs]: "SAM_STAT_CHECK_CONDITION = 0x02"
definition SAM_STAT_BUSY :: byte where [flag_defs]: "SAM_STAT_BUSY = 0x08"
definition SAM_STAT_RESERVATION_CONFLICT :: byte where
  [flag_defs]: "SAM_STAT_RESERVATION_CONFLICT = 0x18"
definition SAM_STAT_TASK_SET_FULL :: byte where [flag_defs]: "SAM_STAT_TASK_SET_FULL = 0x28"

abbreviation (input) ILLEGAL_REQUEST :: byte where "ILLEGAL_REQUEST \<equiv> 5"
abbreviation (input) UNIT_ATTENTION :: byte where "UNIT_ATTENTION \<equiv> 6"

abbreviation (input) REQUEST_SENSE :: byte where "REQUEST_SENSE \<equiv> 0x03"
abbreviation (input) INQUIRY :: byte where "INQUIRY \<equiv> 0x12"

definition SCST_SENSE_BUFFERSIZE :: nat where [flag_defs]: "SCST_SENSE_BUFFERSIZE = 252"

datatype scst_data_direction =
  SCST_DATA_UNKNOWN | SCST_DATA_WRITE | SCST_DATA_READ | SCST_DATA_BIDI | SCST_DATA_NONE

text \<open>The states of the command state machine, active ones first.\<close>

datatype scst_cmd_state =
  SCST_CMD_STATE_PARSE | SCST_CMD_STATE_PREPARE_SPACE | SCST_CMD_STATE_PREPROCESSING_DONE |
  SCST_CMD_STATE_RDY_TO_XFER | SCST_CMD_STATE_TGT_PRE_EXEC | SCST_CMD_STATE_EXEC_CHECK_SN |
  SCST_CMD_STATE_PRE_DEV_DONE | SCST_CMD_STATE_MODE_SELECT_CHECKS | SCST_CMD_STATE_DEV_DONE |
  SCST_CMD_STATE_PRE_XMIT_RESP | SCST_CMD_STATE_PRE_XMIT_RESP1 | SCST_CMD_STATE_PRE_XMIT_RESP2 |
  SCST_CMD_STATE_XMIT_RESP | SCST_CMD_STATE_FINISHED | SCST_CMD_STATE_FINISHED_INTERNAL |
  SCST_CMD_STATE_INIT_WAIT | SCST_CMD_STATE_INIT | SCST_CMD_STATE_PREPROCESSING_DONE_CALLED |
  SCST_CMD_STATE_DATA_WAIT | SCST_CMD_STATE_EXEC_CHECK_BLOCKING | SCST_CMD_STATE_LOCAL_EXEC |
  SCST_CMD_STATE_REAL_EXEC | SCST_CMD_STATE_EXEC_WAIT | SCST_CMD_STATE_XMIT_WAIT

section \<open>Scatter lists\<close>

text \<open>An entry is the memory it points into with an offset and a length.\<close>

record sg_entry =
  sge_mem :: "byte list"
  sge_offset :: nat
  sge_length :: nat

record scst_orig_sg_data =
  orig_sg_cnt :: nat
  orig_sg_entry :: nat
  orig_entry_offs :: nat
  orig_entry_len :: nat

section \<open>Devices and commands\<close>

record scst_device =
  dev_type :: nat
  d_sense :: bool
  dpicz :: bool
  block_size :: "32 word"
  block_shift :: nat
  dev_dif_mode :: "32 word"
  dev_dif_type :: nat
  dif_app_chk :: "32 word"
  dif_ref_chk :: "32 word"
  dev_dif_rd_actions :: "32 word"
  dev_dif_rd_prot0_actions :: "32 word"
  dev_dif_wr_actions :: "32 word"
  dev_dif_wr_prot0_actions :: "32 word"
  has_get_supported_opcodes :: bool

text \<open>Pointers that are only compared with null are booleans (\<open>has_tgt_dev\<close>).  The
  fields \<open>env_sense_mem\<close> and \<open>env_sg_mem\<close> are the outcomes of the next
  allocations of memory for sense data and for a scatter list.\<close>

record scst_cmd =
  cmd_state :: scst_cmd_state
  cmd_atomic :: bool
  internal_cmd :: bool
  preprocessing_only :: bool
  has_tgt_dev :: bool
  dh_data_buf_alloced :: bool
  expected_values_set :: bool
  expected_data_direction :: scst_data_direction
  expected_transfer_len_full :: "32 word"
  expected_out_transfer_len :: "32 word"
  write_len :: "32 word"
  cdb :: "byte list"
  cdb_len :: nat
  lba_off :: nat
  lba_len :: nat
  len_off :: nat
  len_len :: nat
  op_flags :: "32 word"
  op_name :: string
  data_direction :: scst_data_direction
  lba :: "64 word"
  data_len :: "64 word"
  bufflen :: "32 word"
  out_bufflen :: "32 word"
  resp_data_len :: "32 word"
  timeout :: nat
  cmd_naca :: bool
  cmd_linked :: bool
  cmd_on_global_stpg_list :: bool
  cmd_dif_actions :: "32 word"
  tgt_dif_data_expected :: bool
  cmd_corrupt_dif_tag :: "32 word"
  cmd_status :: byte
  host_status :: byte
  is_send_status :: bool
  resid_possible :: bool
  completed :: bool
  dbl_ua_orig_resp_data_len :: "32 word"
  dbl_ua_orig_data_direction :: scst_data_direction
  cmd_sense :: "byte list option"
  sense_buflen :: nat
  sense_valid_len :: nat
  cmd_sg :: "sg_entry list option"
  sg_cnt :: nat
  sg_buff_modified :: bool
  orig_sg :: scst_orig_sg_data
  dif_sg :: "sg_entry list option"
  dif_sg_cnt :: nat
  dif_sg_buff_modified :: bool
  orig_dif_sg :: scst_orig_sg_data
  tgt_i_data_buf_alloced :: bool
  tgt_i_sg :: "sg_entry list option"
  tgt_i_sg_cnt :: nat
  cmd_dev :: "scst_device option"
  env_sense_mem :: bool
  env_sg_mem :: "sg_entry list option"

text \<open>\<^verbatim>\<open>scst_get_cmd_dev_d_sense\<close>: a command without a device has fixed
  format sense data.\<close>

definition scst_get_cmd_dev_d_sense :: "scst_cmd \<Rightarrow> bool" where
  "scst_get_cmd_dev_d_sense cmd = (case cmd_dev cmd of None \<Rightarrow> False | Some d \<Rightarrow> d_sense d)"

section \<open>Shortening and restoring a scatter list\<close>

text \<open>
  \<^verbatim>\<open>__scst_adjust_sg\<close> walks the first \<open>cnt\<close> entries, summing up
  their lengths, until the sum reaches \<open>adjust_len\<close>; that entry is shortened and the
  count is set to end there.  The result says whether such an entry was found.
\<close>

fun scst_adjust_sg_loop ::
  "nat \<Rightarrow> nat \<Rightarrow> int \<Rightarrow> int \<Rightarrow> sg_entry list \<Rightarrow> nat \<Rightarrow>
   (sg_entry list \<times> nat \<times> scst_orig_sg_data) option" where
  "scst_adjust_sg_loop 0 i l adjust_len sg cnt = None"
| "scst_adjust_sg_loop (Suc n) i l adjust_len sg cnt =
     (let l = l + int (sge_length (sg ! i))
      in if l \<ge> adjust_len
         then let left = adjust_len - (l - int (sge_length (sg ! i)))
              in Some (sg[i := (sg ! i)\<lparr>sge_length := nat (left mod 2 ^ 32)\<rparr>],
                       if left > 0 then i + 1 else i,
                       \<lparr>orig_sg_cnt = cnt, orig_sg_entry = i,
                        orig_entry_offs = sge_offset (sg ! i),
                        orig_entry_len = sge_length (sg ! i)\<rparr>)
         else scst_adjust_sg_loop n (i + 1) l adjust_len sg cnt)"

definition scst_adjust_sg_list ::
  "sg_entry list \<Rightarrow> nat \<Rightarrow> int \<Rightarrow> (sg_entry list \<times> nat \<times> scst_orig_sg_data) option" where
  "scst_adjust_sg_list sg cnt adjust_len = scst_adjust_sg_loop cnt 0 0 adjust_len sg cnt"

definition scst_restore_sg_list ::
  "sg_entry list \<Rightarrow> scst_orig_sg_data \<Rightarrow> sg_entry list \<times> nat" where
  "scst_restore_sg_list sg os =
     (sg[orig_sg_entry os := (sg ! orig_sg_entry os)
           \<lparr>sge_offset := orig_entry_offs os, sge_length := orig_entry_len os\<rparr>],
      orig_sg_cnt os)"

text \<open>\<^verbatim>\<open>scst_adjust_sg\<close> with \<^verbatim>\<open>reg_sg\<close> true, the way
  \<^verbatim>\<open>scst_set_resp_data_len\<close> calls it.  \<^term>\<open>None\<close> is the access
  through a null list or a null device.\<close>

definition scst_adjust_sg :: "scst_cmd \<Rightarrow> int \<Rightarrow> scst_cmd option" where
  "scst_adjust_sg cmd adjust_len = do {
     sg \<leftarrow> cmd_sg cmd;
     let cmd = (case scst_adjust_sg_list sg (sg_cnt cmd) adjust_len of
           None \<Rightarrow> cmd\<lparr>sg_buff_modified := False\<rparr>
         | Some (sg', cnt', os) \<Rightarrow>
             cmd\<lparr>cmd_sg := Some sg', sg_cnt := cnt', orig_sg := os, sg_buff_modified := True\<rparr>);
     (case dif_sg cmd of None \<Rightarrow> Some cmd
      | Some dsg \<Rightarrow> do {
          dev \<leftarrow> cmd_dev cmd;
          let adjust_len = adjust_len div 2 ^ (block_shift dev - 3);
          Some (case scst_adjust_sg_list dsg (dif_sg_cnt cmd) adjust_len of
             None \<Rightarrow> cmd\<lparr>dif_sg_buff_modified := False\<rparr>
           | Some (sg', cnt', os) \<Rightarrow>
               cmd\<lparr>dif_sg := Some sg', dif_sg_cnt := cnt', orig_dif_sg := os,
                   dif_sg_buff_modified := True\<rparr>) })
   }"

definition scst_restore_sg_buff :: "scst_cmd \<Rightarrow> scst_cmd option" where
  "scst_restore_sg_buff cmd = do {
     cmd \<leftarrow> (if sg_buff_modified cmd then do {
                sg \<leftarrow> cmd_sg cmd;
                let (sg', cnt') = scst_restore_sg_list sg (orig_sg cmd);
                Some (cmd\<lparr>cmd_sg := Some sg', sg_cnt := cnt'\<rparr>) }
              else Some cmd);
     cmd \<leftarrow> (if dif_sg_buff_modified cmd then do {
                sg \<leftarrow> dif_sg cmd;
                let (sg', cnt') = scst_restore_sg_list sg (orig_dif_sg cmd);
                Some (cmd\<lparr>dif_sg := Some sg', dif_sg_cnt := cnt'\<rparr>) }
              else Some cmd);
     Some (cmd\<lparr>sg_buff_modified := False, dif_sg_buff_modified := False\<rparr>)
   }"

definition scst_check_restore_sg_buff :: "scst_cmd \<Rightarrow> scst_cmd option" where
  "scst_check_restore_sg_buff cmd =
     (if sg_buff_modified cmd \<or> dif_sg_buff_modified cmd then scst_restore_sg_buff cmd
      else Some cmd)"

definition scst_set_resp_data_len :: "scst_cmd \<Rightarrow> 32 word \<Rightarrow> scst_cmd option" where
  "scst_set_resp_data_len cmd rdl = do {
     cmd \<leftarrow> scst_check_restore_sg_buff cmd;
     let cmd = cmd\<lparr>resp_data_len := rdl\<rparr>;
     if rdl = bufflen cmd then Some cmd
     else if sint rdl > sint (bufflen cmd) then Some (cmd\<lparr>resp_data_len := bufflen cmd\<rparr>)
     else do {
       cmd \<leftarrow> scst_adjust_sg cmd (sint rdl);
       Some (cmd\<lparr>resid_possible := True\<rparr>) }
   }"

section \<open>Specification of scatter lists\<close>

definition sg_data :: "sg_entry list \<Rightarrow> nat \<Rightarrow> byte list" where
  "sg_data sg cnt =
     concat (map (\<lambda>e. take (sge_length e) (drop (sge_offset e) (sge_mem e))) (take cnt sg))"

definition sg_total :: "sg_entry list \<Rightarrow> nat \<Rightarrow> nat" where
  "sg_total sg cnt = sum_list (map sge_length (take cnt sg))"

definition sg_ok :: "sg_entry list \<Rightarrow> nat \<Rightarrow> bool" where
  "sg_ok sg cnt = (cnt \<le> length sg \<and>
     list_all (\<lambda>e. sge_offset e + sge_length e \<le> length (sge_mem e)) sg)"

definition ex_sg :: "sg_entry list" where
  "ex_sg = [\<lparr>sge_mem = [1, 2, 3, 4], sge_offset = 1, sge_length = 3\<rparr>,
            \<lparr>sge_mem = [5, 6, 7, 8], sge_offset = 0, sge_length = 4\<rparr>]"

section \<open>Scatter lists: shortening and restoring\<close>

lemma sg_data_Suc:
  "i < length sg \<Longrightarrow> sg_data sg (Suc i) =
     sg_data sg i @ take (sge_length (sg ! i)) (drop (sge_offset (sg ! i)) (sge_mem (sg ! i)))"
  by (simp add: sg_data_def take_Suc_conv_app_nth)

lemma sg_total_Suc: "i < length sg \<Longrightarrow> sg_total sg (Suc i) = sg_total sg i + sge_length (sg ! i)"
  by (simp add: sg_total_def take_Suc_conv_app_nth)

lemma sg_total_0 [simp]: "sg_total sg 0 = 0"
  by (simp add: sg_total_def)

lemma length_sg_data:
  "sg_ok sg cnt \<Longrightarrow> k \<le> cnt \<Longrightarrow> length (sg_data sg k) = sg_total sg k"
proof (induction k)
  case (Suc k)
  then have "sge_offset (sg ! k) + sge_length (sg ! k) \<le> length (sge_mem (sg ! k))" "k < length sg"
    by (auto simp: sg_ok_def list_all_length)
  with Suc show ?case by (simp add: sg_data_Suc sg_total_Suc)
qed (simp add: sg_data_def sg_total_def)

lemma sg_data_take_prefix:
  assumes "sg_ok sg cnt" "k + n \<le> cnt" "a \<le> sg_total sg k"
  shows "take a (sg_data sg (k + n)) = take a (sg_data sg k)"
  using assms(2)
proof (induction n)
  case (Suc n)
  have "k + n < length sg" using Suc.prems assms(1) by (auto simp: sg_ok_def)
  moreover have "a \<le> length (sg_data sg (k + n))"
    using assms Suc.prems length_sg_data[OF assms(1), of "k + n"]
    by (simp add: sg_total_def take_add)
  ultimately show ?case using Suc by (simp add: sg_data_Suc)
qed simp

lemma sg_data_update_later: "k \<le> i \<Longrightarrow> sg_data (sg[i := e]) k = sg_data sg k"
  by (simp add: sg_data_def)

lemma scst_adjust_sg_loop_spec:
  assumes "sg_ok sg cnt" "i + n = cnt" "l = int (sg_total sg i)" "a < 2 ^ 32"
    "a \<le> sg_total sg cnt" "sg_total sg i < a \<or> i = 0" "i < cnt"
  shows "\<exists>sg' c' os. scst_adjust_sg_loop n i l (int a) sg cnt = Some (sg', c', os) \<and>
           sg_data sg' c' = take a (sg_data sg cnt) \<and> scst_restore_sg_list sg' os = (sg, cnt)"
  using assms(2,3,6,7)
proof (induction n arbitrary: i l)
  case (Suc n)
  let ?e = "sg ! i"
  have i: "i < length sg" using Suc.prems assms(1) by (auto simp: sg_ok_def)
  show ?case
  proof (cases "sg_total sg (Suc i) \<ge> a")
    case True
    let ?left = "int a - l"
    have left: "0 \<le> ?left" "?left \<le> int (sge_length ?e)" "nat (?left mod 2 ^ 32) = a - sg_total sg i"
      using Suc.prems True assms(4) i by (auto simp: sg_total_Suc nat_diff_distrib)
    let ?sg' = "sg[i := ?e\<lparr>sge_length := a - sg_total sg i\<rparr>]"
    have pre: "take a (sg_data sg cnt) = take a (sg_data sg (Suc i))"
      using sg_data_take_prefix[OF assms(1), of "Suc i" n a] Suc.prems True by simp
    have len: "length (sg_data sg i) = sg_total sg i"
      using length_sg_data[OF assms(1), of i] Suc.prems by simp
    have data: "sg_data ?sg' (Suc i) = take a (sg_data sg (Suc i))"
    proof -
      have "sg_total sg i \<le> a" using Suc.prems(3) by auto
      then show ?thesis
        using i len left(2,1) Suc.prems
        by (simp add: sg_data_Suc sg_data_update_later min_def)
    qed
    have data0: "sg_data ?sg' i = take a (sg_data sg (Suc i))" if "\<not> ?left > 0"
    proof -
      from that Suc.prems left have "i = 0" "a = 0" by auto
      then show ?thesis by (simp add: sg_data_def)
    qed
    have "scst_adjust_sg_loop (Suc n) i l (int a) sg cnt =
       Some (?sg', if ?left > 0 then i + 1 else i,
         \<lparr>orig_sg_cnt = cnt, orig_sg_entry = i, orig_entry_offs = sge_offset ?e,
          orig_entry_len = sge_length ?e\<rparr>)"
      using True Suc.prems i left(3) by (simp add: Let_def sg_total_Suc)
    then show ?thesis
      using pre data data0 i by (auto simp: scst_restore_sg_list_def)
  next
    case False
    have "Suc i < cnt"
    proof (rule ccontr)
      assume "\<not> Suc i < cnt"
      then have "Suc i = cnt" using Suc.prems by simp
      then show False using False assms(5) by simp
    qed
    then have "\<exists>sg' c' os. scst_adjust_sg_loop n (Suc i) (l + int (sge_length ?e)) (int a) sg cnt
        = Some (sg', c', os) \<and>
        sg_data sg' c' = take a (sg_data sg cnt) \<and> scst_restore_sg_list sg' os = (sg, cnt)"
      using Suc.IH[of "Suc i" "l + int (sge_length ?e)"] Suc.prems False i by (auto simp: sg_total_Suc)
    then show ?thesis
      using False Suc.prems i by (simp add: Let_def sg_total_Suc)
  qed
qed simp

section \<open>Properties\<close>



end
