(* ===== verification/Scst_Sense.thy ===== *)
theory Scst_Sense
  imports Scst_Cmd
begin

text \<open>
  Status and sense data of a command: \<^verbatim>\<open>scst_lib.c\<close>, lines 1695 to 2423,
  and the helpers of \<^verbatim>\<open>scst_const.h\<close>.  The two sense formats (fixed and
  descriptor) are byte layouts; \<^term>\<open>None\<close> is a failed \<^verbatim>\<open>sBUG_ON\<close>
  or an access outside of an object.
\<close>

section \<open>Reading sense data\<close>

definition scst_sense_valid :: "byte list option \<Rightarrow> bool option" where
  "scst_sense_valid sense = (case sense of None \<Rightarrow> Some False
     | Some s \<Rightarrow> do { b \<leftarrow> rd s 0; Some (b AND 0x70 = 0x70) })"

definition scst_sense_response_code :: "byte list \<Rightarrow> byte option" where
  "scst_sense_response_code sense = do { b \<leftarrow> rd sense 0; Some (b AND 0x7F) }"

definition SCST_SENSE_KEY_VALID :: nat where [flag_defs]: "SCST_SENSE_KEY_VALID = 1"
definition SCST_SENSE_ASC_VALID :: nat where [flag_defs]: "SCST_SENSE_ASC_VALID = 2"
definition SCST_SENSE_ASCQ_VALID :: nat where [flag_defs]: "SCST_SENSE_ASCQ_VALID = 4"
definition SCST_SENSE_ALL_VALID :: nat where [flag_defs]: "SCST_SENSE_ALL_VALID = 7"

text \<open>One test of \<^verbatim>\<open>scst_analyze_sense\<close>: when the mask asks for the field,
  the data must reach it and the byte there must agree.\<close>

definition sense_field_ok :: "byte list \<Rightarrow> nat \<Rightarrow> bool \<Rightarrow> nat \<Rightarrow> byte \<Rightarrow> bool option" where
  "sense_field_ok sense len wanted off v =
     (if \<not> wanted then Some True
      else if len < off + 1 then Some False
      else do { b \<leftarrow> rd sense off; Some (b = v) })"

definition scst_analyze_sense ::
  "byte list \<Rightarrow> nat \<Rightarrow> nat \<Rightarrow> byte \<Rightarrow> byte \<Rightarrow> byte \<Rightarrow> bool option" where
  "scst_analyze_sense sense len valid_mask key asc ascq = do {
     rc \<leftarrow> scst_sense_response_code sense;
     let k = bit valid_mask 0;
     let a = bit valid_mask 1;
     let q = bit valid_mask 2;
     (if rc = 0x70 \<or> rc = 0x71 then do {
        ok \<leftarrow> sense_field_ok sense len k 2 key;
        if \<not> ok then Some False else do {
        ok \<leftarrow> sense_field_ok sense len a 12 asc;
        if \<not> ok then Some False else sense_field_ok sense len q 13 ascq }}
      else if rc = 0x72 \<or> rc = 0x73 then do {
        ok \<leftarrow> sense_field_ok sense len k 1 key;
        if \<not> ok then Some False else do {
        ok \<leftarrow> sense_field_ok sense len a 2 asc;
        if \<not> ok then Some False else sense_field_ok sense len q 3 ascq }}
      else Some False)
   }"

definition scst_is_ua_sense :: "byte list option \<Rightarrow> nat \<Rightarrow> bool option" where
  "scst_is_ua_sense sense len = do {
     v \<leftarrow> scst_sense_valid sense;
     (case sense of Some s \<Rightarrow>
        if v then scst_analyze_sense s len SCST_SENSE_KEY_VALID UNIT_ATTENTION 0 0 else Some False
      | None \<Rightarrow> Some False) }"

definition scst_is_ua_global :: "byte list \<Rightarrow> nat \<Rightarrow> bool option" where
  "scst_is_ua_global sense len =
     scst_analyze_sense sense len SCST_SENSE_ALL_VALID UNIT_ATTENTION 0x3F 0xE"

section \<open>Writing sense data\<close>

definition put_if :: "nat \<Rightarrow> nat \<Rightarrow> byte \<Rightarrow> byte list \<Rightarrow> byte list" where
  "put_if len i v xs = (if len > i then xs[i := v] else xs)"

text \<open>Unit attentions that are reported in the fixed format whatever the device asks for.\<close>

definition sense_forces_fixed :: "byte \<Rightarrow> byte \<Rightarrow> byte \<Rightarrow> bool" where
  "sense_forces_fixed key asc ascq =
     (key = UNIT_ATTENTION \<and> (asc = 0x29 \<or> asc = 0x2A \<and> ascq = 1))"

text \<open>\<^verbatim>\<open>scst_set_sense\<close>: the resulting length and the buffer.  The length is
  8 or 18 whatever the size of the buffer is.\<close>

definition scst_set_sense ::
  "byte list \<Rightarrow> nat \<Rightarrow> bool \<Rightarrow> byte \<Rightarrow> byte \<Rightarrow> byte \<Rightarrow> (nat \<times> byte list) option" where
  "scst_set_sense buffer len dsense key asc ascq =
     (if len = 0 \<or> length buffer < len then None
      else let buffer = overwrite 0 (replicate len 0) buffer;
               dsense = (if sense_forces_fixed key asc ascq then False else dsense)
           in if dsense
              then Some (8, put_if len 3 ascq (put_if len 2 asc (put_if len 1 key
                     (buffer[0 := 0x72]))))
              else Some (18, put_if len 13 ascq (put_if len 12 asc (put_if len 7 0x0a
                     (put_if len 2 key (buffer[0 := 0x70]))))))"

section \<open>The sense buffer of a command\<close>

definition scst_alloc_sense :: "scst_cmd \<Rightarrow> int \<times> scst_cmd" where
  "scst_alloc_sense cmd =
     (case cmd_sense cmd of
        Some s \<Rightarrow> (0, cmd\<lparr>sense_valid_len := 0,
                          cmd_sense := Some (overwrite 0 (replicate (sense_buflen cmd) 0) s)\<rparr>)
      | None \<Rightarrow>
          if env_sense_mem cmd
          then (0, cmd\<lparr>sense_buflen := SCST_SENSE_BUFFERSIZE, sense_valid_len := 0,
                       cmd_sense := Some (replicate SCST_SENSE_BUFFERSIZE 0)\<rparr>)
          else (- ENOMEM, cmd))"

definition scst_alloc_set_sense :: "scst_cmd \<Rightarrow> byte list \<Rightarrow> nat \<Rightarrow> (int \<times> scst_cmd) option" where
  "scst_alloc_set_sense cmd sense len =
     (let (res, cmd) = scst_alloc_sense cmd
      in if res \<noteq> 0 then Some (res, cmd)
         else do {
           let valid = (if sense_buflen cmd < len then sense_buflen cmd else len);
           src \<leftarrow> rd_range sense 0 valid;
           dst \<leftarrow> cmd_sense cmd;
           dst \<leftarrow> wr_range 0 src dst;
           Some (res, cmd\<lparr>sense_valid_len := valid, cmd_sense := Some dst\<rparr>) })"

definition scst_set_cmd_error_status :: "scst_cmd \<Rightarrow> byte \<Rightarrow> int \<times> scst_cmd" where
  "scst_set_cmd_error_status cmd st =
     (if cmd_status cmd \<noteq> 0 then (- EEXIST, cmd)
      else (0, cmd\<lparr>cmd_status := st, host_status := 0,
                   dbl_ua_orig_resp_data_len := resp_data_len cmd,
                   dbl_ua_orig_data_direction := data_direction cmd,
                   data_direction := SCST_DATA_NONE, resp_data_len := 0,
                   resid_possible := True, is_send_status := True, completed := True\<rparr>))"

text \<open>Writes the sense buffer of the command with \<^verbatim>\<open>scst_set_sense\<close>.\<close>

definition cmd_put_sense :: "scst_cmd \<Rightarrow> bool \<Rightarrow> byte \<Rightarrow> byte \<Rightarrow> byte \<Rightarrow> scst_cmd option" where
  "cmd_put_sense cmd dsense key asc ascq = do {
     s \<leftarrow> cmd_sense cmd;
     (n, s) \<leftarrow> scst_set_sense s (sense_buflen cmd) dsense key asc ascq;
     Some (cmd\<lparr>cmd_sense := Some s, sense_valid_len := n\<rparr>) }"

text \<open>The tail of \<^verbatim>\<open>scst_set_cmd_error\<close> from the label
  \<^verbatim>\<open>do_sense\<close> on.\<close>

definition do_sense :: "scst_cmd \<Rightarrow> byte \<Rightarrow> byte \<Rightarrow> byte \<Rightarrow> (int \<times> scst_cmd) option" where
  "do_sense cmd key asc ascq =
     (let (res, cmd) = scst_set_cmd_error_status cmd SAM_STAT_CHECK_CONDITION
      in if res \<noteq> 0 then Some (res, cmd)
         else let (res, cmd) = scst_alloc_sense cmd
              in if res \<noteq> 0 then Some (res, cmd)
                 else do {
                   cmd \<leftarrow> cmd_put_sense cmd (scst_get_cmd_dev_d_sense cmd) key asc ascq;
                   Some (res, cmd) })"

section \<open>A logical unit that is not there\<close>

text \<open>The first entry of the command's scatter list, seen through
  \<^verbatim>\<open>sg_virt\<close>: the memory from its offset on.\<close>

definition sg_virt :: "sg_entry \<Rightarrow> byte list" where
  "sg_virt e = drop (sge_offset e) (sge_mem e)"

definition sg_virt_update :: "sg_entry \<Rightarrow> byte list \<Rightarrow> sg_entry" where
  "sg_virt_update e bs = e\<lparr>sge_mem := take (sge_offset e) (sge_mem e) @ bs\<rparr>"

definition scst_set_lun_not_supported_request_sense ::
  "scst_cmd \<Rightarrow> byte \<Rightarrow> byte \<Rightarrow> byte \<Rightarrow> (int \<times> scst_cmd) option" where
  "scst_set_lun_not_supported_request_sense cmd key asc ascq =
     (if cmd_status cmd \<noteq> 0 then Some (- EEXIST, cmd)
      else do {
        have \<leftarrow> (case cmd_sg cmd of None \<Rightarrow> Some False
                 | Some sg \<Rightarrow> do { e \<leftarrow> rd sg 0; scst_sense_valid (Some (sg_virt e)) });
        if have then Some (- EEXIST, cmd)
        else do {
          (failed, cmd) \<leftarrow> (case cmd_sg cmd of Some _ \<Rightarrow> Some (False, cmd)
             | None \<Rightarrow>
                 if tgt_i_data_buf_alloced cmd \<and> tgt_i_sg cmd \<noteq> None
                 then Some (False, cmd\<lparr>cmd_sg := tgt_i_sg cmd, sg_cnt := tgt_i_sg_cnt cmd\<rparr>)
                 else do {
                   b \<leftarrow> rd (cdb cmd) 4;
                   let cmd = (if bufflen cmd = 0 then cmd\<lparr>bufflen := ucast b\<rparr> else cmd);
                   (case env_sg_mem cmd of None \<Rightarrow> Some (True, cmd)
                    | Some sg \<Rightarrow> Some (False, cmd\<lparr>cmd_sg := Some sg, sg_cnt := length sg\<rparr>)) });
          if failed then Some (1, cmd)
          else do {
            sg \<leftarrow> cmd_sg cmd;
            e \<leftarrow> rd sg 0;
            b1 \<leftarrow> rd (cdb cmd) 1;
            (n, buf) \<leftarrow> scst_set_sense (sg_virt e) (sge_length e) (bit b1 0) key asc ascq;
            let cmd = cmd\<lparr>cmd_sg := Some (sg[0 := sg_virt_update e buf]),
                          data_direction := SCST_DATA_READ\<rparr>;
            cmd \<leftarrow> scst_set_resp_data_len cmd (of_nat n);
            Some (0, cmd\<lparr>completed := True, resid_possible := True\<rparr>) }}})"

definition scst_set_lun_not_supported_inquiry :: "scst_cmd \<Rightarrow> (int \<times> scst_cmd) option" where
  "scst_set_lun_not_supported_inquiry cmd =
     (if cmd_status cmd \<noteq> 0 then Some (- EEXIST, cmd)
      else do {
        (failed, cmd) \<leftarrow> (case cmd_sg cmd of Some _ \<Rightarrow> Some (False, cmd)
           | None \<Rightarrow> do {
               bs \<leftarrow> rd_range (cdb cmd) 3 2;
               let cmd = (if bufflen cmd = 0
                          then cmd\<lparr>bufflen := of_nat (min 36 (be_val bs))\<rparr> else cmd);
               if tgt_i_data_buf_alloced cmd \<and> tgt_i_sg cmd \<noteq> None
               then Some (False, cmd\<lparr>cmd_sg := tgt_i_sg cmd, sg_cnt := tgt_i_sg_cnt cmd\<rparr>)
               else (case env_sg_mem cmd of None \<Rightarrow> Some (True, cmd)
                     | Some sg \<Rightarrow> Some (False, cmd\<lparr>cmd_sg := Some sg, sg_cnt := length sg\<rparr>)) });
        if failed then Some (1, cmd)
        else do {
          sg \<leftarrow> cmd_sg cmd;
          e \<leftarrow> rd sg 0;
          let len = min 36 (sge_length e);
          buf \<leftarrow> wr_range 0 (replicate len 0) (sg_virt e);
          buf \<leftarrow> wr_range 0 [0x7F] buf;
          buf \<leftarrow> wr_range 2 [6] buf;
          buf \<leftarrow> wr_range 4 [of_int (int len - 4)] buf;
          let cmd = cmd\<lparr>cmd_sg := Some (sg[0 := sg_virt_update e buf]),
                        data_direction := SCST_DATA_READ\<rparr>;
          cmd \<leftarrow> scst_set_resp_data_len cmd (of_nat len);
          Some (0, cmd\<lparr>completed := True, resid_possible := True\<rparr>) }})"

definition scst_set_cmd_error :: "scst_cmd \<Rightarrow> byte \<Rightarrow> byte \<Rightarrow> byte \<Rightarrow> (int \<times> scst_cmd) option" where
  "scst_set_cmd_error cmd key asc ascq =
     (if key = ILLEGAL_REQUEST \<and> asc = 0x25 \<and> ascq = 0 then do {
        op \<leftarrow> rd (cdb cmd) 0;
        (if op = REQUEST_SENSE then do {
           (res, cmd) \<leftarrow> scst_set_lun_not_supported_request_sense cmd key asc ascq;
           if res > 0 then do_sense cmd key asc ascq else Some (res, cmd) }
         else if op = INQUIRY then do {
           (res, cmd) \<leftarrow> scst_set_lun_not_supported_inquiry cmd;
           if res > 0 then do_sense cmd key asc ascq else Some (res, cmd) }
         else do_sense cmd key asc ascq) }
      else do_sense cmd key asc ascq)"

section \<open>Further error reports\<close>

definition scst_set_cmd_error_and_inf ::
  "scst_cmd \<Rightarrow> byte \<Rightarrow> byte \<Rightarrow> byte \<Rightarrow> 64 word \<Rightarrow> (int \<times> scst_cmd) option" where
  "scst_set_cmd_error_and_inf cmd key asc ascq information = do {
     (res, cmd) \<leftarrow> scst_set_cmd_error cmd key asc ascq;
     if res \<noteq> 0 then Some (res, cmd)
     else do {
       s \<leftarrow> cmd_sense cmd;
       b \<leftarrow> rd s 0;
       (if b AND 0x7f = 0x70 then do {
          s \<leftarrow> wr_range 0 [b OR 0x80] s;
          s \<leftarrow> wr_range 3 (be_bytes 4 (unat information)) s;
          Some (res, cmd\<lparr>cmd_sense := Some s\<rparr>) }
        else if b AND 0x7f = 0x72 then do {
          s \<leftarrow> wr_range 7 [12] s;
          s \<leftarrow> wr_range 8 [0, 10, 0x80] s;
          s \<leftarrow> wr_range 12 (be_bytes 8 (unat information)) s;
          Some (res, cmd\<lparr>cmd_sense := Some s\<rparr>) }
        else None) }}"

text \<open>A bit offset is given with \<^verbatim>\<open>SCST_INVAL_FIELD_BIT_OFFS_VALID\<close> or left
  out.  The three bytes of the field pointer are those
  \<^verbatim>\<open>scst_fill_field_pointer_sense\<close> stores.\<close>

definition SCST_INVAL_FIELD_BIT_OFFS_VALID :: nat where
  [flag_defs]: "SCST_INVAL_FIELD_BIT_OFFS_VALID = 0x8000"

definition scst_fill_field_pointer_sense :: "nat \<Rightarrow> nat \<Rightarrow> bool \<Rightarrow> byte list" where
  "scst_fill_field_pointer_sense field_offs bit_offs is_cdb =
     (let b = 0x80;
          b = (if is_cdb then b OR 0x40 else b);
          b = (if bit_offs AND SCST_INVAL_FIELD_BIT_OFFS_VALID \<noteq> 0
               then b OR (8 OR of_nat (bit_offs AND 7)) else b)
      in b # be_bytes 2 field_offs)"

definition invalid_field_descr :: "byte \<Rightarrow> byte list \<Rightarrow> byte list \<Rightarrow> byte list option" where
  "invalid_field_descr asc fp s = do {
     s \<leftarrow> wr_range 0 [0x72, ILLEGAL_REQUEST, asc, 0] s;
     s \<leftarrow> wr_range 7 [8, 2, 6] s;
     wr_range 12 fp s }"

definition invalid_field_fix :: "byte \<Rightarrow> byte list \<Rightarrow> byte list \<Rightarrow> byte list option" where
  "invalid_field_fix asc fp s = do {
     s \<leftarrow> wr_range 0 [0x70] s;
     s \<leftarrow> wr_range 2 [ILLEGAL_REQUEST] s;
     s \<leftarrow> wr_range 7 [0x0a] s;
     s \<leftarrow> wr_range 12 [asc, 0] s;
     wr_range 15 fp s }"

definition scst_set_invalid_field_in ::
  "scst_cmd \<Rightarrow> nat \<Rightarrow> nat \<Rightarrow> bool \<Rightarrow> (int \<times> scst_cmd) option" where
  "scst_set_invalid_field_in cmd field_offs bit_offs is_cdb =
     (let asc = (if is_cdb then 0x24 else 0x26);
          dsense = scst_get_cmd_dev_d_sense cmd;
          (res, cmd) = scst_set_cmd_error_status cmd SAM_STAT_CHECK_CONDITION
      in if res \<noteq> 0 then Some (res, cmd)
         else let (res, cmd) = scst_alloc_sense cmd
              in if res \<noteq> 0 then Some (res, cmd)
                 else if sense_buflen cmd < 18 then None
                 else do {
                   s \<leftarrow> cmd_sense cmd;
                   let fp = scst_fill_field_pointer_sense field_offs bit_offs is_cdb;
                   (if dsense then do {
                      s \<leftarrow> invalid_field_descr asc fp s;
                      Some (res, cmd\<lparr>cmd_sense := Some s, sense_valid_len := 16\<rparr>) }
                    else do {
                      s \<leftarrow> invalid_field_fix asc fp s;
                      Some (res, cmd\<lparr>cmd_sense := Some s, sense_valid_len := 18\<rparr>) }) })"

definition scst_set_invalid_field_in_cdb :: "scst_cmd \<Rightarrow> nat \<Rightarrow> nat \<Rightarrow> (int \<times> scst_cmd) option" where
  "scst_set_invalid_field_in_cdb cmd field_offs bit_offs =
     scst_set_invalid_field_in cmd field_offs bit_offs True"

definition scst_set_invalid_field_in_parm_list ::
  "scst_cmd \<Rightarrow> nat \<Rightarrow> nat \<Rightarrow> (int \<times> scst_cmd) option" where
  "scst_set_invalid_field_in_parm_list cmd field_offs bit_offs =
     scst_set_invalid_field_in cmd field_offs bit_offs False"

definition scst_check_convert_sense :: "scst_cmd \<Rightarrow> scst_cmd option" where
  "scst_check_convert_sense cmd =
     (case cmd_sense cmd of None \<Rightarrow> Some cmd
      | Some s \<Rightarrow>
          if cmd_status cmd \<noteq> SAM_STAT_CHECK_CONDITION then Some cmd
          else do {
            let dsense = scst_get_cmd_dev_d_sense cmd;
            rc \<leftarrow> scst_sense_response_code s;
            to_descr \<leftarrow> (if dsense \<and> (rc = 0x70 \<or> rc = 0x71) then do {
                 key \<leftarrow> rd s 2; asc \<leftarrow> rd s 12; ascq \<leftarrow> rd s 13;
                 Some (\<not> (key = UNIT_ATTENTION \<and> (asc = 0x29 \<or> asc = 0x2A \<and> ascq = 1))) }
               else Some False);
            (if to_descr then
               if sense_valid_len cmd < 18 then Some cmd
               else do {
                 key \<leftarrow> rd s 2; asc \<leftarrow> rd s 12; ascq \<leftarrow> rd s 13;
                 cmd_put_sense cmd dsense key asc ascq }
             else if \<not> dsense \<and> (rc = 0x72 \<or> rc = 0x73) then
               if sense_buflen cmd < 18 \<or> sense_valid_len cmd < 8 then Some cmd
               else do {
                 key \<leftarrow> rd s 1; asc \<leftarrow> rd s 2; ascq \<leftarrow> rd s 3;
                 cmd_put_sense cmd dsense key asc ascq }
             else Some cmd) })"

definition scst_set_cmd_error_sense :: "scst_cmd \<Rightarrow> byte list \<Rightarrow> nat \<Rightarrow> (int \<times> scst_cmd) option" where
  "scst_set_cmd_error_sense cmd sense len =
     (let (res, cmd) = scst_set_cmd_error_status cmd SAM_STAT_CHECK_CONDITION
      in if res \<noteq> 0 then Some (res, cmd) else scst_alloc_set_sense cmd sense len)"

text \<open>\<^verbatim>\<open>scst_set_busy\<close>: \<open>count\<close> is the number of commands of the
  session and \<open>ready\<close> whether the session is initialised.\<close>

definition scst_set_busy :: "int \<Rightarrow> bool \<Rightarrow> scst_cmd \<Rightarrow> scst_cmd" where
  "scst_set_busy count ready cmd =
     (if count \<le> 1 \<or> \<not> ready then snd (scst_set_cmd_error_status cmd SAM_STAT_BUSY)
      else snd (scst_set_cmd_error_status cmd SAM_STAT_TASK_SET_FULL))"

section \<open>Specification\<close>

text \<open>The sense buffer of a command, when there is one, has the size the command records and
  is large enough for both formats.\<close>

definition cmd_sense_ok :: "scst_cmd \<Rightarrow> bool" where
  "cmd_sense_ok cmd = (case cmd_sense cmd of None \<Rightarrow> True
     | Some s \<Rightarrow> length s = sense_buflen cmd \<and> 18 \<le> sense_buflen cmd)"

text \<open>What an initiator reads out of sense data: key, additional code and qualifier.\<close>

definition sense_info :: "byte list \<Rightarrow> (byte \<times> byte \<times> byte) option" where
  "sense_info s = do {
     rc \<leftarrow> scst_sense_response_code s;
     (if rc = 0x70 \<or> rc = 0x71 then do {
        k \<leftarrow> rd s 2; a \<leftarrow> rd s 12; q \<leftarrow> rd s 13; Some (k, a, q) }
      else if rc = 0x72 \<or> rc = 0x73 then do {
        k \<leftarrow> rd s 1; a \<leftarrow> rd s 2; q \<leftarrow> rd s 3; Some (k, a, q) }
      else None) }"

text \<open>An initiator that was told of an error: the status is set and the command is complete.\<close>

definition error_reported :: "scst_cmd \<Rightarrow> bool" where
  "error_reported cmd = (cmd_status cmd \<noteq> 0)"

text \<open>What every error report keeps of a command.\<close>

definition cmd_frame :: "scst_cmd \<Rightarrow> scst_cmd \<Rightarrow> bool" where
  "cmd_frame cmd cmd' = (cdb cmd' = cdb cmd \<and> cmd_dev cmd' = cmd_dev cmd \<and>
     env_sense_mem cmd' = env_sense_mem cmd \<and> cdb_len cmd' = cdb_len cmd \<and>
     cmd_naca cmd' = cmd_naca cmd \<and> (cmd_sense_ok cmd \<longrightarrow> cmd_sense_ok cmd') \<and>
     (cmd_status cmd \<noteq> 0 \<longrightarrow> cmd_status cmd' = cmd_status cmd))"

text \<open>The field pointer an initiator reads out of fixed or descriptor format sense data: the
  sense-key specific bytes as the command/data bit, the bit pointer and the byte pointer.\<close>

definition sense_field_pointer :: "byte list \<Rightarrow> (bool \<times> nat option \<times> nat) option" where
  "sense_field_pointer s = do {
     rc \<leftarrow> scst_sense_response_code s;
     let off = (if rc = 0x70 then 15 else 12);
     fp \<leftarrow> rd_range s off 3;
     if \<not> bit (fp ! 0) 7 then None
     else Some (bit (fp ! 0) 6, if bit (fp ! 0) 3 then Some (unat (fp ! 0 AND 7)) else None,
                be_val (drop 1 fp)) }"

text \<open>A command used as an example.\<close>

definition ex_cmd :: scst_cmd where
  "ex_cmd = \<lparr>cmd_state = SCST_CMD_STATE_PARSE, cmd_atomic = False, internal_cmd = False,
     preprocessing_only = False, has_tgt_dev = True, dh_data_buf_alloced = False,
     expected_values_set = False, expected_data_direction = SCST_DATA_UNKNOWN,
     expected_transfer_len_full = 0, expected_out_transfer_len = 0, write_len = 0,
     cdb = replicate 16 0, cdb_len = 0, lba_off = 0, lba_len = 0, len_off = 0, len_len = 0,
     op_flags = 0, op_name = [], data_direction = SCST_DATA_UNKNOWN, lba = 0, data_len = 0,
     bufflen = 0, out_bufflen = 0, resp_data_len = 0, timeout = 0, cmd_naca = False,
     cmd_linked = False, cmd_on_global_stpg_list = False, cmd_dif_actions = 0,
     tgt_dif_data_expected = False, cmd_corrupt_dif_tag = 0, cmd_status = 0, host_status = 0,
     is_send_status = False, resid_possible = False, completed = False,
     dbl_ua_orig_resp_data_len = 0, dbl_ua_orig_data_direction = SCST_DATA_UNKNOWN,
     cmd_sense = None, sense_buflen = 0, sense_valid_len = 0, cmd_sg = None, sg_cnt = 0,
     sg_buff_modified = False,
     orig_sg = \<lparr>orig_sg_cnt = 0, orig_sg_entry = 0, orig_entry_offs = 0, orig_entry_len = 0\<rparr>,
     dif_sg = None, dif_sg_cnt = 0, dif_sg_buff_modified = False,
     orig_dif_sg = \<lparr>orig_sg_cnt = 0, orig_sg_entry = 0, orig_entry_offs = 0, orig_entry_len = 0\<rparr>,
     tgt_i_data_buf_alloced = False, tgt_i_sg = None, tgt_i_sg_cnt = 0, cmd_dev = None,
     env_sense_mem = True, env_sg_mem = None\<rparr>"

section \<open>Sense data\<close>

lemma length_put_if [simp]: "length (put_if len i v xs) = length xs"
  by (simp add: put_if_def)

lemma put_if_Nil [simp]: "put_if len i v xs = [] \<longleftrightarrow> xs = []"
  by (simp add: put_if_def)

lemma nth_put_if [simp]:
  "i < length xs \<Longrightarrow> j < length xs \<Longrightarrow> i < len \<Longrightarrow>
   put_if len i v xs ! j = (if j = i then v else xs ! j)"
  by (simp add: put_if_def)

lemma scst_set_sense_layout:
  assumes "18 \<le> len" "len \<le> length buffer"
  obtains n buf where "scst_set_sense buffer len dsense key asc ascq = Some (n, buf)"
    "length buf = length buffer" "n \<le> len"
    "dsense \<and> \<not> sense_forces_fixed key asc ascq \<Longrightarrow>
       n = 8 \<and> buf ! 0 = 0x72 \<and> buf ! 1 = key \<and> buf ! 2 = asc \<and> buf ! 3 = ascq"
    "\<not> (dsense \<and> \<not> sense_forces_fixed key asc ascq) \<Longrightarrow>
       n = 18 \<and> buf ! 0 = 0x70 \<and> buf ! 2 = key \<and> buf ! 12 = asc \<and> buf ! 13 = ascq"
proof -
  have ne: "buffer \<noteq> []" "length buffer - len + len = length buffer" using assms by auto
  have ov: "overwrite 0 (replicate len 0) buffer \<noteq> []" using assms by (auto simp: overwrite_def)
  show ?thesis
proof (cases "dsense \<and> \<not> sense_forces_fixed key asc ascq")
  case True
  then show ?thesis
    using that[of 8 "put_if len 3 ascq (put_if len 2 asc (put_if len 1 key
            ((overwrite 0 (replicate len 0) buffer)[0 := 0x72])))"] assms ne ov
    by (simp add: scst_set_sense_def Let_def)
next
  case False
  then show ?thesis
    using that[of 18 "put_if len 13 ascq (put_if len 12 asc (put_if len 7 0x0a
            (put_if len 2 key ((overwrite 0 (replicate len 0) buffer)[0 := 0x70]))))"] assms ne ov
    by (auto simp add: scst_set_sense_def Let_def)
qed
qed

lemma scst_set_sense_info:
  assumes "18 \<le> len" "len \<le> length buffer"
  obtains n buf where "scst_set_sense buffer len dsense key asc ascq = Some (n, buf)"
    "length buf = length buffer" "n \<le> len" "sense_info buf = Some (key, asc, ascq)"
    "\<And>k a q. scst_analyze_sense buf n SCST_SENSE_ALL_VALID k a q
       = Some (k = key \<and> a = asc \<and> q = ascq)"
proof (rule scst_set_sense_layout[OF assms, of dsense key asc ascq])
  fix n buf
  assume *: "scst_set_sense buffer len dsense key asc ascq = Some (n, buf)"
    "length buf = length buffer" "n \<le> len"
    "dsense \<and> \<not> sense_forces_fixed key asc ascq \<Longrightarrow>
       n = 8 \<and> buf ! 0 = 0x72 \<and> buf ! 1 = key \<and> buf ! 2 = asc \<and> buf ! 3 = ascq"
    "\<not> (dsense \<and> \<not> sense_forces_fixed key asc ascq) \<Longrightarrow>
       n = 18 \<and> buf ! 0 = 0x70 \<and> buf ! 2 = key \<and> buf ! 12 = asc \<and> buf ! 13 = ascq"
  have ne: "buf \<noteq> []" "buffer \<noteq> []" using * assms by auto
  have bits: "bit (7::nat) 0" "bit (7::nat) (Suc 0)" "bit (7::nat) 2"
    by (simp_all add: bit_iff_odd)
  have "sense_info buf = Some (key, asc, ascq)"
    using * assms ne by (cases "dsense \<and> \<not> sense_forces_fixed key asc ascq")
      (auto simp: sense_info_def scst_sense_response_code_def mem_simps)
  moreover have "scst_analyze_sense buf n SCST_SENSE_ALL_VALID k a q
       = Some (k = key \<and> a = asc \<and> q = ascq)" for k a q
    using * assms bits ne by (cases "dsense \<and> \<not> sense_forces_fixed key asc ascq")
      (auto simp: scst_analyze_sense_def scst_sense_response_code_def sense_field_ok_def
        SCST_SENSE_ALL_VALID_def Let_def mem_simps)
  ultimately show ?thesis using * by (intro that) auto
qed

section \<open>Error reports\<close>

lemma scst_alloc_sense_cases:
  assumes "cmd_sense_ok cmd" "scst_alloc_sense cmd = (res, cmd')"
  shows "res = - ENOMEM \<and> cmd' = cmd \<and> cmd_sense cmd = None \<and> \<not> env_sense_mem cmd \<or>
    res = 0 \<and> cmd_sense cmd' = Some (replicate (sense_buflen cmd') 0) \<and> 18 \<le> sense_buflen cmd'"
  using assms
  by (auto simp: scst_alloc_sense_def cmd_sense_ok_def overwrite_def SCST_SENSE_BUFFERSIZE_def
      split: option.splits if_splits)

lemma scst_set_cmd_error_status_cases:
  assumes "scst_set_cmd_error_status cmd st = (res, cmd')"
  obtains "cmd_status cmd \<noteq> 0" "res = - EEXIST" "cmd' = cmd"
  | "cmd_status cmd = 0" "res = 0" "cmd_status cmd' = st" "cmd_frame cmd cmd'"
    "cmd_sense cmd' = cmd_sense cmd" "sense_buflen cmd' = sense_buflen cmd"
  using assms by (cases "cmd_sense cmd")
    (auto simp: scst_set_cmd_error_status_def cmd_frame_def cmd_sense_ok_def split: if_splits)

lemma cmd_frame_refl [simp]: "cmd_frame cmd cmd"
  by (simp add: cmd_frame_def)

lemma cmd_frame_trans: "cmd_frame a b \<Longrightarrow> cmd_frame b c \<Longrightarrow> cmd_frame a c"
  by (auto simp: cmd_frame_def)

lemma cmd_frame_alloc:
  assumes "cmd_sense_ok cmd" "scst_alloc_sense cmd = (res, cmd')"
  shows "cmd_frame cmd cmd'" "cmd_status cmd' = cmd_status cmd"
  using assms
  by (auto simp: cmd_frame_def cmd_sense_ok_def scst_alloc_sense_def SCST_SENSE_BUFFERSIZE_def
      split: option.splits if_splits)

lemma cmd_frame_put:
  assumes "cmd_sense_ok cmd" "cmd_put_sense cmd d key asc ascq = Some cmd'"
  shows "cmd_frame cmd cmd'" "cmd_status cmd' = cmd_status cmd"
  using assms
  by (auto simp: cmd_frame_def cmd_put_sense_def cmd_sense_ok_def bind_eq_Some_conv
      scst_set_sense_def Let_def split: if_splits)

text \<open>Every report either finds an error already reported and changes nothing, or records
  the status and, unless the allocation fails, the sense data.\<close>

lemma do_sense_report:
  assumes "cmd_sense_ok cmd"
  obtains "cmd_status cmd \<noteq> 0" "do_sense cmd key asc ascq = Some (- EEXIST, cmd)"
  | cmd' where "cmd_status cmd = 0" "do_sense cmd key asc ascq = Some (- ENOMEM, cmd')"
    "cmd_frame cmd cmd'" "cmd_status cmd' = SAM_STAT_CHECK_CONDITION" "\<not> env_sense_mem cmd"
  | cmd' s where "cmd_status cmd = 0" "do_sense cmd key asc ascq = Some (0, cmd')"
    "cmd_frame cmd cmd'" "cmd_status cmd' = SAM_STAT_CHECK_CONDITION"
    "cmd_sense cmd' = Some s" "sense_info s = Some (key, asc, ascq)"
proof -
  obtain r1 c1 where 1: "scst_set_cmd_error_status cmd SAM_STAT_CHECK_CONDITION = (r1, c1)"
    by fastforce
  obtain r2 c2 where 2: "scst_alloc_sense c1 = (r2, c2)" by fastforce
  show ?thesis
  proof (rule scst_set_cmd_error_status_cases[OF 1])
    assume "cmd_status cmd \<noteq> 0" "r1 = - EEXIST" "c1 = cmd"
    then show ?thesis using that(1) 1 by (simp add: do_sense_def)
  next
    assume c1: "cmd_status cmd = 0" "r1 = 0" "cmd_status c1 = SAM_STAT_CHECK_CONDITION"
      "cmd_frame cmd c1" "cmd_sense c1 = cmd_sense cmd" "sense_buflen c1 = sense_buflen cmd"
    then have ok: "cmd_sense_ok c1" using assms by (simp add: cmd_frame_def)
    note fr = cmd_frame_alloc[OF ok 2]
    from scst_alloc_sense_cases[OF ok 2] show ?thesis
    proof (elim disjE conjE)
      assume "r2 = - ENOMEM" "c2 = c1" "\<not> env_sense_mem c1"
      then show ?thesis
        using that(2)[of c1] 1 2 c1 by (simp add: do_sense_def cmd_frame_def)
    next
      assume r2: "r2 = 0" "cmd_sense c2 = Some (replicate (sense_buflen c2) 0)"
        "18 \<le> sense_buflen c2"
      obtain n buf where buf: "scst_set_sense (replicate (sense_buflen c2) 0) (sense_buflen c2)
          (scst_get_cmd_dev_d_sense c2) key asc ascq = Some (n, buf)"
        "sense_info buf = Some (key, asc, ascq)"
        using r2(3) by (metis length_replicate order_refl scst_set_sense_info)
      let ?c3 = "c2\<lparr>cmd_sense := Some buf, sense_valid_len := n\<rparr>"
      have put: "cmd_put_sense c2 (scst_get_cmd_dev_d_sense c2) key asc ascq = Some ?c3"
        using buf r2 by (simp add: cmd_put_sense_def)
      have ok2: "cmd_sense_ok c2" using fr ok by (simp add: cmd_frame_def)
      have "cmd_frame cmd ?c3"
        using cmd_frame_trans[OF cmd_frame_trans[OF c1(4) fr(1)] cmd_frame_put(1)[OF ok2 put]] .
      then show ?thesis
        using that(3)[of ?c3 buf] put buf 1 2 c1 r2 fr(2) by (simp add: do_sense_def)
    qed
  qed
qed

lemma scst_set_cmd_error_do_sense:
  "asc \<noteq> 0x25 \<Longrightarrow> scst_set_cmd_error cmd key asc ascq = do_sense cmd key asc ascq"
  by (simp add: scst_set_cmd_error_def)

lemma scst_fill_field_pointer_sense_length [simp]:
  "length (scst_fill_field_pointer_sense f b c) = 3"
  by (simp add: scst_fill_field_pointer_sense_def Let_def numeral_3_eq_3)

lemma wr_range_length: "wr_range off src xs = Some ys \<Longrightarrow> length ys = length xs"
  by (auto simp: wr_range_def split: if_splits)

text \<open>The two layouts of an invalid field report in a cleared buffer of \<open>n\<close> bytes.\<close>

lemma invalid_field_descriptor:
  assumes "18 \<le> n" "length fp = 3"
  obtains s where "invalid_field_descr asc fp (replicate n 0) = Some s"
    "length s = n" "sense_info s = Some (5, asc, 0)"
    "scst_sense_response_code s = Some 0x72" "rd_range s 12 3 = Some fp"
proof -
  let ?s1 = "overwrite 0 [0x72, 5, asc, 0] (replicate n (0 :: byte))"
  let ?s2 = "overwrite 7 [8, 2, 6] ?s1"
  let ?s3 = "overwrite 12 fp ?s2"
  have len: "length ?s1 = n" "length ?s2 = n" "length ?s3 = n" using assms by auto
  have nth: "?s3 ! 0 = 0x72" "?s3 ! 1 = 5" "?s3 ! 2 = asc" "?s3 ! 3 = 0"
    using assms len by (simp_all add: nth_overwrite)
  show ?thesis
  proof (rule that[of ?s3])
    show "rd_range ?s3 12 3 = Some fp"
      using rd_range_overwrite_same[of 12 fp ?s2] assms len by simp
  qed (use assms len nth in \<open>simp_all add: mem_simps sense_info_def scst_sense_response_code_def rd_def
      invalid_field_descr_def invalid_field_fix_def
      del: length_greater_0_conv\<close>)
qed

lemma invalid_field_fixed:
  assumes "18 \<le> n" "length fp = 3"
  obtains s where "invalid_field_fix asc fp (replicate n 0) = Some s"
    "length s = n" "sense_info s = Some (5, asc, 0)"
    "scst_sense_response_code s = Some 0x70" "rd_range s 15 3 = Some fp"
proof -
  let ?s1 = "overwrite 0 [0x70] (replicate n (0 :: byte))"
  let ?s2 = "overwrite 2 [5] ?s1"
  let ?s3 = "overwrite 7 [0x0a] ?s2"
  let ?s4 = "overwrite 12 [asc, 0] ?s3"
  let ?s5 = "overwrite 15 fp ?s4"
  have len: "length ?s1 = n" "length ?s2 = n" "length ?s3 = n" "length ?s4 = n" "length ?s5 = n"
    using assms by auto
  have nth: "?s5 ! 0 = 0x70" "?s5 ! 2 = 5" "?s5 ! 12 = asc" "?s5 ! 13 = 0"
    using assms len by (simp_all add: nth_overwrite)
  show ?thesis
  proof (rule that[of ?s5])
    show "rd_range ?s5 15 3 = Some fp"
      using rd_range_overwrite_same[of 15 fp ?s4] assms len by simp
  qed (use assms len nth in \<open>simp_all add: mem_simps sense_info_def scst_sense_response_code_def rd_def
      invalid_field_descr_def invalid_field_fix_def
      del: length_greater_0_conv\<close>)
qed

lemma scst_set_invalid_field_in_report:
  assumes "cmd_sense_ok cmd"
  obtains "cmd_status cmd \<noteq> 0" "scst_set_invalid_field_in cmd f b c = Some (- EEXIST, cmd)"
  | cmd' where "cmd_status cmd = 0" "scst_set_invalid_field_in cmd f b c = Some (- ENOMEM, cmd')"
    "cmd_frame cmd cmd'" "cmd_status cmd' = SAM_STAT_CHECK_CONDITION" "\<not> env_sense_mem cmd"
  | cmd' s where "cmd_status cmd = 0" "scst_set_invalid_field_in cmd f b c = Some (0, cmd')"
    "cmd_frame cmd cmd'" "cmd_status cmd' = SAM_STAT_CHECK_CONDITION"
    "cmd_sense cmd' = Some s" "sense_info s = Some (5, if c then 0x24 else 0x26, 0)"
    "rd_range s (if scst_sense_response_code s = Some 0x70 then 15 else 12) 3
       = Some (scst_fill_field_pointer_sense f b c)"
    "scst_sense_response_code s = Some (if scst_get_cmd_dev_d_sense cmd then 0x72 else 0x70)"
proof -
  obtain r1 c1 where 1: "scst_set_cmd_error_status cmd SAM_STAT_CHECK_CONDITION = (r1, c1)"
    by fastforce
  obtain r2 c2 where 2: "scst_alloc_sense c1 = (r2, c2)" by fastforce
  note unfold = scst_set_invalid_field_in_def Let_def 1 2 split_conv
  show ?thesis
  proof (rule scst_set_cmd_error_status_cases[OF 1])
    assume "cmd_status cmd \<noteq> 0" "r1 = - EEXIST" "c1 = cmd"
    then show ?thesis using that(1) 1 by (simp add: unfold)
  next
    assume c1: "cmd_status cmd = 0" "r1 = 0" "cmd_status c1 = SAM_STAT_CHECK_CONDITION"
      "cmd_frame cmd c1" "cmd_sense c1 = cmd_sense cmd" "sense_buflen c1 = sense_buflen cmd"
    then have ok: "cmd_sense_ok c1" using assms by (simp add: cmd_frame_def)
    note fr = cmd_frame_alloc[OF ok 2]
    from scst_alloc_sense_cases[OF ok 2] show ?thesis
    proof (elim disjE conjE)
      assume "r2 = - ENOMEM" "c2 = c1" "\<not> env_sense_mem c1"
      then show ?thesis
        using that(2)[of c1] c1 by (simp add: unfold cmd_frame_def)
    next
      assume r2: "r2 = 0" "cmd_sense c2 = Some (replicate (sense_buflen c2) 0)"
        "18 \<le> sense_buflen c2"
      let ?fp = "scst_fill_field_pointer_sense f b c"
      have fr2: "cmd_frame cmd (c2\<lparr>cmd_sense := Some s, sense_valid_len := n\<rparr>)"
        if "length s = sense_buflen c2" for s n
        using cmd_frame_trans[OF c1(4) fr(1)] that r2 by (auto simp: cmd_frame_def cmd_sense_ok_def)
      show ?thesis
      proof (cases "scst_get_cmd_dev_d_sense cmd")
        case True
        obtain s where s: "invalid_field_descr (if c then 0x24 else 0x26) ?fp
              (replicate (sense_buflen c2) 0) = Some s"
          "length s = sense_buflen c2" "sense_info s = Some (5, if c then 0x24 else 0x26, 0)"
          "scst_sense_response_code s = Some 0x72" "rd_range s 12 3 = Some ?fp"
          by (rule invalid_field_descriptor[OF r2(3) scst_fill_field_pointer_sense_length[of f b c],
                of "if c then 0x24 else 0x26"]) blast
        then show ?thesis
          using that(3)[of "c2\<lparr>cmd_sense := Some s, sense_valid_len := 16\<rparr>" s] True r2 c1 fr fr2[of s 16]
          by (simp add: unfold)
      next
        case False
        obtain s where s: "invalid_field_fix (if c then 0x24 else 0x26) ?fp
              (replicate (sense_buflen c2) 0) = Some s"
          "length s = sense_buflen c2" "sense_info s = Some (5, if c then 0x24 else 0x26, 0)"
          "scst_sense_response_code s = Some 0x70" "rd_range s 15 3 = Some ?fp"
          by (rule invalid_field_fixed[OF r2(3) scst_fill_field_pointer_sense_length[of f b c],
                of "if c then 0x24 else 0x26"]) blast
        then show ?thesis
          using that(3)[of "c2\<lparr>cmd_sense := Some s, sense_valid_len := 18\<rparr>" s] False r2 c1 fr fr2[of s 18]
          by (simp add: unfold)
      qed
    qed
  qed
qed

text \<open>What the parsers need of an error report: it completes, keeps the command's data and
  leaves a status.\<close>

lemma error_reports:
  assumes "cmd_sense_ok cmd"
  shows "\<exists>res cmd'. scst_set_invalid_field_in_cdb cmd f b = Some (res, cmd') \<and>
           cmd_frame cmd cmd' \<and> cmd_status cmd' \<noteq> 0"
    and "\<exists>res cmd'. scst_set_invalid_field_in_parm_list cmd f b = Some (res, cmd') \<and>
           cmd_frame cmd cmd' \<and> cmd_status cmd' \<noteq> 0"
    and "asc \<noteq> 0x25 \<Longrightarrow> \<exists>res cmd'. scst_set_cmd_error cmd key asc ascq = Some (res, cmd') \<and>
           cmd_frame cmd cmd' \<and> cmd_status cmd' \<noteq> 0"
proof -
  have st: "SAM_STAT_CHECK_CONDITION \<noteq> 0" by (simp add: SAM_STAT_CHECK_CONDITION_def)
  have *: "\<exists>res cmd'. scst_set_invalid_field_in cmd f b c = Some (res, cmd') \<and>
           cmd_frame cmd cmd' \<and> cmd_status cmd' \<noteq> 0" for c
    by (rule scst_set_invalid_field_in_report[OF assms, of f b c]) (use st in auto)
  from *[of True] *[of False]
  show "\<exists>res cmd'. scst_set_invalid_field_in_cdb cmd f b = Some (res, cmd') \<and>
           cmd_frame cmd cmd' \<and> cmd_status cmd' \<noteq> 0"
    and "\<exists>res cmd'. scst_set_invalid_field_in_parm_list cmd f b = Some (res, cmd') \<and>
           cmd_frame cmd cmd' \<and> cmd_status cmd' \<noteq> 0"
    by (simp_all add: scst_set_invalid_field_in_cdb_def scst_set_invalid_field_in_parm_list_def)
  show "\<exists>res cmd'. scst_set_cmd_error cmd key asc ascq = Some (res, cmd') \<and>
           cmd_frame cmd cmd' \<and> cmd_status cmd' \<noteq> 0" if "asc \<noteq> 0x25"
    unfolding scst_set_cmd_error_do_sense[OF that]
    by (rule do_sense_report[OF assms, of key asc ascq]) (use st in auto)
qed

lemma cmd_put_sense_info:
  assumes "cmd_sense_ok cmd" "cmd_sense cmd = Some s"
  shows "\<exists>cmd' s'. cmd_put_sense cmd d key asc ascq = Some cmd' \<and> cmd_frame cmd cmd' \<and>
      cmd_sense cmd' = Some s' \<and> sense_info s' = Some (key, asc, ascq) \<and>
      scst_sense_response_code s'
        = Some (if d \<and> \<not> sense_forces_fixed key asc ascq then 0x72 else 0x70)"
proof -
  have len: "length s = sense_buflen cmd" "18 \<le> sense_buflen cmd"
    using assms by (auto simp: cmd_sense_ok_def)
  obtain n buf where buf: "scst_set_sense s (sense_buflen cmd) d key asc ascq = Some (n, buf)"
    "length buf = length s" "sense_info buf = Some (key, asc, ascq)"
    by (rule scst_set_sense_info[of "sense_buflen cmd" s d key asc ascq]) (use len in auto)
  have "buf ! 0 = (if d \<and> \<not> sense_forces_fixed key asc ascq then 0x72 else 0x70)"
    by (rule scst_set_sense_layout[of "sense_buflen cmd" s d key asc ascq]) (use len buf(1) in auto)
  then have "scst_sense_response_code buf
      = Some (if d \<and> \<not> sense_forces_fixed key asc ascq then 0x72 else 0x70)"
    using buf(2) len by (auto simp: scst_sense_response_code_def rd_def)
  moreover have "cmd_put_sense cmd d key asc ascq
      = Some (cmd\<lparr>cmd_sense := Some buf, sense_valid_len := n\<rparr>)"
    using buf assms(2) by (simp add: cmd_put_sense_def)
  ultimately show ?thesis
    using buf(3) cmd_frame_put(1)[OF assms(1)] by fastforce
qed

lemma and_7_cases: "(b :: nat) AND 7 \<in> {0, 1, 2, 3, 4, 5, 6, 7}"
proof -
  have "b AND 7 = b mod 8"
    using and_nat_unfold take_bit_eq_mask[of 3 b] by (simp add: take_bit_eq_mod mask_eq_exp_minus_1)
  then have "b AND 7 < 8" by simp
  then show ?thesis by auto
qed

lemma fill_field_pointer_decodes:
  assumes "f < 65536"
  shows "let fp = scst_fill_field_pointer_sense f b c in
     bit (fp ! 0) 7 \<and> bit (fp ! 0) 6 = c \<and>
     bit (fp ! 0) 3 = (b AND SCST_INVAL_FIELD_BIT_OFFS_VALID \<noteq> 0) \<and>
     (b AND SCST_INVAL_FIELD_BIT_OFFS_VALID \<noteq> 0 \<longrightarrow> unat (fp ! 0 AND 7) = b AND 7) \<and>
     be_val (drop 1 fp) = f"
proof -
  have "be_val (be_bytes 2 f) = f" using assms by (simp add: be_val_be_bytes)
  moreover have "bit (h :: byte) 7 \<and> bit h 6 = c \<and> bit h 3 = v \<and> (v \<longrightarrow> unat (h AND 7) = k)"
    if "h = (let b = 0x80; b = (if c then b OR 0x40 else b) in if v then b OR (8 OR of_nat k) else b)"
      "k \<in> {0, 1, 2, 3, 4, 5, 6, 7}" for h v k
    using that by (cases c; cases v) (auto simp: Let_def bit_simps bit_numeral_rec)
  from this[OF _ and_7_cases, of _ "b AND SCST_INVAL_FIELD_BIT_OFFS_VALID \<noteq> 0" b] calculation
  show ?thesis by (simp add: scst_fill_field_pointer_sense_def Let_def)
qed

section \<open>Properties\<close>

text \<open>
  C13.  Sense data written into a buffer of at least 18 bytes is read back: the key and both
  codes are those given, whatever format the device asks for, and
  \<^verbatim>\<open>scst_analyze_sense\<close> on the reported length accepts exactly these codes.
\<close>

theorem scst_set_sense_analyzed:
  assumes "18 \<le> len" "len \<le> length buffer"
  shows "\<exists>n buf. scst_set_sense buffer len dsense key asc ascq = Some (n, buf) \<and> n \<le> len \<and>
           length buf = length buffer \<and> sense_info buf = Some (key, asc, ascq) \<and>
           (\<forall>k a q. scst_analyze_sense buf n SCST_SENSE_ALL_VALID k a q
              = Some (k = key \<and> a = asc \<and> q = ascq))"
  by (rule scst_set_sense_info[OF assms, of dsense key asc ascq]) blast

theorem scst_set_sense_analyzed_witness:
  "\<exists>n buf. scst_set_sense (replicate 20 9) 18 True 6 0x29 0 = Some (n, buf) \<and>
     sense_info buf = Some (6, 0x29, 0)"
  using scst_set_sense_analyzed[of 18 "replicate 20 9" True 6 "0x29" 0] by auto



text \<open>
  C15.  Reporting an invalid field of a command that has no error yet: with a sense buffer at
  hand the report succeeds, the sense data is ILLEGAL REQUEST with the code for the command
  block or the parameter list, in the format the device asks for, and the field pointer an
  initiator reads out of it names the byte and, if one was given, the bit.
\<close>

theorem invalid_field_pointer:
  assumes "cmd_sense_ok cmd" "cmd_status cmd = 0" "env_sense_mem cmd" "f < 65536"
  shows "\<exists>cmd' s. scst_set_invalid_field_in cmd f b c = Some (0, cmd') \<and>
           cmd_status cmd' = SAM_STAT_CHECK_CONDITION \<and> cmd_sense cmd' = Some s \<and>
           sense_info s = Some (5, if c then 0x24 else 0x26, 0) \<and>
           scst_sense_response_code s
             = Some (if scst_get_cmd_dev_d_sense cmd then 0x72 else 0x70) \<and>
           sense_field_pointer s = Some (c, if b AND SCST_INVAL_FIELD_BIT_OFFS_VALID \<noteq> 0
                                            then Some (b AND 7) else None, f)"
proof (rule scst_set_invalid_field_in_report[OF assms(1), of f b c])
  fix cmd' s
  let ?fp = "scst_fill_field_pointer_sense f b c"
  assume *: "scst_set_invalid_field_in cmd f b c = Some (0, cmd')"
    "cmd_status cmd' = SAM_STAT_CHECK_CONDITION" "cmd_sense cmd' = Some s"
    "sense_info s = Some (5, if c then 0x24 else 0x26, 0)"
    "rd_range s (if scst_sense_response_code s = Some 0x70 then 15 else 12) 3 = Some ?fp"
    "scst_sense_response_code s = Some (if scst_get_cmd_dev_d_sense cmd then 0x72 else 0x70)"
  have "sense_field_pointer s = Some (c, if b AND SCST_INVAL_FIELD_BIT_OFFS_VALID \<noteq> 0
                                            then Some (b AND 7) else None, f)"
    using fill_field_pointer_decodes[OF assms(4), of b c] *(5,6)
    by (simp add: sense_field_pointer_def Let_def split: if_splits)
  with * show ?thesis by blast
qed (use assms in auto)

theorem invalid_field_pointer_witness:
  "\<exists>cmd' s. scst_set_invalid_field_in ex_cmd 2 0x8004 True = Some (0, cmd') \<and>
     cmd_sense cmd' = Some s \<and> sense_field_pointer s = Some (True, Some 4, 2)"
proof -
  have "(0x8004 :: nat) AND SCST_INVAL_FIELD_BIT_OFFS_VALID \<noteq> 0" "(0x8004 :: nat) AND 7 = 4"
    by (simp_all add: SCST_INVAL_FIELD_BIT_OFFS_VALID_def)
  then show ?thesis
    using invalid_field_pointer[of ex_cmd 2 "0x8004" True]
    by (auto simp: ex_cmd_def cmd_sense_ok_def)
qed



end
