(* ===== verification/Cdb_Table.thy ===== *)
theory Cdb_Table
  imports Scst_Cmd
begin

text \<open>
  The table of SCSI commands of \<^verbatim>\<open>scst_lib.c\<close> (lines 557 to 1668) and the
  table of 32-byte commands (lines 11301 to 11345), entry by entry.  The pointer to the
  routine that parses the command block is a constructor of \<open>cdb_info_fn\<close>; the
  routines themselves are in \<open>Cdb_Info\<close>.  The flag
  \<^verbatim>\<open>SCST_TEST_IO_IN_SIRQ_ALLOWED\<close> exists only in a debug configuration
  and is left out, as the default build does.
\<close>

datatype (plugins only: code extraction) cdb_info_fn =
    cdb_info_none
  | cdb_info_len_1
  | cdb_info_fmt
  | cdb_info_len_2
  | cdb_info_block_limit
  | cdb_info_lba_3_len_1_256_read
  | cdb_info_len_3
  | cdb_info_lba_3_len_1_256_write
  | cdb_info_lba_2_none
  | cdb_info_verify6
  | cdb_info_start_stop
  | cdb_info_prevent_allow_medium_removal
  | cdb_info_read_capacity
  | cdb_info_read_10
  | cdb_info_lba_4_len_2_wrprotect
  | cdb_info_lba_4_none
  | cdb_info_single
  | cdb_info_verify10
  | cdb_info_read_pos
  | cdb_info_lba_4_len_2
  | cdb_info_write_same10
  | cdb_info_bidi_lba_4_len_2
  | cdb_info_len_4
  | cdb_info_var_len
  | cdb_info_ext_copy
  | cdb_info_apt
  | cdb_info_read_16
  | cdb_info_compare_and_write
  | cdb_info_lba_8_len_4_wrprotect
  | cdb_info_verify16
  | cdb_info_lba_8_none
  | cdb_info_write_same16
  | cdb_info_serv_act_in
  | cdb_info_min
  | cdb_info_mo
  | cdb_info_lba_4_len_4_rdprotect
  | cdb_info_lba_4_len_4_wrprotect
  | cdb_info_verify12
  | cdb_info_len_3_read_elem_stat
  | cdb_info_len_10
  | cdb_info_lba_8_len_4_rdprotect32
  | cdb_info_verify32
  | cdb_info_lba_8_len_4_wrprotect32
  | cdb_info_write_same32

record scst_sdbops =
  ops :: byte
  devkey :: string
  info_lba_off :: nat
  info_lba_len :: nat
  info_len_off :: nat
  info_len_len :: nat
  info_data_direction :: scst_data_direction
  info_op_flags :: "32 word"
  info_op_name :: string
  get_cdb_info :: cdb_info_fn

definition scst_scsi_op_table_1 :: "scst_sdbops list" where
  "scst_scsi_op_table_1 = [
     scst_sdbops.make 0x00 ''MMMMMMMMMMMMMMMM'' 0 0 0 0 SCST_DATA_NONE
       (SCST_SMALL_TIMEOUT OR SCST_IMPLICIT_HQ OR SCST_REG_RESERVE_ALLOWED OR SCST_WRITE_EXCL_ALLOWED OR SCST_EXCL_ACCESS_ALLOWED) ''TEST UNIT READY'' cdb_info_none,
     scst_sdbops.make 0x01 '' M              '' 0 0 0 0 SCST_DATA_NONE
       (SCST_LONG_TIMEOUT OR SCST_WRITE_EXCL_ALLOWED) ''REWIND'' cdb_info_none,
     scst_sdbops.make 0x03 ''MMMMMMMMMMMMMMMM'' 0 0 4 1 SCST_DATA_READ
       (SCST_SMALL_TIMEOUT OR SCST_SKIP_UA OR SCST_LOCAL_CMD OR SCST_REG_RESERVE_ALLOWED OR SCST_WRITE_EXCL_ALLOWED OR SCST_EXCL_ACCESS_ALLOWED) ''REQUEST SENSE'' cdb_info_len_1,
     scst_sdbops.make 0x04 ''M    O O        '' 0 0 0 0 SCST_DATA_NONE
       (SCST_LONG_TIMEOUT OR SCST_WRITE_MEDIUM OR SCST_STRICTLY_SERIALIZED) ''FORMAT UNIT'' cdb_info_fmt,
     scst_sdbops.make 0x04 '' O              '' 0 0 3 0 SCST_DATA_WRITE
       (SCST_LONG_TIMEOUT OR SCST_WRITE_MEDIUM OR SCST_STRICTLY_SERIALIZED) ''FORMAT MEDIUM'' cdb_info_len_2,
     scst_sdbops.make 0x04 ''  O             '' 0 0 0 0 SCST_DATA_NONE
       (SCST_WRITE_MEDIUM OR SCST_STRICTLY_SERIALIZED) ''FORMAT'' cdb_info_none,
     scst_sdbops.make 0x05 ''VMVVVV  V       '' 0 0 0 0 SCST_DATA_READ
       (SCST_SMALL_TIMEOUT OR SCST_REG_RESERVE_ALLOWED OR SCST_WRITE_EXCL_ALLOWED OR SCST_EXCL_ACCESS_ALLOWED) ''READ BLOCK LIMITS'' cdb_info_block_limit,
     scst_sdbops.make 0x07 ''        O       '' 0 0 0 0 SCST_DATA_NONE
       (SCST_LONG_TIMEOUT) ''INITIALIZE ELEMENT STATUS'' cdb_info_none,
     scst_sdbops.make 0x07 ''OVV O  OV       '' 0 0 0 0 SCST_DATA_WRITE
       (SCST_WRITE_MEDIUM) ''REASSIGN BLOCKS'' cdb_info_none,
     scst_sdbops.make 0x08 ''O               '' 1 3 4 1 SCST_DATA_READ
       (SCST_TRANSFER_LEN_TYPE_FIXED OR SCST_WRITE_EXCL_ALLOWED) ''READ(6)'' cdb_info_lba_3_len_1_256_read,
     scst_sdbops.make 0x08 '' MV  O OV       '' 0 0 2 3 SCST_DATA_READ
       (SCST_TRANSFER_LEN_TYPE_FIXED OR SCST_WRITE_EXCL_ALLOWED) ''READ(6)'' cdb_info_len_3,
     scst_sdbops.make 0x08 ''         M      '' 0 0 2 3 SCST_DATA_READ
       (0) ''GET MESSAGE(6)'' cdb_info_len_3,
     scst_sdbops.make 0x08 ''    O           '' 0 0 2 3 SCST_DATA_READ
       (0) ''RECEIVE'' cdb_info_len_3,
     scst_sdbops.make 0x0A ''O               '' 1 3 4 1 SCST_DATA_WRITE
       (SCST_TRANSFER_LEN_TYPE_FIXED OR SCST_WRITE_MEDIUM) ''WRITE(6)'' cdb_info_lba_3_len_1_256_write,
     scst_sdbops.make 0x0A '' M  O  OV       '' 0 0 2 3 SCST_DATA_WRITE
       (SCST_TRANSFER_LEN_TYPE_FIXED OR SCST_WRITE_MEDIUM) ''WRITE(6)'' cdb_info_len_3,
     scst_sdbops.make 0x0A ''  M             '' 0 0 0 0 SCST_DATA_NONE
       (0) ''PRINT'' cdb_info_none,
     scst_sdbops.make 0x0A ''         M      '' 0 0 2 3 SCST_DATA_WRITE
       (0) ''SEND MESSAGE(6)'' cdb_info_len_3,
     scst_sdbops.make 0x0A ''    M           '' 0 0 2 3 SCST_DATA_WRITE
       (0) ''SEND(6)'' cdb_info_len_3,
     scst_sdbops.make 0x0B ''O   OO OV       '' 2 2 0 0 SCST_DATA_NONE
       (0) ''SEEK(6)'' cdb_info_lba_2_none,
     scst_sdbops.make 0x0B ''  O             '' 0 0 0 0 SCST_DATA_NONE
       (0) ''SLEW AND PRINT'' cdb_info_none,
     scst_sdbops.make 0x0C '' VVVVV  V       '' 0 0 0 0 SCST_DATA_NONE
       (SCST_LONG_TIMEOUT) ''SEEK BLOCK'' cdb_info_none,
     scst_sdbops.make 0x0D '' VVVVV  V       '' 0 0 0 0 SCST_DATA_NONE
       (SCST_LONG_TIMEOUT OR SCST_WRITE_MEDIUM) ''PARTITION'' cdb_info_none]"

definition scst_scsi_op_table_2 :: "scst_sdbops list" where
  "scst_scsi_op_table_2 = [
     scst_sdbops.make 0x0F '' OVVVV  V       '' 0 0 12 3 SCST_DATA_READ
       (SCST_TRANSFER_LEN_TYPE_FIXED OR SCST_WRITE_EXCL_ALLOWED) ''READ REVERSE'' cdb_info_len_3,
     scst_sdbops.make 0x10 '' M V V          '' 0 0 0 0 SCST_DATA_NONE
       (SCST_WRITE_MEDIUM) ''WRITE FILEMARKS(6)'' cdb_info_none,
     scst_sdbops.make 0x10 ''  O O           '' 0 0 0 0 SCST_DATA_NONE
       (0) ''SYNCHRONIZE BUFFER'' cdb_info_none,
     scst_sdbops.make 0x11 ''VMVVVV          '' 0 0 0 0 SCST_DATA_NONE
       (SCST_LONG_TIMEOUT OR SCST_WRITE_EXCL_ALLOWED) ''SPACE'' cdb_info_none,
     scst_sdbops.make 0x12 ''MMMMMMMMMMMMMMMM'' 0 0 3 2 SCST_DATA_READ
       (SCST_SMALL_TIMEOUT OR SCST_IMPLICIT_HQ OR SCST_SKIP_UA OR SCST_REG_RESERVE_ALLOWED OR SCST_WRITE_EXCL_ALLOWED OR SCST_EXCL_ACCESS_ALLOWED) ''INQUIRY'' cdb_info_len_2,
     scst_sdbops.make 0x13 '' O              '' 0 0 2 3 SCST_DATA_UNKNOWN
       (SCST_TRANSFER_LEN_TYPE_FIXED OR SCST_WRITE_EXCL_ALLOWED) ''VERIFY(6)'' cdb_info_verify6,
     scst_sdbops.make 0x14 '' OOVVV          '' 0 0 2 3 SCST_DATA_READ
       (SCST_TRANSFER_LEN_TYPE_FIXED OR SCST_WRITE_EXCL_ALLOWED) ''RECOVER BUFFERED DATA'' cdb_info_len_3,
     scst_sdbops.make 0x15 ''OMOOOOOOOOOOOOOO'' 0 0 4 1 SCST_DATA_WRITE
       (SCST_STRICTLY_SERIALIZED) ''MODE SELECT(6)'' cdb_info_len_1,
     scst_sdbops.make 0x16 ''MMMMMMMMMMMMMMMM'' 0 0 0 0 SCST_DATA_NONE
       (SCST_SMALL_TIMEOUT OR SCST_LOCAL_CMD OR SCST_SERIALIZED OR SCST_WRITE_EXCL_ALLOWED OR SCST_EXCL_ACCESS_ALLOWED OR SCST_SCSI_ATOMIC) ''RESERVE'' cdb_info_none,
     scst_sdbops.make 0x17 ''MMMMMMMMMMMMMMMM'' 0 0 0 0 SCST_DATA_NONE
       (SCST_SMALL_TIMEOUT OR SCST_LOCAL_CMD OR SCST_SERIALIZED OR SCST_REG_RESERVE_ALLOWED OR SCST_WRITE_EXCL_ALLOWED OR SCST_EXCL_ACCESS_ALLOWED) ''RELEASE'' cdb_info_none,
     scst_sdbops.make 0x19 '' MVVVV          '' 0 0 0 0 SCST_DATA_NONE
       (SCST_LONG_TIMEOUT OR SCST_WRITE_MEDIUM) ''ERASE'' cdb_info_none,
     scst_sdbops.make 0x1A ''OMOOOOOOOOOOOOOO'' 0 0 4 1 SCST_DATA_READ
       (SCST_SMALL_TIMEOUT OR SCST_WRITE_EXCL_ALLOWED) ''MODE SENSE(6)'' cdb_info_len_1,
     scst_sdbops.make 0x1B ''      O         '' 0 0 0 0 SCST_DATA_NONE
       (0) ''SCAN'' cdb_info_none,
     scst_sdbops.make 0x1B '' O              '' 0 0 0 0 SCST_DATA_NONE
       (SCST_LONG_TIMEOUT) ''LOAD UNLOAD'' cdb_info_none,
     scst_sdbops.make 0x1B ''  O             '' 0 0 0 0 SCST_DATA_NONE
       (0) ''STOP PRINT'' cdb_info_none,
     scst_sdbops.make 0x1B ''O   OO O    O   '' 0 0 0 0 SCST_DATA_NONE
       (SCST_LONG_TIMEOUT) ''START STOP UNIT'' cdb_info_start_stop,
     scst_sdbops.make 0x1C ''OOOOOOOOOOOOOOOO'' 0 0 3 2 SCST_DATA_READ
       (SCST_WRITE_EXCL_ALLOWED) ''RECEIVE DIAGNOSTIC RESULTS'' cdb_info_len_2,
     scst_sdbops.make 0x1D ''MMMMMMMMMMMMMMMM'' 0 0 3 2 SCST_DATA_WRITE
       (0) ''SEND DIAGNOSTIC'' cdb_info_len_2,
     scst_sdbops.make 0x1E ''OOOOOOOOOOOOOOOO'' 0 0 0 0 SCST_DATA_NONE
       (SCST_LONG_TIMEOUT) ''PREVENT ALLOW MEDIUM REMOVAL'' cdb_info_prevent_allow_medium_removal,
     scst_sdbops.make 0x1F ''            O   '' 0 0 0 0 SCST_DATA_NONE
       (0) ''PORT STATUS'' cdb_info_none,
     scst_sdbops.make 0x23 ''V   VV V        '' 0 0 7 2 SCST_DATA_READ
       (0) ''READ FORMAT CAPACITY'' cdb_info_len_2,
     scst_sdbops.make 0x24 ''    VVM         '' 0 0 6 3 SCST_DATA_WRITE
       (0) ''SET WINDOW'' cdb_info_len_3,
     scst_sdbops.make 0x25 ''M   MM M        '' 0 0 0 0 SCST_DATA_READ
       (SCST_IMPLICIT_HQ OR SCST_REG_RESERVE_ALLOWED OR SCST_WRITE_EXCL_ALLOWED OR SCST_EXCL_ACCESS_ALLOWED) ''READ CAPACITY'' cdb_info_read_capacity,
     scst_sdbops.make 0x25 ''      O         '' 0 0 6 3 SCST_DATA_READ
       (0) ''GET WINDOW'' cdb_info_len_3]"

definition scst_scsi_op_table_3 :: "scst_sdbops list" where
  "scst_scsi_op_table_3 = [
     scst_sdbops.make 0x28 ''M   MMMM        '' 2 4 7 2 SCST_DATA_READ
       (SCST_TRANSFER_LEN_TYPE_FIXED OR SCST_WRITE_EXCL_ALLOWED) ''READ(10)'' cdb_info_read_10,
     scst_sdbops.make 0x28 ''         O      '' 0 0 7 2 SCST_DATA_READ
       (0) ''GET MESSAGE(10)'' cdb_info_len_2,
     scst_sdbops.make 0x29 ''V   VV O        '' 0 0 8 1 SCST_DATA_READ
       (0) ''READ GENERATION'' cdb_info_len_1,
     scst_sdbops.make 0x2A ''O   MO M        '' 2 4 7 2 SCST_DATA_WRITE
       (SCST_TRANSFER_LEN_TYPE_FIXED OR SCST_WRITE_MEDIUM) ''WRITE(10)'' cdb_info_lba_4_len_2_wrprotect,
     scst_sdbops.make 0x2A ''         O      '' 0 0 7 2 SCST_DATA_WRITE
       (0) ''SEND MESSAGE(10)'' cdb_info_len_2,
     scst_sdbops.make 0x2A ''      O         '' 0 0 7 2 SCST_DATA_WRITE
       (0) ''SEND(10)'' cdb_info_len_2,
     scst_sdbops.make 0x2B '' O              '' 0 0 0 0 SCST_DATA_NONE
       (SCST_LONG_TIMEOUT OR SCST_WRITE_EXCL_ALLOWED) ''LOCATE'' cdb_info_none,
     scst_sdbops.make 0x2B ''        O       '' 0 0 0 0 SCST_DATA_NONE
       (SCST_LONG_TIMEOUT) ''POSITION TO ELEMENT'' cdb_info_none,
     scst_sdbops.make 0x2B ''O   OO O        '' 2 4 0 0 SCST_DATA_NONE
       (0) ''SEEK(10)'' cdb_info_lba_4_none,
     scst_sdbops.make 0x2C ''V    O O        '' 0 0 0 0 SCST_DATA_NONE
       (SCST_LONG_TIMEOUT OR SCST_WRITE_MEDIUM) ''ERASE(10)'' cdb_info_none,
     scst_sdbops.make 0x2D ''V   O  O        '' 0 0 0 0 SCST_DATA_READ
       (SCST_TRANSFER_LEN_TYPE_FIXED) ''READ UPDATED BLOCK'' cdb_info_single,
     scst_sdbops.make 0x2E ''O   OO O        '' 2 4 7 2 SCST_DATA_WRITE
       (SCST_TRANSFER_LEN_TYPE_FIXED OR SCST_WRITE_MEDIUM) ''WRITE AND VERIFY(10)'' cdb_info_lba_4_len_2_wrprotect,
     scst_sdbops.make 0x2F ''O   OO O        '' 2 4 7 2 SCST_DATA_UNKNOWN
       (SCST_TRANSFER_LEN_TYPE_FIXED OR SCST_WRITE_EXCL_ALLOWED) ''VERIFY(10)'' cdb_info_verify10,
     scst_sdbops.make 0x33 ''    OO O        '' 0 0 0 0 SCST_DATA_NONE
       (0) ''SET LIMITS(10)'' cdb_info_none,
     scst_sdbops.make 0x34 '' O              '' 0 0 7 2 SCST_DATA_READ
       (SCST_SMALL_TIMEOUT OR SCST_WRITE_EXCL_ALLOWED) ''READ POSITION'' cdb_info_read_pos,
     scst_sdbops.make 0x34 ''      O         '' 0 0 7 2 SCST_DATA_READ
       (0) ''GET DATA BUFFER STATUS'' cdb_info_len_2,
     scst_sdbops.make 0x34 ''O   OO O        '' 2 4 7 2 SCST_DATA_NONE
       (SCST_WRITE_EXCL_ALLOWED) ''PRE-FETCH'' cdb_info_lba_4_none,
     scst_sdbops.make 0x35 ''O   OO O        '' 2 4 7 2 SCST_DATA_NONE
       (0) ''SYNCHRONIZE CACHE(10)'' cdb_info_lba_4_none,
     scst_sdbops.make 0x36 ''O   OO O        '' 0 0 0 0 SCST_DATA_NONE
       (SCST_WRITE_EXCL_ALLOWED) ''LOCK UNLOCK CACHE'' cdb_info_none,
     scst_sdbops.make 0x37 ''O      O        '' 0 0 7 2 SCST_DATA_READ
       (SCST_WRITE_EXCL_ALLOWED) ''READ DEFECT DATA(10)'' cdb_info_len_2,
     scst_sdbops.make 0x37 ''        O       '' 0 0 0 0 SCST_DATA_NONE
       (SCST_LONG_TIMEOUT) ''INIT ELEMENT STATUS WRANGE'' cdb_info_none,
     scst_sdbops.make 0x38 ''    O  O        '' 0 0 8 1 SCST_DATA_READ
       (0) ''MEDIUM SCAN'' cdb_info_len_1,
     scst_sdbops.make 0x3B ''OOOOOOOOOOOOOOOO'' 0 0 6 3 SCST_DATA_WRITE
       (SCST_SMALL_TIMEOUT) ''WRITE BUFFER'' cdb_info_len_3]"

definition scst_scsi_op_table_4 :: "scst_sdbops list" where
  "scst_scsi_op_table_4 = [
     scst_sdbops.make 0x3C ''OOOOOOOOOOOOOOOO'' 0 0 6 3 SCST_DATA_READ
       (SCST_SMALL_TIMEOUT OR SCST_WRITE_EXCL_ALLOWED) ''READ BUFFER'' cdb_info_len_3,
     scst_sdbops.make 0x3D ''    O  O        '' 0 0 0 0 SCST_DATA_WRITE
       (SCST_TRANSFER_LEN_TYPE_FIXED) ''UPDATE BLOCK'' cdb_info_single,
     scst_sdbops.make 0x3E ''O   OO O        '' 2 4 7 2 SCST_DATA_READ
       (0) ''READ LONG'' cdb_info_lba_4_len_2,
     scst_sdbops.make 0x3F ''O   O  O        '' 2 4 7 2 SCST_DATA_WRITE
       (SCST_WRITE_MEDIUM) ''WRITE LONG'' cdb_info_lba_4_len_2,
     scst_sdbops.make 0x40 ''OOOOOOOOOO      '' 0 0 8 1 SCST_DATA_WRITE
       (SCST_SMALL_TIMEOUT) ''CHANGE DEFINITION'' cdb_info_len_1,
     scst_sdbops.make 0x41 ''O               '' 2 4 7 2 SCST_DATA_WRITE
       (SCST_TRANSFER_LEN_TYPE_FIXED OR SCST_WRITE_MEDIUM) ''WRITE SAME(10)'' cdb_info_write_same10,
     scst_sdbops.make 0x42 ''     O          '' 0 0 7 2 SCST_DATA_READ
       (0) ''READ SUB-CHANNEL'' cdb_info_len_2,
     scst_sdbops.make 0x42 ''O               '' 0 0 7 2 SCST_DATA_WRITE
       (SCST_WRITE_MEDIUM OR SCST_DESCRIPTORS_BASED) ''UNMAP'' cdb_info_len_2,
     scst_sdbops.make 0x43 ''     O          '' 0 0 7 2 SCST_DATA_READ
       (0) ''READ TOC/PMA/ATIP'' cdb_info_len_2,
     scst_sdbops.make 0x44 '' M              '' 0 0 7 2 SCST_DATA_READ
       (SCST_REG_RESERVE_ALLOWED OR SCST_WRITE_EXCL_ALLOWED OR SCST_EXCL_ACCESS_ALLOWED) ''REPORT DENSITY SUPPORT'' cdb_info_len_2,
     scst_sdbops.make 0x44 ''     O          '' 0 0 7 2 SCST_DATA_READ
       (0) ''READ HEADER'' cdb_info_len_2,
     scst_sdbops.make 0x45 ''     O          '' 0 0 0 0 SCST_DATA_NONE
       (0) ''PLAY AUDIO(10)'' cdb_info_none,
     scst_sdbops.make 0x46 ''     O          '' 0 0 7 2 SCST_DATA_READ
       (0) ''GET CONFIGURATION'' cdb_info_len_2,
     scst_sdbops.make 0x47 ''     O          '' 0 0 0 0 SCST_DATA_NONE
       (0) ''PLAY AUDIO MSF'' cdb_info_none,
     scst_sdbops.make 0x48 ''     O          '' 0 0 0 0 SCST_DATA_NONE
       (0) ''PLAY AUDIO TRACK INDEX'' cdb_info_none,
     scst_sdbops.make 0x49 ''     O          '' 0 0 0 0 SCST_DATA_NONE
       (0) ''PLAY TRACK RELATIVE(10)'' cdb_info_none,
     scst_sdbops.make 0x4A ''     O          '' 0 0 7 2 SCST_DATA_READ
       (0) ''GET EVENT STATUS NOTIFICATION'' cdb_info_len_2,
     scst_sdbops.make 0x4B ''     O          '' 0 0 0 0 SCST_DATA_NONE
       (0) ''PAUSE/RESUME'' cdb_info_none,
     scst_sdbops.make 0x4C ''OOOOOOOOOOOOOOOO'' 0 0 7 2 SCST_DATA_WRITE
       (SCST_STRICTLY_SERIALIZED) ''LOG SELECT'' cdb_info_len_2,
     scst_sdbops.make 0x4D ''OOOOOOOOOOOOOOOO'' 0 0 7 2 SCST_DATA_READ
       (SCST_SMALL_TIMEOUT OR SCST_REG_RESERVE_ALLOWED OR SCST_WRITE_EXCL_ALLOWED OR SCST_EXCL_ACCESS_ALLOWED) ''LOG SENSE'' cdb_info_len_2,
     scst_sdbops.make 0x4E ''     O          '' 0 0 0 0 SCST_DATA_NONE
       (0) ''STOP PLAY/SCAN'' cdb_info_none,
     scst_sdbops.make 0x50 ''O               '' 2 4 7 2 SCST_DATA_WRITE
       (SCST_WRITE_MEDIUM) ''XDWRITE(10)'' cdb_info_lba_4_len_2_wrprotect,
     scst_sdbops.make 0x51 ''     O          '' 0 0 7 2 SCST_DATA_READ
       (0) ''READ DISC INFORMATION'' cdb_info_len_2,
     scst_sdbops.make 0x51 ''O               '' 2 4 7 2 SCST_DATA_WRITE
       (SCST_WRITE_MEDIUM) ''XPWRITE'' cdb_info_lba_4_len_2]"

definition scst_scsi_op_table_5 :: "scst_sdbops list" where
  "scst_scsi_op_table_5 = [
     scst_sdbops.make 0x52 ''     O          '' 0 0 7 2 SCST_DATA_READ
       (0) ''READ TRACK INFORMATION'' cdb_info_len_2,
     scst_sdbops.make 0x53 ''O               '' 2 4 7 2 SCST_DATA_BIDI
       (SCST_TRANSFER_LEN_TYPE_FIXED OR SCST_WRITE_MEDIUM) ''XDWRITEREAD(10)'' cdb_info_bidi_lba_4_len_2,
     scst_sdbops.make 0x53 ''     O          '' 0 0 0 0 SCST_DATA_NONE
       (0) ''RESERVE TRACK'' cdb_info_none,
     scst_sdbops.make 0x54 ''     O          '' 0 0 7 2 SCST_DATA_WRITE
       (0) ''SEND OPC INFORMATION'' cdb_info_len_2,
     scst_sdbops.make 0x55 ''OOOOOOOOOOOOOOOO'' 0 0 7 2 SCST_DATA_WRITE
       (SCST_STRICTLY_SERIALIZED) ''MODE SELECT(10)'' cdb_info_len_2,
     scst_sdbops.make 0x56 ''OOOOOOOOOOOOOOOO'' 0 0 0 0 SCST_DATA_NONE
       (SCST_SMALL_TIMEOUT OR SCST_LOCAL_CMD OR SCST_SERIALIZED OR SCST_WRITE_EXCL_ALLOWED OR SCST_EXCL_ACCESS_ALLOWED OR SCST_SCSI_ATOMIC) ''RESERVE(10)'' cdb_info_none,
     scst_sdbops.make 0x57 ''OOOOOOOOOOOOOOOO'' 0 0 0 0 SCST_DATA_NONE
       (SCST_SMALL_TIMEOUT OR SCST_LOCAL_CMD OR SCST_SERIALIZED OR SCST_REG_RESERVE_ALLOWED OR SCST_WRITE_EXCL_ALLOWED OR SCST_EXCL_ACCESS_ALLOWED) ''RELEASE(10)'' cdb_info_none,
     scst_sdbops.make 0x58 ''     O          '' 0 0 0 0 SCST_DATA_NONE
       (SCST_WRITE_MEDIUM) ''REPAIR TRACK'' cdb_info_none,
     scst_sdbops.make 0x5A ''OOOOOOOOOOOOOOOO'' 0 0 7 2 SCST_DATA_READ
       (SCST_SMALL_TIMEOUT OR SCST_WRITE_EXCL_ALLOWED) ''MODE SENSE(10)'' cdb_info_len_2,
     scst_sdbops.make 0x5B ''     O          '' 0 0 0 0 SCST_DATA_NONE
       (0) ''CLOSE TRACK/SESSION'' cdb_info_none,
     scst_sdbops.make 0x5C ''     O          '' 0 0 7 2 SCST_DATA_READ
       (0) ''READ BUFFER CAPACITY'' cdb_info_len_2,
     scst_sdbops.make 0x5D ''     O          '' 0 0 6 3 SCST_DATA_WRITE
       (0) ''SEND CUE SHEET'' cdb_info_len_3,
     scst_sdbops.make 0x5E ''OOOOO OOOO      '' 0 0 5 4 SCST_DATA_READ
       (SCST_SMALL_TIMEOUT OR SCST_LOCAL_CMD OR SCST_SERIALIZED OR SCST_WRITE_EXCL_ALLOWED OR SCST_EXCL_ACCESS_ALLOWED) ''PERSISTENT RESERVE IN'' cdb_info_len_4,
     scst_sdbops.make 0x5F ''OOOOO OOOO      '' 0 0 5 4 SCST_DATA_WRITE
       (SCST_SMALL_TIMEOUT OR SCST_LOCAL_CMD OR SCST_SERIALIZED OR SCST_WRITE_EXCL_ALLOWED OR SCST_EXCL_ACCESS_ALLOWED) ''PERSISTENT RESERVE OUT'' cdb_info_len_4,
     scst_sdbops.make 0x7F ''O               '' 0 0 0 0 SCST_DATA_UNKNOWN
       (0) ''VAR LEN CDB'' cdb_info_var_len,
     scst_sdbops.make 0x80 '' O              '' 0 0 0 0 SCST_DATA_NONE
       (SCST_WRITE_MEDIUM) ''WRITE FILEMARKS(16)'' cdb_info_none,
     scst_sdbops.make 0x81 ''O   OO O        '' 0 0 10 4 SCST_DATA_WRITE
       (SCST_WRITE_MEDIUM) ''REBUILD'' cdb_info_len_4,
     scst_sdbops.make 0x82 ''O   OO O        '' 0 0 10 4 SCST_DATA_WRITE
       (SCST_WRITE_MEDIUM) ''REGENERATE'' cdb_info_len_4,
     scst_sdbops.make 0x83 ''O               '' 0 0 10 4 SCST_DATA_WRITE
       (SCST_WRITE_MEDIUM OR SCST_CAN_GEN_3PARTY_COMMANDS OR SCST_LOCAL_CMD OR SCST_DESCRIPTORS_BASED) ''EXTENDED COPY'' cdb_info_ext_copy,
     scst_sdbops.make 0x84 ''O               '' 0 0 10 4 SCST_DATA_READ
       (SCST_FULLY_LOCAL_CMD OR SCST_LOCAL_CMD OR SCST_WRITE_EXCL_ALLOWED OR SCST_EXCL_ACCESS_ALLOWED) ''RECEIVE COPY RESULT'' cdb_info_len_4,
     scst_sdbops.make 0x85 ''O    O        O '' 7 6 0 0 SCST_DATA_NONE
       (0) ''ATA PASS-THROUGH(16)'' cdb_info_apt,
     scst_sdbops.make 0x86 ''OOOOOOOOOO      '' 0 0 0 0 SCST_DATA_NONE
       (SCST_REG_RESERVE_ALLOWED OR SCST_WRITE_EXCL_ALLOWED OR SCST_EXCL_ACCESS_ALLOWED) ''ACCESS CONTROL IN'' cdb_info_none,
     scst_sdbops.make 0x87 ''OOOOOOOOOO      '' 0 0 0 0 SCST_DATA_NONE
       (SCST_REG_RESERVE_ALLOWED OR SCST_WRITE_EXCL_ALLOWED OR SCST_EXCL_ACCESS_ALLOWED) ''ACCESS CONTROL OUT'' cdb_info_none]"

definition scst_scsi_op_table_6 :: "scst_sdbops list" where
  "scst_scsi_op_table_6 = [
     scst_sdbops.make 0x88 ''M   MMMM        '' 2 8 10 4 SCST_DATA_READ
       (SCST_TRANSFER_LEN_TYPE_FIXED OR SCST_WRITE_EXCL_ALLOWED) ''READ(16)'' cdb_info_read_16,
     scst_sdbops.make 0x89 ''O               '' 2 8 13 1 SCST_DATA_WRITE
       (SCST_TRANSFER_LEN_TYPE_FIXED OR SCST_FULLY_LOCAL_CMD OR SCST_LOCAL_CMD OR SCST_WRITE_MEDIUM OR SCST_SCSI_ATOMIC) ''COMPARE AND WRITE'' cdb_info_compare_and_write,
     scst_sdbops.make 0x8A ''O   OO O        '' 2 8 10 4 SCST_DATA_WRITE
       (SCST_TRANSFER_LEN_TYPE_FIXED OR SCST_WRITE_MEDIUM) ''WRITE(16)'' cdb_info_lba_8_len_4_wrprotect,
     scst_sdbops.make 0x8C '' OOOOOOOOO      '' 0 0 10 4 SCST_DATA_READ
       (SCST_WRITE_EXCL_ALLOWED) ''READ ATTRIBUTE'' cdb_info_len_4,
     scst_sdbops.make 0x8D '' OOOOOOOOO      '' 0 0 10 4 SCST_DATA_WRITE
       (SCST_WRITE_MEDIUM) ''WRITE ATTRIBUTE'' cdb_info_len_4,
     scst_sdbops.make 0x8E ''O   OO O        '' 2 8 10 4 SCST_DATA_WRITE
       (SCST_TRANSFER_LEN_TYPE_FIXED OR SCST_WRITE_MEDIUM) ''WRITE AND VERIFY(16)'' cdb_info_lba_8_len_4_wrprotect,
     scst_sdbops.make 0x8F ''O   OO O        '' 2 8 10 4 SCST_DATA_UNKNOWN
       (SCST_TRANSFER_LEN_TYPE_FIXED OR SCST_WRITE_EXCL_ALLOWED) ''VERIFY(16)'' cdb_info_verify16,
     scst_sdbops.make 0x90 ''O   OO O        '' 2 8 0 0 SCST_DATA_NONE
       (SCST_WRITE_EXCL_ALLOWED) ''PRE-FETCH(16)'' cdb_info_lba_8_none,
     scst_sdbops.make 0x91 ''O   OO O        '' 2 8 10 4 SCST_DATA_NONE
       (0) ''SYNCHRONIZE CACHE(16)'' cdb_info_lba_8_none,
     scst_sdbops.make 0x91 '' M              '' 0 0 0 0 SCST_DATA_NONE
       (SCST_LONG_TIMEOUT OR SCST_WRITE_EXCL_ALLOWED) ''SPACE(16)'' cdb_info_none,
     scst_sdbops.make 0x92 ''O   OO O        '' 0 0 0 0 SCST_DATA_NONE
       (0) ''LOCK UNLOCK CACHE(16)'' cdb_info_none,
     scst_sdbops.make 0x92 '' O              '' 0 0 0 0 SCST_DATA_NONE
       (SCST_LONG_TIMEOUT OR SCST_WRITE_EXCL_ALLOWED) ''LOCATE(16)'' cdb_info_none,
     scst_sdbops.make 0x93 ''O               '' 2 8 10 4 SCST_DATA_WRITE
       (SCST_TRANSFER_LEN_TYPE_FIXED OR SCST_WRITE_MEDIUM) ''WRITE SAME(16)'' cdb_info_write_same16,
     scst_sdbops.make 0x93 '' M              '' 0 0 0 0 SCST_DATA_NONE
       (SCST_LONG_TIMEOUT OR SCST_WRITE_MEDIUM) ''ERASE(16)'' cdb_info_none,
     scst_sdbops.make 0x9E ''O               '' 0 0 0 0 SCST_DATA_READ
       (0) ''SERVICE ACTION IN'' cdb_info_serv_act_in,
     scst_sdbops.make 0xA0 ''VVVVVVVVVV  M   '' 0 0 6 4 SCST_DATA_READ
       (SCST_SMALL_TIMEOUT OR SCST_IMPLICIT_HQ OR SCST_SKIP_UA OR SCST_FULLY_LOCAL_CMD OR SCST_LOCAL_CMD OR SCST_REG_RESERVE_ALLOWED OR SCST_WRITE_EXCL_ALLOWED OR SCST_EXCL_ACCESS_ALLOWED) ''REPORT LUNS'' cdb_info_len_4,
     scst_sdbops.make 0xA1 ''O    O        O '' 5 3 0 0 SCST_DATA_NONE
       (0) ''ATA PASS-THROUGH(12)'' cdb_info_apt,
     scst_sdbops.make 0xA1 ''     O          '' 0 0 0 0 SCST_DATA_NONE
       (SCST_LONG_TIMEOUT) ''BLANK'' cdb_info_none,
     scst_sdbops.make 0xA2 ''OO   O          '' 0 0 6 4 SCST_DATA_READ
       (SCST_REG_RESERVE_ALLOWED OR SCST_WRITE_EXCL_ALLOWED) ''SECURITY PROTOCOL IN'' cdb_info_len_4,
     scst_sdbops.make 0xA3 ''     O          '' 0 0 8 2 SCST_DATA_WRITE
       (0) ''SEND KEY'' cdb_info_len_2,
     scst_sdbops.make 0xA3 ''OOO O OOOO  MO O'' 0 0 6 4 SCST_DATA_READ
       (0) ''MAINTENANCE(IN)'' cdb_info_min]"

definition scst_scsi_op_table_7 :: "scst_sdbops list" where
  "scst_scsi_op_table_7 = [
     scst_sdbops.make 0xA4 ''     O          '' 0 0 8 2 SCST_DATA_READ
       (0) ''REPORT KEY'' cdb_info_len_2,
     scst_sdbops.make 0xA4 ''OOO O OOOO  MO O'' 0 0 6 4 SCST_DATA_WRITE
       (0) ''MAINTENANCE(OUT)'' cdb_info_mo,
     scst_sdbops.make 0xA5 ''        M       '' 0 0 0 0 SCST_DATA_NONE
       (SCST_LONG_TIMEOUT) ''MOVE MEDIUM'' cdb_info_none,
     scst_sdbops.make 0xA5 ''     O          '' 0 0 0 0 SCST_DATA_NONE
       (0) ''PLAY AUDIO(12)'' cdb_info_none,
     scst_sdbops.make 0xA6 ''     O  O       '' 0 0 0 0 SCST_DATA_NONE
       (SCST_LONG_TIMEOUT) ''EXCHANGE/LOAD/UNLOAD MEDIUM'' cdb_info_none,
     scst_sdbops.make 0xA7 ''     O          '' 0 0 0 0 SCST_DATA_NONE
       (0) ''SET READ AHEAD'' cdb_info_none,
     scst_sdbops.make 0xA8 ''         O      '' 0 0 6 4 SCST_DATA_READ
       (0) ''GET MESSAGE(12)'' cdb_info_len_4,
     scst_sdbops.make 0xA8 ''O   OO O        '' 2 4 6 4 SCST_DATA_READ
       (SCST_TRANSFER_LEN_TYPE_FIXED OR SCST_WRITE_EXCL_ALLOWED) ''READ(12)'' cdb_info_lba_4_len_4_rdprotect,
     scst_sdbops.make 0xA9 ''     O          '' 0 0 0 0 SCST_DATA_NONE
       (0) ''PLAY TRACK RELATIVE(12)'' cdb_info_none,
     scst_sdbops.make 0xAA ''O   OO O        '' 2 4 6 4 SCST_DATA_WRITE
       (SCST_TRANSFER_LEN_TYPE_FIXED OR SCST_WRITE_MEDIUM) ''WRITE(12)'' cdb_info_lba_4_len_4_wrprotect,
     scst_sdbops.make 0xAA ''         O      '' 0 0 6 4 SCST_DATA_WRITE
       (0) ''SEND MESSAGE(12)'' cdb_info_len_4,
     scst_sdbops.make 0xAC ''       O        '' 0 0 0 0 SCST_DATA_NONE
       (SCST_WRITE_MEDIUM) ''ERASE(12)'' cdb_info_none,
     scst_sdbops.make 0xAC ''     M          '' 0 0 0 0 SCST_DATA_READ
       (SCST_UNKNOWN_LENGTH) ''GET PERFORMANCE'' cdb_info_none,
     scst_sdbops.make 0xAD ''     O          '' 0 0 8 2 SCST_DATA_READ
       (0) ''READ DVD STRUCTURE'' cdb_info_len_2,
     scst_sdbops.make 0xAE ''O   OO O        '' 2 4 6 4 SCST_DATA_WRITE
       (SCST_TRANSFER_LEN_TYPE_FIXED OR SCST_WRITE_MEDIUM) ''WRITE AND VERIFY(12)'' cdb_info_lba_4_len_4_wrprotect,
     scst_sdbops.make 0xAF ''O   OO O        '' 2 4 6 4 SCST_DATA_UNKNOWN
       (SCST_TRANSFER_LEN_TYPE_FIXED OR SCST_WRITE_EXCL_ALLOWED) ''VERIFY(12)'' cdb_info_verify12,
     scst_sdbops.make 0xB3 ''    OO O        '' 0 0 0 0 SCST_DATA_NONE
       (0) ''SET LIMITS(12)'' cdb_info_none,
     scst_sdbops.make 0xB5 ''OO   O          '' 0 0 6 4 SCST_DATA_WRITE
       (0) ''SECURITY PROTOCOL OUT'' cdb_info_len_4,
     scst_sdbops.make 0xB5 ''        O       '' 0 0 7 3 SCST_DATA_READ
       (0) ''REQUEST VOLUME ELEMENT ADDRESS'' cdb_info_len_3,
     scst_sdbops.make 0xB6 ''        O       '' 0 0 9 1 SCST_DATA_WRITE
       (0) ''SEND VOLUME TAG'' cdb_info_len_1,
     scst_sdbops.make 0xB6 ''     M         '' 0 0 9 2 SCST_DATA_WRITE
       (0) ''SET STREAMING'' cdb_info_len_2,
     scst_sdbops.make 0xB7 ''O      O        '' 0 0 9 1 SCST_DATA_READ
       (SCST_WRITE_EXCL_ALLOWED) ''READ DEFECT DATA(12)'' cdb_info_len_1,
     scst_sdbops.make 0xB8 ''        O       '' 0 0 7 3 SCST_DATA_READ
       (0) ''READ ELEMENT STATUS'' cdb_info_len_3_read_elem_stat]"

definition scst_scsi_op_table_8 :: "scst_sdbops list" where
  "scst_scsi_op_table_8 = [
     scst_sdbops.make 0xB9 ''     O          '' 0 0 0 0 SCST_DATA_READ
       (SCST_UNKNOWN_LENGTH) ''READ CD MSF'' cdb_info_none,
     scst_sdbops.make 0xBA ''     O          '' 0 0 0 0 SCST_DATA_NONE
       (SCST_LONG_TIMEOUT) ''SCAN'' cdb_info_none,
     scst_sdbops.make 0xBA ''            O   '' 0 0 6 4 SCST_DATA_READ
       (0) ''REDUNDANCY GROUP(IN)'' cdb_info_len_4,
     scst_sdbops.make 0xBB ''     O          '' 0 0 0 0 SCST_DATA_NONE
       (0) ''SET SPEED'' cdb_info_none,
     scst_sdbops.make 0xBB ''            O   '' 0 0 6 4 SCST_DATA_WRITE
       (0) ''REDUNDANCY GROUP(OUT)'' cdb_info_len_4,
     scst_sdbops.make 0xBC ''            O   '' 0 0 6 4 SCST_DATA_READ
       (0) ''SPARE(IN)'' cdb_info_len_4,
     scst_sdbops.make 0xBD ''     O          '' 0 0 8 2 SCST_DATA_READ
       (0) ''MECHANISM STATUS'' cdb_info_len_2,
     scst_sdbops.make 0xBD ''            O   '' 0 0 6 4 SCST_DATA_WRITE
       (0) ''SPARE(OUT)'' cdb_info_len_4,
     scst_sdbops.make 0xBE ''     O          '' 0 0 6 3 SCST_DATA_READ
       (SCST_TRANSFER_LEN_TYPE_FIXED) ''READ CD'' cdb_info_len_3,
     scst_sdbops.make 0xBE ''            O   '' 0 0 6 4 SCST_DATA_READ
       (0) ''VOLUME SET(IN)'' cdb_info_len_4,
     scst_sdbops.make 0xBF ''     O          '' 0 0 8 4 SCST_DATA_WRITE
       (0) ''SEND DVD STRUCTUE'' cdb_info_len_2,
     scst_sdbops.make 0xBF ''            O   '' 0 0 6 4 SCST_DATA_WRITE
       (0) ''VOLUME SET(OUT)'' cdb_info_len_4,
     scst_sdbops.make 0xE7 ''        V       '' 0 0 0 0 SCST_DATA_NONE
       (SCST_LONG_TIMEOUT) ''INIT ELEMENT STATUS WRANGE'' cdb_info_len_10]"

definition scst_scsi_op_table :: "scst_sdbops list" where
  "scst_scsi_op_table = scst_scsi_op_table_1 @ scst_scsi_op_table_2 @ scst_scsi_op_table_3 @ scst_scsi_op_table_4 @
      scst_scsi_op_table_5 @ scst_scsi_op_table_6 @ scst_scsi_op_table_7 @ scst_scsi_op_table_8"

text \<open>The table of 32-byte commands inside of \<^verbatim>\<open>get_cdb_info_var_len\<close>.\<close>

definition scst_scsi_op32_table :: "scst_sdbops list" where
  "scst_scsi_op32_table = [
     scst_sdbops.make 0x7F ''O               '' 12 8 28 4 SCST_DATA_READ
       (SCST_TRANSFER_LEN_TYPE_FIXED OR SCST_WRITE_EXCL_ALLOWED) ''READ(32)'' cdb_info_lba_8_len_4_rdprotect32,
     scst_sdbops.make 0x7F ''O               '' 12 8 28 4 SCST_DATA_UNKNOWN
       (SCST_TRANSFER_LEN_TYPE_FIXED OR SCST_WRITE_EXCL_ALLOWED) ''VERIFY(32)'' cdb_info_verify32,
     scst_sdbops.make 0x7F ''O               '' 12 8 28 4 SCST_DATA_WRITE
       (SCST_TRANSFER_LEN_TYPE_FIXED OR SCST_WRITE_MEDIUM) ''WRITE(32)'' cdb_info_lba_8_len_4_wrprotect32,
     scst_sdbops.make 0x7F ''O               '' 12 8 28 4 SCST_DATA_WRITE
       (SCST_TRANSFER_LEN_TYPE_FIXED OR SCST_WRITE_MEDIUM) ''WRITE AND VERIFY(32)'' cdb_info_lba_8_len_4_wrprotect32,
     scst_sdbops.make 0x7F ''O               '' 12 8 28 4 SCST_DATA_WRITE
       (SCST_TRANSFER_LEN_TYPE_FIXED OR SCST_WRITE_MEDIUM) ''WRITE SAME(32)'' cdb_info_write_same32]"

end
