(* ===== verification/Cdb_Info.thy ===== *)
theory Cdb_Info
  imports Scst_Sense Cdb_Table
begin

text \<open>
  Parsing of SCSI command blocks: \<^verbatim>\<open>scst_lib.c\<close>, lines 10162 to 11629.  The
  group of protection routines (\<^verbatim>\<open>scst_parse_rdprotect\<close> and relatives)
  comes first, then one definition per \<^verbatim>\<open>get_cdb_info_*\<close> routine, the
  variable length commands, and \<^verbatim>\<open>scst_get_cdb_info\<close> with the index of
  opcodes it uses.  A routine returns the C return value and the command;
  \<^term>\<open>None\<close> is an access outside of an object, through a null pointer, or a
  failed \<^verbatim>\<open>sBUG_ON\<close>.  The model is that of the release build: the checks
  under \<^verbatim>\<open>CONFIG_SCST_EXTRACHECKS\<close>
  are compiled out of it and are not part of the model;
  \<^verbatim>\<open>CONFIG_SCST_DIF_INJECT_CORRUPTED_TAGS\<close> is on in
  \<^verbatim>\<open>scst.h\<close> and is.
\<close>

type_synonym parse_result = "(int \<times> scst_cmd) option"

section \<open>Reading numbers out of a command block\<close>

definition get_unaligned_be16 :: "byte list \<Rightarrow> nat \<Rightarrow> 16 word option" where
  "get_unaligned_be16 p off = map_option (\<lambda>bs. of_nat (be_val bs)) (rd_range p off 2)"

definition get_unaligned_be24 :: "byte list \<Rightarrow> nat \<Rightarrow> 32 word option" where
  "get_unaligned_be24 p off = map_option (\<lambda>bs. of_nat (be_val bs)) (rd_range p off 3)"

definition get_unaligned_be32 :: "byte list \<Rightarrow> nat \<Rightarrow> 32 word option" where
  "get_unaligned_be32 p off = map_option (\<lambda>bs. of_nat (be_val bs)) (rd_range p off 4)"

definition get_unaligned_be64 :: "byte list \<Rightarrow> nat \<Rightarrow> 64 word option" where
  "get_unaligned_be64 p off = map_option (\<lambda>bs. of_nat (be_val bs)) (rd_range p off 8)"

section \<open>Protection information\<close>

definition SCST_DIF_MODE_NONE :: "32 word" where [flag_defs]: "SCST_DIF_MODE_NONE = 0"
definition SCST_DIF_MODE_DEV_STORE :: "32 word" where [flag_defs]: "SCST_DIF_MODE_DEV_STORE = 8"
definition SCST_DIF_CHECK_GUARD_TAG :: "32 word" where [flag_defs]: "SCST_DIF_CHECK_GUARD_TAG = 1"
definition SCST_DIF_CHECK_APP_TAG :: "32 word" where [flag_defs]: "SCST_DIF_CHECK_APP_TAG = 2"
definition SCST_DIF_CHECK_REF_TAG :: "32 word" where [flag_defs]: "SCST_DIF_CHECK_REF_TAG = 4"
definition SCST_DIF_CHECKS_MASK :: "32 word" where
  [flag_defs]: "SCST_DIF_CHECKS_MASK =
     SCST_DIF_CHECK_GUARD_TAG OR SCST_DIF_CHECK_APP_TAG OR SCST_DIF_CHECK_REF_TAG"
definition SCST_DIF_ACTION_STRIP :: "32 word" where [flag_defs]: "SCST_DIF_ACTION_STRIP = push_bit 4 1"
definition SCST_DIF_ACTION_INSERT :: "32 word" where [flag_defs]: "SCST_DIF_ACTION_INSERT = push_bit 4 2"
definition SCST_DIF_ACTION_PASS_CHECK :: "32 word" where
  [flag_defs]: "SCST_DIF_ACTION_PASS_CHECK = push_bit 4 3"
definition SCST_DIF_ACTION_PASS :: "32 word" where [flag_defs]: "SCST_DIF_ACTION_PASS = push_bit 4 4"
definition SCST_DIF_ACTION_MASK :: "32 word" where
  [flag_defs]: "SCST_DIF_ACTION_MASK = SCST_DIF_ACTION_STRIP OR SCST_DIF_ACTION_INSERT OR
     SCST_DIF_ACTION_PASS_CHECK OR SCST_DIF_ACTION_PASS"

text \<open>The accessors of \<^verbatim>\<open>scst.h\<close>: checks in the low bits, and the actions
  of the target driver, of SCST and of the device in three fields above them.\<close>

definition scst_get_dif_checks :: "32 word \<Rightarrow> 32 word" where
  "scst_get_dif_checks a = a AND SCST_DIF_CHECKS_MASK"

definition scst_set_dif_checks :: "32 word \<Rightarrow> 32 word \<Rightarrow> 32 word" where
  "scst_set_dif_checks a checks = a OR (checks AND NOT SCST_DIF_CHECKS_MASK)"

definition scst_get_dif_action :: "32 word \<Rightarrow> 32 word" where
  "scst_get_dif_action a = a AND SCST_DIF_ACTION_MASK"

definition scst_set_dif_action :: "32 word \<Rightarrow> 32 word \<Rightarrow> 32 word" where
  "scst_set_dif_action a action = a OR (action AND NOT SCST_DIF_ACTION_MASK)"

definition scst_get_tgt_dif_actions :: "32 word \<Rightarrow> 32 word" where
  "scst_get_tgt_dif_actions a =
     (drop_bit 0 a AND SCST_DIF_ACTION_MASK) OR (a AND SCST_DIF_CHECKS_MASK)"

definition scst_set_tgt_dif_action :: "32 word \<Rightarrow> 32 word \<Rightarrow> 32 word" where
  "scst_set_tgt_dif_action a tgt_a = a OR push_bit 0 (tgt_a AND SCST_DIF_ACTION_MASK)"

definition scst_get_scst_dif_actions :: "32 word \<Rightarrow> 32 word" where
  "scst_get_scst_dif_actions a =
     (drop_bit 4 a AND SCST_DIF_ACTION_MASK) OR (a AND SCST_DIF_CHECKS_MASK)"

definition scst_set_scst_dif_action :: "32 word \<Rightarrow> 32 word \<Rightarrow> 32 word" where
  "scst_set_scst_dif_action a scst_a = a OR push_bit 4 (scst_a AND SCST_DIF_ACTION_MASK)"

definition scst_get_dev_dif_actions :: "32 word \<Rightarrow> 32 word" where
  "scst_get_dev_dif_actions a =
     (drop_bit 8 a AND SCST_DIF_ACTION_MASK) OR (a AND SCST_DIF_CHECKS_MASK)"

definition scst_set_dev_dif_action :: "32 word \<Rightarrow> 32 word \<Rightarrow> 32 word" where
  "scst_set_dev_dif_action a dev_a = a OR push_bit 8 (dev_a AND SCST_DIF_ACTION_MASK)"

section \<open>Error exits of the parsers\<close>

text \<open>Report an invalid field of the command block and return \<open>res\<close>; report an
  invalid opcode and return \<^verbatim>\<open>EINVAL\<close>.\<close>

definition fail_field :: "scst_cmd \<Rightarrow> nat \<Rightarrow> nat \<Rightarrow> int \<Rightarrow> parse_result" where
  "fail_field cmd field_offs bit_offs res = do {
     (_, cmd) \<leftarrow> scst_set_invalid_field_in_cdb cmd field_offs bit_offs;
     Some (res, cmd) }"

definition fail_opcode :: "scst_cmd \<Rightarrow> parse_result" where
  "fail_opcode cmd = do {
     (_, cmd) \<leftarrow> scst_set_cmd_error cmd ILLEGAL_REQUEST 0x20 0;
     Some (EINVAL, cmd) }"

abbreviation BIT_OFFS :: "nat \<Rightarrow> nat" where
  "BIT_OFFS n \<equiv> n OR SCST_INVAL_FIELD_BIT_OFFS_VALID"

section \<open>The xPROTECT fields\<close>

definition xprotect :: "byte \<Rightarrow> nat" where
  "xprotect b = unat (drop_bit 5 (b AND 0xE0))"

text \<open>\<^verbatim>\<open>__scst_parse_rdprotect\<close>\<close>

definition scst_parse_rdprotect_value :: "scst_cmd \<Rightarrow> nat \<Rightarrow> nat \<Rightarrow> parse_result" where
  "scst_parse_rdprotect_value cmd rdprotect rdprotect_offs = do {
     dev \<leftarrow> cmd_dev cmd;
     (if rdprotect = 0 then
        Some (0, cmd\<lparr>cmd_dif_actions := dev_dif_rd_prot0_actions dev OR SCST_DIF_CHECK_GUARD_TAG OR
                       dif_app_chk dev OR dif_ref_chk dev\<rparr>)
      else if rdprotect = 1 \<or> rdprotect = 5 then
        Some (0, cmd\<lparr>cmd_dif_actions := dev_dif_rd_actions dev OR SCST_DIF_CHECK_GUARD_TAG OR
                       dif_app_chk dev OR dif_ref_chk dev, tgt_dif_data_expected := True\<rparr>)
      else if rdprotect = 2 then
        Some (0, cmd\<lparr>cmd_dif_actions := dev_dif_rd_actions dev OR dif_app_chk dev OR
                       dif_ref_chk dev, tgt_dif_data_expected := True\<rparr>)
      else if rdprotect = 3 then
        Some (0, cmd\<lparr>cmd_dif_actions := dev_dif_rd_actions dev, tgt_dif_data_expected := True\<rparr>)
      else if rdprotect = 4 then
        Some (0, cmd\<lparr>cmd_dif_actions := dev_dif_rd_actions dev OR dif_app_chk dev,
                     tgt_dif_data_expected := True\<rparr>)
      else fail_field cmd rdprotect_offs (BIT_OFFS 5) EINVAL) }"

text \<open>The part of \<^verbatim>\<open>scst_parse_rdprotect\<close> after a parse of a command that is
  to corrupt a tag.\<close>

definition corrupt_dif_tag_actions :: "32 word \<Rightarrow> 32 word" where
  "corrupt_dif_tag_actions a =
     (let a = scst_set_scst_dif_action a SCST_DIF_ACTION_INSERT
      in if scst_get_dif_action (scst_get_tgt_dif_actions a) = SCST_DIF_ACTION_INSERT
         then scst_set_tgt_dif_action a SCST_DIF_ACTION_PASS_CHECK else a)"

definition scst_parse_rdprotect :: "scst_cmd \<Rightarrow> parse_result" where
  "scst_parse_rdprotect cmd = do {
     b \<leftarrow> rd (cdb cmd) 1;
     let rdprotect = xprotect b;
     dev \<leftarrow> cmd_dev cmd;
     (if dev_dif_mode dev = SCST_DIF_MODE_NONE then
        if rdprotect = 0 then Some (0, cmd) else fail_field cmd 1 (BIT_OFFS 5) EINVAL
      else if dev_dif_type dev = 2 \<and> rdprotect \<noteq> 0 then fail_opcode cmd
      else do {
        let (rdprotect, cmd) =
          (if cmd_corrupt_dif_tag cmd \<noteq> 0 then
             if dev_dif_type dev = 1 \<and> dev_dif_mode dev AND SCST_DIF_MODE_DEV_STORE = 0
             then (rdprotect AND 3, cmd)
             else (rdprotect, cmd\<lparr>cmd_corrupt_dif_tag := 0\<rparr>)
           else (rdprotect, cmd));
        (res, cmd) \<leftarrow> scst_parse_rdprotect_value cmd rdprotect 1;
        Some (res, if cmd_corrupt_dif_tag cmd \<noteq> 0 \<and> res = 0
                   then cmd\<lparr>cmd_dif_actions := corrupt_dif_tag_actions (cmd_dif_actions cmd)\<rparr>
                   else cmd) }) }"

definition scst_parse_rdprotect32 :: "scst_cmd \<Rightarrow> parse_result" where
  "scst_parse_rdprotect32 cmd = do {
     b \<leftarrow> rd (cdb cmd) 10;
     dev \<leftarrow> cmd_dev cmd;
     if dev_dif_type dev \<noteq> 2 then fail_opcode cmd
     else scst_parse_rdprotect_value cmd (xprotect b) 10 }"

text \<open>\<^verbatim>\<open>__scst_parse_wrprotect\<close>\<close>

definition scst_parse_wrprotect_value :: "scst_cmd \<Rightarrow> nat \<Rightarrow> nat \<Rightarrow> parse_result" where
  "scst_parse_wrprotect_value cmd wrprotect wrprotect_offs = do {
     dev \<leftarrow> cmd_dev cmd;
     (if wrprotect = 0 then
        Some (0, cmd\<lparr>cmd_dif_actions := dev_dif_wr_prot0_actions dev OR SCST_DIF_CHECK_GUARD_TAG OR
                       dif_app_chk dev OR dif_ref_chk dev\<rparr>)
      else if wrprotect = 1 then
        Some (0, cmd\<lparr>cmd_dif_actions := dev_dif_wr_actions dev OR SCST_DIF_CHECK_GUARD_TAG OR
                       dif_app_chk dev OR dif_ref_chk dev, tgt_dif_data_expected := True\<rparr>)
      else if wrprotect = 2 then
        Some (0, cmd\<lparr>cmd_dif_actions := dev_dif_wr_actions dev OR dif_app_chk dev OR
                       dif_ref_chk dev, tgt_dif_data_expected := True\<rparr>)
      else if wrprotect = 3 then
        Some (0, cmd\<lparr>cmd_dif_actions := dev_dif_wr_actions dev, tgt_dif_data_expected := True\<rparr>)
      else if wrprotect = 4 then
        Some (0, cmd\<lparr>cmd_dif_actions := dev_dif_wr_actions dev OR SCST_DIF_CHECK_GUARD_TAG,
                     tgt_dif_data_expected := True\<rparr>)
      else if wrprotect = 5 then
        Some (0, cmd\<lparr>cmd_dif_actions := dev_dif_wr_actions dev OR SCST_DIF_CHECK_GUARD_TAG OR
                       dif_app_chk dev OR dif_ref_chk dev, tgt_dif_data_expected := True\<rparr>)
      else fail_field cmd wrprotect_offs (BIT_OFFS 5) EINVAL) }"

definition scst_parse_wrprotect :: "scst_cmd \<Rightarrow> parse_result" where
  "scst_parse_wrprotect cmd = do {
     b \<leftarrow> rd (cdb cmd) 1;
     let wrprotect = xprotect b;
     dev \<leftarrow> cmd_dev cmd;
     (if dev_dif_mode dev = SCST_DIF_MODE_NONE then
        if wrprotect = 0 then Some (0, cmd) else fail_field cmd 1 (BIT_OFFS 5) EINVAL
      else if dev_dif_type dev = 2 \<and> wrprotect \<noteq> 0 then fail_opcode cmd
      else scst_parse_wrprotect_value cmd wrprotect 1) }"

definition scst_parse_wrprotect32 :: "scst_cmd \<Rightarrow> parse_result" where
  "scst_parse_wrprotect32 cmd = do {
     b \<leftarrow> rd (cdb cmd) 10;
     dev \<leftarrow> cmd_dev cmd;
     if dev_dif_type dev \<noteq> 2 then fail_opcode cmd
     else scst_parse_wrprotect_value cmd (xprotect b) 10 }"

text \<open>\<^verbatim>\<open>__scst_parse_vrprotect\<close>; a BYTCHK of 2 is a failed
  \<^verbatim>\<open>sBUG_ON\<close>.\<close>

definition scst_parse_vrprotect_value :: "scst_cmd \<Rightarrow> nat \<Rightarrow> parse_result" where
  "scst_parse_vrprotect_value cmd vrprotect_offs = do {
     dev \<leftarrow> cmd_dev cmd;
     b \<leftarrow> rd (cdb cmd) vrprotect_offs;
     let vrprotect = xprotect b;
     let bytchk = unat (drop_bit 1 (b AND 6));
     let checks = SCST_DIF_CHECK_GUARD_TAG OR dif_app_chk dev OR dif_ref_chk dev;
     (if bytchk = 0 then
        if vrprotect = 0 \<and> dpicz dev then Some (0, cmd\<lparr>cmd_dif_actions := 0\<rparr>)
        else if vrprotect = 0 \<or> vrprotect = 1 \<or> vrprotect = 5 then
          Some (0, cmd\<lparr>cmd_dif_actions := checks\<rparr>)
        else if vrprotect = 2 then
          Some (0, cmd\<lparr>cmd_dif_actions := dif_app_chk dev OR dif_ref_chk dev\<rparr>)
        else if vrprotect = 3 then Some (0, cmd\<lparr>cmd_dif_actions := 0\<rparr>)
        else if vrprotect = 4 then Some (0, cmd\<lparr>cmd_dif_actions := SCST_DIF_CHECK_GUARD_TAG\<rparr>)
        else fail_field cmd vrprotect_offs (BIT_OFFS 5) EINVAL
      else if bytchk = 1 \<or> bytchk = 3 then
        if vrprotect = 0 then
          Some (0, cmd\<lparr>cmd_dif_actions := (if dpicz dev then 0 else dev_dif_wr_actions dev OR checks)\<rparr>)
        else if vrprotect \<le> 5 then Some (0, cmd\<lparr>cmd_dif_actions := 0\<rparr>)
        else fail_field cmd vrprotect_offs (BIT_OFFS 5) EINVAL
      else None) }"

definition scst_parse_vrprotect :: "scst_cmd \<Rightarrow> parse_result" where
  "scst_parse_vrprotect cmd = do {
     b \<leftarrow> rd (cdb cmd) 1;
     let vrprotect = xprotect b;
     dev \<leftarrow> cmd_dev cmd;
     (if dev_dif_mode dev = SCST_DIF_MODE_NONE then
        if vrprotect = 0 then Some (0, cmd) else fail_field cmd 1 (BIT_OFFS 5) EINVAL
      else if dev_dif_type dev = 2 \<and> vrprotect \<noteq> 0 then fail_opcode cmd
      else scst_parse_vrprotect_value cmd 1) }"

definition scst_parse_vrprotect32 :: "scst_cmd \<Rightarrow> parse_result" where
  "scst_parse_vrprotect32 cmd = do {
     dev \<leftarrow> cmd_dev cmd;
     if dev_dif_type dev \<noteq> 2 then fail_opcode cmd else scst_parse_vrprotect_value cmd 10 }"

section \<open>The get-info routines\<close>

text \<open>Assigning the 32-bit buffer length also sets the 64-bit data length, sign-extended, and
  most routines mark the LBA as not valid.\<close>

definition no_lba :: "scst_cmd \<Rightarrow> scst_cmd" where
  "no_lba cmd = cmd\<lparr>op_flags := op_flags cmd OR SCST_LBA_NOT_VALID, lba := 0\<rparr>"

definition set_bufflen :: "32 word \<Rightarrow> scst_cmd \<Rightarrow> scst_cmd" where
  "set_bufflen n cmd = cmd\<lparr>bufflen := n, data_len := scast n\<rparr>"

abbreviation ALL_ALLOWED :: "32 word" where
  "ALL_ALLOWED \<equiv> SCST_REG_RESERVE_ALLOWED OR SCST_WRITE_EXCL_ALLOWED OR SCST_EXCL_ACCESS_ALLOWED"

definition get_cdb_info_len_10 :: "scst_cmd \<Rightarrow> scst_sdbops \<Rightarrow> parse_result" where
  "get_cdb_info_len_10 cmd sdbops =
     (let cmd = no_lba (cmd\<lparr>cdb_len := 10\<rparr>)
      in Some (0, cmd\<lparr>data_len := scast (bufflen cmd)\<rparr>))"

definition get_cdb_info_block_limit :: "scst_cmd \<Rightarrow> scst_sdbops \<Rightarrow> parse_result" where
  "get_cdb_info_block_limit cmd sdbops = Some (0, set_bufflen 6 (no_lba cmd))"

definition get_cdb_info_read_capacity :: "scst_cmd \<Rightarrow> scst_sdbops \<Rightarrow> parse_result" where
  "get_cdb_info_read_capacity cmd sdbops = Some (0, set_bufflen 8 (no_lba cmd))"

definition get_cdb_info_serv_act_in :: "scst_cmd \<Rightarrow> scst_sdbops \<Rightarrow> parse_result" where
  "get_cdb_info_serv_act_in cmd sdbops = do {
     let cmd = cmd\<lparr>lba := 0\<rparr>;
     b \<leftarrow> rd (cdb cmd) 1;
     cmd \<leftarrow> (if b AND 0x1f = 0x10 then do {
                n \<leftarrow> get_unaligned_be32 (cdb cmd) 10;
                Some (cmd\<lparr>op_name := ''READ CAPACITY(16)'', bufflen := n,
                   op_flags := op_flags cmd OR (SCST_IMPLICIT_HQ OR SCST_LBA_NOT_VALID OR ALL_ALLOWED)\<rparr>) }
              else if b AND 0x1f = 0x12 then do {
                l \<leftarrow> get_unaligned_be64 (cdb cmd) 2;
                n \<leftarrow> get_unaligned_be32 (cdb cmd) 10;
                Some (cmd\<lparr>op_name := ''GET LBA STATUS'', lba := l, bufflen := n,
                   op_flags := op_flags cmd OR SCST_WRITE_EXCL_ALLOWED\<rparr>) }
              else Some (cmd\<lparr>op_flags := op_flags cmd OR (SCST_UNKNOWN_LENGTH OR SCST_LBA_NOT_VALID)\<rparr>));
     Some (0, cmd\<lparr>data_len := scast (bufflen cmd)\<rparr>) }"

definition get_cdb_info_single :: "scst_cmd \<Rightarrow> scst_sdbops \<Rightarrow> parse_result" where
  "get_cdb_info_single cmd sdbops = Some (0, set_bufflen 1 (no_lba cmd))"

definition get_cdb_info_read_pos :: "scst_cmd \<Rightarrow> scst_sdbops \<Rightarrow> parse_result" where
  "get_cdb_info_read_pos cmd sdbops = do {
     let cmd = no_lba cmd;
     n \<leftarrow> get_unaligned_be16 (cdb cmd) (info_len_off sdbops);
     let cmd = cmd\<lparr>bufflen := ucast n\<rparr>;
     b \<leftarrow> rd (cdb cmd) 1;
     let act = b AND 0x1f;
     (if act = 0 \<or> act = 1 then Some (0, set_bufflen 20 cmd)
      else if act = 6 then Some (0, set_bufflen 32 cmd)
      else if act = 8 then
        Some (0, set_bufflen (if 32 <s bufflen cmd then bufflen cmd else 32) cmd)
      else fail_field cmd 1 0 1) }"

definition get_cdb_info_prevent_allow_medium_removal :: "scst_cmd \<Rightarrow> scst_sdbops \<Rightarrow> parse_result" where
  "get_cdb_info_prevent_allow_medium_removal cmd sdbops = do {
     let cmd = (no_lba cmd)\<lparr>data_len := 0\<rparr>;
     b \<leftarrow> rd (cdb cmd) 4;
     Some (0, if b AND 3 = 0 then cmd\<lparr>op_flags := op_flags cmd OR ALL_ALLOWED\<rparr> else cmd) }"

definition get_cdb_info_start_stop :: "scst_cmd \<Rightarrow> scst_sdbops \<Rightarrow> parse_result" where
  "get_cdb_info_start_stop cmd sdbops = do {
     let cmd = (no_lba cmd)\<lparr>data_len := 0\<rparr>;
     b \<leftarrow> rd (cdb cmd) 4;
     Some (0, if b AND 0xF1 = 0x1 then cmd\<lparr>op_flags := op_flags cmd OR ALL_ALLOWED\<rparr> else cmd) }"

definition get_cdb_info_len_3_read_elem_stat :: "scst_cmd \<Rightarrow> scst_sdbops \<Rightarrow> parse_result" where
  "get_cdb_info_len_3_read_elem_stat cmd sdbops = do {
     let cmd = no_lba cmd;
     n \<leftarrow> get_unaligned_be24 (cdb cmd) (info_len_off sdbops);
     let cmd = set_bufflen n cmd;
     b \<leftarrow> rd (cdb cmd) 6;
     Some (0, if b AND 0x2 = 0x2 then cmd\<lparr>op_flags := op_flags cmd OR ALL_ALLOWED\<rparr> else cmd) }"

definition get_cdb_info_bidi_lba_4_len_2 :: "scst_cmd \<Rightarrow> scst_sdbops \<Rightarrow> parse_result" where
  "get_cdb_info_bidi_lba_4_len_2 cmd sdbops = do {
     l \<leftarrow> get_unaligned_be32 (cdb cmd) (info_lba_off sdbops);
     n \<leftarrow> get_unaligned_be16 (cdb cmd) (info_len_off sdbops);
     Some (0, (set_bufflen (ucast n) cmd)\<lparr>lba := ucast l, out_bufflen := ucast n\<rparr>) }"

definition get_cdb_info_fmt :: "scst_cmd \<Rightarrow> scst_sdbops \<Rightarrow> parse_result" where
  "get_cdb_info_fmt cmd sdbops = do {
     let cmd = no_lba cmd;
     b \<leftarrow> rd (cdb cmd) 1;
     Some (0, if b AND 0x10 \<noteq> 0
              then set_bufflen 4096 (cmd\<lparr>data_direction := SCST_DATA_WRITE,
                                        op_flags := op_flags cmd OR SCST_UNKNOWN_LENGTH\<rparr>)
              else set_bufflen 0 cmd) }"

text \<open>The common shape of the VERIFY routines: \<open>b\<close> is the byte with BYTCHK,
  \<open>n\<close> the length as a 32-bit value.  In the second branch the data length is the
  zero-extended length.\<close>

definition verify_lengths :: "byte \<Rightarrow> 32 word \<Rightarrow> scst_cmd \<Rightarrow> scst_cmd" where
  "verify_lengths b n cmd =
     (if b AND 2 \<noteq> 0 then (set_bufflen n cmd)\<lparr>data_direction := SCST_DATA_WRITE\<rparr>
      else cmd\<lparr>bufflen := 0, data_len := ucast n, data_direction := SCST_DATA_NONE\<rparr>)"

definition get_cdb_info_verify10 :: "scst_cmd \<Rightarrow> scst_sdbops \<Rightarrow> parse_result" where
  "get_cdb_info_verify10 cmd sdbops = do {
     b \<leftarrow> rd (cdb cmd) 1;
     if b AND 4 \<noteq> 0 then fail_field cmd 1 (BIT_OFFS 2) 1
     else do {
       l \<leftarrow> get_unaligned_be32 (cdb cmd) (info_lba_off sdbops);
       n \<leftarrow> get_unaligned_be16 (cdb cmd) (info_len_off sdbops);
       scst_parse_vrprotect (verify_lengths b (ucast n) (cmd\<lparr>lba := ucast l\<rparr>)) }}"

definition get_cdb_info_verify6 :: "scst_cmd \<Rightarrow> scst_sdbops \<Rightarrow> parse_result" where
  "get_cdb_info_verify6 cmd sdbops = do {
     let cmd = no_lba cmd;
     b \<leftarrow> rd (cdb cmd) 1;
     if b AND 4 \<noteq> 0 then fail_field cmd 1 (BIT_OFFS 2) 1
     else do {
       n \<leftarrow> get_unaligned_be24 (cdb cmd) (info_len_off sdbops);
       Some (0, verify_lengths b n cmd) }}"

definition get_cdb_info_verify12 :: "scst_cmd \<Rightarrow> scst_sdbops \<Rightarrow> parse_result" where
  "get_cdb_info_verify12 cmd sdbops = do {
     b \<leftarrow> rd (cdb cmd) 1;
     if b AND 4 \<noteq> 0 then fail_field cmd 1 (BIT_OFFS 2) 1
     else do {
       l \<leftarrow> get_unaligned_be32 (cdb cmd) (info_lba_off sdbops);
       n \<leftarrow> get_unaligned_be32 (cdb cmd) (info_len_off sdbops);
       scst_parse_vrprotect (verify_lengths b n (cmd\<lparr>lba := ucast l\<rparr>)) }}"

definition get_cdb_info_verify16 :: "scst_cmd \<Rightarrow> scst_sdbops \<Rightarrow> parse_result" where
  "get_cdb_info_verify16 cmd sdbops = do {
     b \<leftarrow> rd (cdb cmd) 1;
     if b AND 4 \<noteq> 0 then fail_field cmd 1 (BIT_OFFS 2) 1
     else do {
       l \<leftarrow> get_unaligned_be64 (cdb cmd) (info_lba_off sdbops);
       n \<leftarrow> get_unaligned_be32 (cdb cmd) (info_len_off sdbops);
       scst_parse_vrprotect (verify_lengths b n (cmd\<lparr>lba := l\<rparr>)) }}"

text \<open>The 32-byte VERIFY reports byte 1 as the invalid field although BYTCHK is in byte 10.\<close>

definition get_cdb_info_verify32 :: "scst_cmd \<Rightarrow> scst_sdbops \<Rightarrow> parse_result" where
  "get_cdb_info_verify32 cmd sdbops = do {
     b \<leftarrow> rd (cdb cmd) 10;
     if b AND 4 \<noteq> 0 then fail_field cmd 1 (BIT_OFFS 2) 1
     else do {
       l \<leftarrow> get_unaligned_be64 (cdb cmd) (info_lba_off sdbops);
       n \<leftarrow> get_unaligned_be32 (cdb cmd) (info_len_off sdbops);
       scst_parse_vrprotect32 (verify_lengths b n (cmd\<lparr>lba := l\<rparr>)) }}"

definition get_cdb_info_len_1 :: "scst_cmd \<Rightarrow> scst_sdbops \<Rightarrow> parse_result" where
  "get_cdb_info_len_1 cmd sdbops = do {
     b \<leftarrow> rd (cdb cmd) (info_len_off sdbops);
     Some (0, set_bufflen (ucast b) (no_lba cmd)) }"

text \<open>A transfer length of zero means 256 blocks: the length is decremented as an unsigned
  byte and then incremented as an \<^verbatim>\<open>int\<close>.\<close>

definition get_cdb_info_lba_3_len_1_256 :: "scst_cmd \<Rightarrow> scst_sdbops \<Rightarrow> parse_result" where
  "get_cdb_info_lba_3_len_1_256 cmd sdbops = do {
     h \<leftarrow> rd (cdb cmd) (info_lba_off sdbops);
     l \<leftarrow> get_unaligned_be16 (cdb cmd) (info_lba_off sdbops + 1);
     n \<leftarrow> rd (cdb cmd) (info_len_off sdbops);
     Some (0, set_bufflen (ucast (n - 1 :: byte) + 1)
                (cmd\<lparr>lba := push_bit 16 (ucast (h AND 0x1F)) OR ucast l\<rparr>)) }"

definition get_cdb_info_lba_3_len_1_256_read :: "scst_cmd \<Rightarrow> scst_sdbops \<Rightarrow> parse_result" where
  "get_cdb_info_lba_3_len_1_256_read cmd sdbops = do {
     (res, cmd) \<leftarrow> get_cdb_info_lba_3_len_1_256 cmd sdbops;
     if res \<noteq> 0 then Some (res, cmd)
     else do {
       dev \<leftarrow> cmd_dev cmd;
       Some (res, if dev_dif_mode dev \<noteq> SCST_DIF_MODE_NONE \<and> \<not> dpicz dev
                  then cmd\<lparr>cmd_dif_actions := dev_dif_rd_prot0_actions dev OR
                             SCST_DIF_CHECK_GUARD_TAG OR dif_app_chk dev OR SCST_DIF_CHECK_REF_TAG\<rparr>
                  else cmd) }}"

definition get_cdb_info_lba_3_len_1_256_write :: "scst_cmd \<Rightarrow> scst_sdbops \<Rightarrow> parse_result" where
  "get_cdb_info_lba_3_len_1_256_write cmd sdbops = do {
     (res, cmd) \<leftarrow> get_cdb_info_lba_3_len_1_256 cmd sdbops;
     if res \<noteq> 0 then Some (res, cmd)
     else do {
       dev \<leftarrow> cmd_dev cmd;
       Some (res, if dev_dif_mode dev \<noteq> SCST_DIF_MODE_NONE
                  then cmd\<lparr>cmd_dif_actions := dev_dif_wr_prot0_actions dev OR
                             SCST_DIF_CHECK_GUARD_TAG OR dif_app_chk dev OR SCST_DIF_CHECK_REF_TAG\<rparr>
                  else cmd) }}"

definition get_cdb_info_len_2 :: "scst_cmd \<Rightarrow> scst_sdbops \<Rightarrow> parse_result" where
  "get_cdb_info_len_2 cmd sdbops = do {
     n \<leftarrow> get_unaligned_be16 (cdb cmd) (info_len_off sdbops);
     Some (0, set_bufflen (ucast n) (no_lba cmd)) }"

definition get_cdb_info_len_3 :: "scst_cmd \<Rightarrow> scst_sdbops \<Rightarrow> parse_result" where
  "get_cdb_info_len_3 cmd sdbops = do {
     n \<leftarrow> get_unaligned_be24 (cdb cmd) (info_len_off sdbops);
     Some (0, set_bufflen n (no_lba cmd)) }"

definition get_cdb_info_len_4 :: "scst_cmd \<Rightarrow> scst_sdbops \<Rightarrow> parse_result" where
  "get_cdb_info_len_4 cmd sdbops = do {
     n \<leftarrow> get_unaligned_be32 (cdb cmd) (info_len_off sdbops);
     Some (0, set_bufflen n (no_lba cmd)) }"

definition get_cdb_info_none :: "scst_cmd \<Rightarrow> scst_sdbops \<Rightarrow> parse_result" where
  "get_cdb_info_none cmd sdbops =
     Some (0, (no_lba cmd)\<lparr>data_len := scast (bufflen cmd)\<rparr>)"

definition get_cdb_info_lba_2_none :: "scst_cmd \<Rightarrow> scst_sdbops \<Rightarrow> parse_result" where
  "get_cdb_info_lba_2_none cmd sdbops = do {
     l \<leftarrow> get_unaligned_be16 (cdb cmd) (info_lba_off sdbops);
     Some (0, cmd\<lparr>lba := ucast l, data_len := scast (bufflen cmd)\<rparr>) }"

definition get_cdb_info_lba_4_none :: "scst_cmd \<Rightarrow> scst_sdbops \<Rightarrow> parse_result" where
  "get_cdb_info_lba_4_none cmd sdbops = do {
     l \<leftarrow> get_unaligned_be32 (cdb cmd) (info_lba_off sdbops);
     Some (0, cmd\<lparr>lba := ucast l, data_len := scast (bufflen cmd)\<rparr>) }"

definition get_cdb_info_lba_8_none :: "scst_cmd \<Rightarrow> scst_sdbops \<Rightarrow> parse_result" where
  "get_cdb_info_lba_8_none cmd sdbops = do {
     l \<leftarrow> get_unaligned_be64 (cdb cmd) (info_lba_off sdbops);
     Some (0, cmd\<lparr>lba := l, data_len := scast (bufflen cmd)\<rparr>) }"

definition get_cdb_info_lba_4_len_2 :: "scst_cmd \<Rightarrow> scst_sdbops \<Rightarrow> parse_result" where
  "get_cdb_info_lba_4_len_2 cmd sdbops = do {
     l \<leftarrow> get_unaligned_be32 (cdb cmd) (info_lba_off sdbops);
     n \<leftarrow> get_unaligned_be16 (cdb cmd) (info_len_off sdbops);
     Some (0, set_bufflen (ucast n) (cmd\<lparr>lba := ucast l\<rparr>)) }"

definition get_cdb_info_read_10 :: "scst_cmd \<Rightarrow> scst_sdbops \<Rightarrow> parse_result" where
  "get_cdb_info_read_10 cmd sdbops = do {
     (res, cmd) \<leftarrow> get_cdb_info_lba_4_len_2 cmd sdbops;
     if res \<noteq> 0 then Some (res, cmd)
     else do {
       b \<leftarrow> rd (cdb cmd) 6;
       scst_parse_rdprotect (cmd\<lparr>cmd_corrupt_dif_tag := ucast (drop_bit 5 (b AND 0xE0))\<rparr>) }}"

definition get_cdb_info_lba_4_len_2_wrprotect :: "scst_cmd \<Rightarrow> scst_sdbops \<Rightarrow> parse_result" where
  "get_cdb_info_lba_4_len_2_wrprotect cmd sdbops = do {
     (res, cmd) \<leftarrow> get_cdb_info_lba_4_len_2 cmd sdbops;
     if res \<noteq> 0 then Some (res, cmd) else scst_parse_wrprotect cmd }"

definition get_cdb_info_lba_4_len_4 :: "scst_cmd \<Rightarrow> scst_sdbops \<Rightarrow> parse_result" where
  "get_cdb_info_lba_4_len_4 cmd sdbops = do {
     l \<leftarrow> get_unaligned_be32 (cdb cmd) (info_lba_off sdbops);
     n \<leftarrow> get_unaligned_be32 (cdb cmd) (info_len_off sdbops);
     Some (0, set_bufflen n (cmd\<lparr>lba := ucast l\<rparr>)) }"

definition get_cdb_info_lba_4_len_4_rdprotect :: "scst_cmd \<Rightarrow> scst_sdbops \<Rightarrow> parse_result" where
  "get_cdb_info_lba_4_len_4_rdprotect cmd sdbops = do {
     (res, cmd) \<leftarrow> get_cdb_info_lba_4_len_4 cmd sdbops;
     if res \<noteq> 0 then Some (res, cmd) else scst_parse_rdprotect cmd }"

definition get_cdb_info_lba_4_len_4_wrprotect :: "scst_cmd \<Rightarrow> scst_sdbops \<Rightarrow> parse_result" where
  "get_cdb_info_lba_4_len_4_wrprotect cmd sdbops = do {
     (res, cmd) \<leftarrow> get_cdb_info_lba_4_len_4 cmd sdbops;
     if res \<noteq> 0 then Some (res, cmd) else scst_parse_wrprotect cmd }"

definition get_cdb_info_lba_8_len_4 :: "scst_cmd \<Rightarrow> scst_sdbops \<Rightarrow> parse_result" where
  "get_cdb_info_lba_8_len_4 cmd sdbops = do {
     l \<leftarrow> get_unaligned_be64 (cdb cmd) (info_lba_off sdbops);
     n \<leftarrow> get_unaligned_be32 (cdb cmd) (info_len_off sdbops);
     Some (0, set_bufflen n (cmd\<lparr>lba := l\<rparr>)) }"

definition get_cdb_info_read_16 :: "scst_cmd \<Rightarrow> scst_sdbops \<Rightarrow> parse_result" where
  "get_cdb_info_read_16 cmd sdbops = do {
     (res, cmd) \<leftarrow> get_cdb_info_lba_8_len_4 cmd sdbops;
     if res \<noteq> 0 then Some (res, cmd)
     else do {
       b \<leftarrow> rd (cdb cmd) 14;
       scst_parse_rdprotect (cmd\<lparr>cmd_corrupt_dif_tag := ucast (drop_bit 5 (b AND 0xE0))\<rparr>) }}"

definition get_cdb_info_lba_8_len_4_wrprotect :: "scst_cmd \<Rightarrow> scst_sdbops \<Rightarrow> parse_result" where
  "get_cdb_info_lba_8_len_4_wrprotect cmd sdbops = do {
     (res, cmd) \<leftarrow> get_cdb_info_lba_8_len_4 cmd sdbops;
     if res \<noteq> 0 then Some (res, cmd) else scst_parse_wrprotect cmd }"

definition get_cdb_info_lba_8_len_4_wrprotect32 :: "scst_cmd \<Rightarrow> scst_sdbops \<Rightarrow> parse_result" where
  "get_cdb_info_lba_8_len_4_wrprotect32 cmd sdbops = do {
     (res, cmd) \<leftarrow> get_cdb_info_lba_8_len_4 cmd sdbops;
     if res \<noteq> 0 then Some (res, cmd) else scst_parse_wrprotect32 cmd }"

definition get_cdb_info_lba_8_len_4_rdprotect32 :: "scst_cmd \<Rightarrow> scst_sdbops \<Rightarrow> parse_result" where
  "get_cdb_info_lba_8_len_4_rdprotect32 cmd sdbops = do {
     (res, cmd) \<leftarrow> get_cdb_info_lba_8_len_4 cmd sdbops;
     if res \<noteq> 0 then Some (res, cmd) else scst_parse_rdprotect32 cmd }"

definition get_cdb_info_write_same :: "scst_cmd \<Rightarrow> scst_sdbops \<Rightarrow> bool \<Rightarrow> parse_result" where
  "get_cdb_info_write_same cmd sdbops ndob = do {
     let ctrl_offs = (if cdb_len cmd < 32 then 1 else 10);
     b \<leftarrow> rd (cdb cmd) ctrl_offs;
     let anchor = bit b 4;
     let unmap = bit b 3;
     (if \<not> unmap \<and> (anchor \<or> ndob) then
        fail_field cmd ctrl_offs (BIT_OFFS (if ndob then 0 else 4)) 1
      else do {
        let cmd = (if ndob then cmd\<lparr>bufflen := 0, data_direction := SCST_DATA_NONE\<rparr>
                   else cmd\<lparr>bufflen := 1, data_direction := SCST_DATA_WRITE\<rparr>);
        if cdb_len cmd < 32 then scst_parse_wrprotect cmd else scst_parse_wrprotect32 cmd }) }"

definition get_cdb_info_write_same10 :: "scst_cmd \<Rightarrow> scst_sdbops \<Rightarrow> parse_result" where
  "get_cdb_info_write_same10 cmd sdbops = do {
     l \<leftarrow> get_unaligned_be32 (cdb cmd) (info_lba_off sdbops);
     n \<leftarrow> get_unaligned_be16 (cdb cmd) (info_len_off sdbops);
     get_cdb_info_write_same (cmd\<lparr>lba := ucast l, data_len := ucast n\<rparr>) sdbops False }"

definition get_cdb_info_write_same16 :: "scst_cmd \<Rightarrow> scst_sdbops \<Rightarrow> parse_result" where
  "get_cdb_info_write_same16 cmd sdbops = do {
     l \<leftarrow> get_unaligned_be64 (cdb cmd) (info_lba_off sdbops);
     n \<leftarrow> get_unaligned_be32 (cdb cmd) (info_len_off sdbops);
     b \<leftarrow> rd (cdb cmd) 1;
     get_cdb_info_write_same (cmd\<lparr>lba := l, data_len := ucast n\<rparr>) sdbops (b AND 1 \<noteq> 0) }"

definition get_cdb_info_write_same32 :: "scst_cmd \<Rightarrow> scst_sdbops \<Rightarrow> parse_result" where
  "get_cdb_info_write_same32 cmd sdbops = do {
     l \<leftarrow> get_unaligned_be64 (cdb cmd) (info_lba_off sdbops);
     n \<leftarrow> get_unaligned_be32 (cdb cmd) (info_len_off sdbops);
     b \<leftarrow> rd (cdb cmd) 10;
     get_cdb_info_write_same (cmd\<lparr>lba := l, data_len := ucast n\<rparr>) sdbops (b AND 1 \<noteq> 0) }"

definition get_cdb_info_compare_and_write :: "scst_cmd \<Rightarrow> scst_sdbops \<Rightarrow> parse_result" where
  "get_cdb_info_compare_and_write cmd sdbops = do {
     l \<leftarrow> get_unaligned_be64 (cdb cmd) (info_lba_off sdbops);
     n \<leftarrow> rd (cdb cmd) (info_len_off sdbops);
     let cmd = cmd\<lparr>lba := l, data_len := ucast n\<rparr>;
     scst_parse_wrprotect (cmd\<lparr>bufflen := ucast (2 * data_len cmd)\<rparr>) }"

definition get_cdb_info_ext_copy :: "scst_cmd \<Rightarrow> scst_sdbops \<Rightarrow> parse_result" where
  "get_cdb_info_ext_copy cmd sdbops = do {
     b \<leftarrow> rd (cdb cmd) 1;
     if b \<noteq> 0 then fail_field cmd 1 (BIT_OFFS 0) 1 else get_cdb_info_len_4 cmd sdbops }"

text \<open>The transfer length of an ATA pass-through command (the \<^verbatim>\<open>switch\<close> over
  the opcode in \<^verbatim>\<open>get_cdb_info_apt\<close>); a length of type 3 is not
  implemented and counts as zero.\<close>

definition apt_length :: "byte list \<Rightarrow> 32 word option" where
  "apt_length p = do {
     op \<leftarrow> rd p 0; b1 \<leftarrow> rd p 1; b2 \<leftarrow> rd p 2;
     let t_length = b2 AND 3;
     let extend = b1 AND 1 \<noteq> 0;
     (if op = 0xA1 then
        if t_length = 1 then map_option ucast (rd p 3)
        else if t_length = 2 then map_option ucast (rd p 4)
        else Some 0
      else if op = 0x85 then
        if t_length = 1 then
          if extend then map_option ucast (get_unaligned_be16 p 3) else map_option ucast (rd p 4)
        else if t_length = 2 then
          if extend then map_option ucast (get_unaligned_be16 p 5) else map_option ucast (rd p 6)
        else Some 0
      else Some 0) }"

definition scst_cdb_length :: "nat list" where
  "scst_cdb_length = [6, 10, 10, 32, 16, 12, 0, 0]"

definition SCST_CDB_GROUP :: "byte \<Rightarrow> nat" where
  "SCST_CDB_GROUP opcode = unat (drop_bit 5 opcode AND 0x7)"

definition SCST_GET_CDB_LEN :: "byte \<Rightarrow> nat" where
  "SCST_GET_CDB_LEN opcode = scst_cdb_length ! SCST_CDB_GROUP opcode"

definition get_cdb_info_apt :: "scst_cmd \<Rightarrow> scst_sdbops \<Rightarrow> parse_result" where
  "get_cdb_info_apt cmd sdbops = do {
     op \<leftarrow> rd (cdb cmd) 0; b1 \<leftarrow> rd (cdb cmd) 1; b2 \<leftarrow> rd (cdb cmd) 2;
     let multiple = unat (drop_bit 5 b1);
     let protocol = drop_bit 1 b1 AND 0xf;
     let t_type = bit b2 4;
     let t_dir = bit b2 3;
     let byte_block = bit b2 2;
     let t_length = b2 AND 3;
     (if protocol = 0xf then Some (0, cmd\<lparr>op_flags := SCST_INFO_VALID\<rparr>)
      else do {
        n \<leftarrow> apt_length (cdb cmd);
        let cmd = cmd\<lparr>cdb_len := SCST_GET_CDB_LEN op\<rparr>;
        n \<leftarrow> (if t_length \<noteq> 0 \<and> byte_block then
                if t_type then map_option (\<lambda>dev. n * block_size dev) (cmd_dev cmd)
                else Some (n * 512)
              else Some n);
        let cmd = cmd\<lparr>data_direction := (if t_length = 0 then SCST_DATA_NONE
                        else if t_dir then SCST_DATA_READ else SCST_DATA_WRITE), lba := 0\<rparr>;
        Some (0, (set_bufflen (push_bit multiple n) cmd)\<lparr>op_flags := SCST_INFO_VALID\<rparr>) }) }"

definition get_cdb_info_min :: "scst_cmd \<Rightarrow> scst_sdbops \<Rightarrow> parse_result" where
  "get_cdb_info_min cmd sdbops = do {
     b \<leftarrow> rd (cdb cmd) 1;
     let act = b AND 0x1f;
     cmd \<leftarrow> (if act = 0x05 then
                Some (cmd\<lparr>op_name := ''REPORT IDENTIFYING INFORMATION'',
                          op_flags := op_flags cmd OR ALL_ALLOWED\<rparr>)
              else if act = 0x0a then
                Some (cmd\<lparr>op_name := ''REPORT TARGET PORT GROUPS'',
                          op_flags := op_flags cmd OR ALL_ALLOWED\<rparr>)
              else if act = 0x0c then do {
                dev \<leftarrow> cmd_dev cmd;
                Some (cmd\<lparr>op_name := ''REPORT SUPPORTED OPERATION CODES'',
                          op_flags := op_flags cmd OR SCST_WRITE_EXCL_ALLOWED OR
                            (if has_get_supported_opcodes dev
                             then SCST_LOCAL_CMD OR SCST_FULLY_LOCAL_CMD else 0)\<rparr>) }
              else if act = 0x0d then
                Some (cmd\<lparr>op_name := ''REPORT SUPPORTED TASK MANAGEMENT FUNCTIONS'',
                          op_flags := op_flags cmd OR (SCST_WRITE_EXCL_ALLOWED OR
                            SCST_LOCAL_CMD OR SCST_FULLY_LOCAL_CMD)\<rparr>)
              else Some cmd);
     get_cdb_info_len_4 cmd sdbops }"

text \<open>SET TARGET PORT GROUPS also puts the command on a global list, which the command's flag
  records.\<close>

definition get_cdb_info_mo :: "scst_cmd \<Rightarrow> scst_sdbops \<Rightarrow> parse_result" where
  "get_cdb_info_mo cmd sdbops = do {
     b \<leftarrow> rd (cdb cmd) 1;
     get_cdb_info_len_4
       (if b AND 0x1f = 0x0a
        then cmd\<lparr>op_name := ''SET TARGET PORT GROUPS'',
                 op_flags := op_flags cmd OR SCST_STRICTLY_SERIALIZED,
                 cmd_on_global_stpg_list := True\<rparr>
        else cmd) sdbops }"

section \<open>Dispatch\<close>

text \<open>The call through \<^verbatim>\<open>ptr->get_cdb_info\<close> for every routine but
  \<^verbatim>\<open>get_cdb_info_var_len\<close>, which itself calls one of these.\<close>

primrec call_cdb_info :: "cdb_info_fn \<Rightarrow> scst_cmd \<Rightarrow> scst_sdbops \<Rightarrow> parse_result" where
  "call_cdb_info cdb_info_none cmd ptr = get_cdb_info_none cmd ptr"
| "call_cdb_info cdb_info_len_1 cmd ptr = get_cdb_info_len_1 cmd ptr"
| "call_cdb_info cdb_info_fmt cmd ptr = get_cdb_info_fmt cmd ptr"
| "call_cdb_info cdb_info_len_2 cmd ptr = get_cdb_info_len_2 cmd ptr"
| "call_cdb_info cdb_info_block_limit cmd ptr = get_cdb_info_block_limit cmd ptr"
| "call_cdb_info cdb_info_lba_3_len_1_256_read cmd ptr = get_cdb_info_lba_3_len_1_256_read cmd ptr"
| "call_cdb_info cdb_info_len_3 cmd ptr = get_cdb_info_len_3 cmd ptr"
| "call_cdb_info cdb_info_lba_3_len_1_256_write cmd ptr = get_cdb_info_lba_3_len_1_256_write cmd ptr"
| "call_cdb_info cdb_info_lba_2_none cmd ptr = get_cdb_info_lba_2_none cmd ptr"
| "call_cdb_info cdb_info_verify6 cmd ptr = get_cdb_info_verify6 cmd ptr"
| "call_cdb_info cdb_info_start_stop cmd ptr = get_cdb_info_start_stop cmd ptr"
| "call_cdb_info cdb_info_prevent_allow_medium_removal cmd ptr = get_cdb_info_prevent_allow_medium_removal cmd ptr"
| "call_cdb_info cdb_info_read_capacity cmd ptr = get_cdb_info_read_capacity cmd ptr"
| "call_cdb_info cdb_info_read_10 cmd ptr = get_cdb_info_read_10 cmd ptr"
| "call_cdb_info cdb_info_lba_4_len_2_wrprotect cmd ptr = get_cdb_info_lba_4_len_2_wrprotect cmd ptr"
| "call_cdb_info cdb_info_lba_4_none cmd ptr = get_cdb_info_lba_4_none cmd ptr"
| "call_cdb_info cdb_info_single cmd ptr = get_cdb_info_single cmd ptr"
| "call_cdb_info cdb_info_verify10 cmd ptr = get_cdb_info_verify10 cmd ptr"
| "call_cdb_info cdb_info_read_pos cmd ptr = get_cdb_info_read_pos cmd ptr"
| "call_cdb_info cdb_info_lba_4_len_2 cmd ptr = get_cdb_info_lba_4_len_2 cmd ptr"
| "call_cdb_info cdb_info_write_same10 cmd ptr = get_cdb_info_write_same10 cmd ptr"
| "call_cdb_info cdb_info_bidi_lba_4_len_2 cmd ptr = get_cdb_info_bidi_lba_4_len_2 cmd ptr"
| "call_cdb_info cdb_info_len_4 cmd ptr = get_cdb_info_len_4 cmd ptr"
| "call_cdb_info cdb_info_var_len cmd ptr = None"
| "call_cdb_info cdb_info_ext_copy cmd ptr = get_cdb_info_ext_copy cmd ptr"
| "call_cdb_info cdb_info_apt cmd ptr = get_cdb_info_apt cmd ptr"
| "call_cdb_info cdb_info_read_16 cmd ptr = get_cdb_info_read_16 cmd ptr"
| "call_cdb_info cdb_info_compare_and_write cmd ptr = get_cdb_info_compare_and_write cmd ptr"
| "call_cdb_info cdb_info_lba_8_len_4_wrprotect cmd ptr = get_cdb_info_lba_8_len_4_wrprotect cmd ptr"
| "call_cdb_info cdb_info_verify16 cmd ptr = get_cdb_info_verify16 cmd ptr"
| "call_cdb_info cdb_info_lba_8_none cmd ptr = get_cdb_info_lba_8_none cmd ptr"
| "call_cdb_info cdb_info_write_same16 cmd ptr = get_cdb_info_write_same16 cmd ptr"
| "call_cdb_info cdb_info_serv_act_in cmd ptr = get_cdb_info_serv_act_in cmd ptr"
| "call_cdb_info cdb_info_min cmd ptr = get_cdb_info_min cmd ptr"
| "call_cdb_info cdb_info_mo cmd ptr = get_cdb_info_mo cmd ptr"
| "call_cdb_info cdb_info_lba_4_len_4_rdprotect cmd ptr = get_cdb_info_lba_4_len_4_rdprotect cmd ptr"
| "call_cdb_info cdb_info_lba_4_len_4_wrprotect cmd ptr = get_cdb_info_lba_4_len_4_wrprotect cmd ptr"
| "call_cdb_info cdb_info_verify12 cmd ptr = get_cdb_info_verify12 cmd ptr"
| "call_cdb_info cdb_info_len_3_read_elem_stat cmd ptr = get_cdb_info_len_3_read_elem_stat cmd ptr"
| "call_cdb_info cdb_info_len_10 cmd ptr = get_cdb_info_len_10 cmd ptr"
| "call_cdb_info cdb_info_lba_8_len_4_rdprotect32 cmd ptr = get_cdb_info_lba_8_len_4_rdprotect32 cmd ptr"
| "call_cdb_info cdb_info_verify32 cmd ptr = get_cdb_info_verify32 cmd ptr"
| "call_cdb_info cdb_info_lba_8_len_4_wrprotect32 cmd ptr = get_cdb_info_lba_8_len_4_wrprotect32 cmd ptr"
| "call_cdb_info cdb_info_write_same32 cmd ptr = get_cdb_info_write_same32 cmd ptr"

text \<open>\<^verbatim>\<open>scst_set_cmd_from_cdb_info\<close>.  The two control bits are assigned to
  one-bit fields, which keep only the lowest bit of the value.  A command length of zero
  makes the index of the control byte negative.\<close>

definition control_byte :: "scst_cmd \<Rightarrow> byte option" where
  "control_byte cmd = (if cdb_len cmd = 0 then None else rd (cdb cmd) (cdb_len cmd - 1))"

definition scst_set_cmd_from_cdb_info ::
  "(cdb_info_fn \<Rightarrow> scst_cmd \<Rightarrow> scst_sdbops \<Rightarrow> parse_result) \<Rightarrow> scst_cmd \<Rightarrow> scst_sdbops \<Rightarrow> parse_result" where
  "scst_set_cmd_from_cdb_info call cmd ptr = do {
     op \<leftarrow> rd (cdb cmd) 0;
     let cmd = cmd\<lparr>cdb_len := SCST_GET_CDB_LEN op\<rparr>;
     c \<leftarrow> control_byte cmd;
     let cmd = cmd\<lparr>cmd_naca := bit (c AND 0x04) 0, cmd_linked := bit (c AND 0x01) 0,
                   op_name := info_op_name ptr,
                   data_direction := info_data_direction ptr,
                   op_flags := info_op_flags ptr OR SCST_INFO_VALID,
                   lba_off := info_lba_off ptr, lba_len := info_lba_len ptr,
                   len_off := info_len_off ptr, len_len := info_len_len ptr\<rparr>;
     call (get_cdb_info ptr) cmd ptr }"

definition get_cdb_info_var_len :: "scst_cmd \<Rightarrow> scst_sdbops \<Rightarrow> parse_result" where
  "get_cdb_info_var_len cmd sdbops = do {
     n \<leftarrow> get_unaligned_be16 (cdb cmd) 8;
     let i = (ucast n :: 32 word) - 0x09;
     (if unat i \<ge> length scst_scsi_op32_table then
        Some (- 1, cmd\<lparr>op_flags := op_flags cmd AND NOT SCST_INFO_VALID\<rparr>)
      else do {
        ptr \<leftarrow> rd scst_scsi_op32_table (unat i);
        b7 \<leftarrow> rd (cdb cmd) 7;
        (if b7 \<noteq> 0x18 then
           fail_field (cmd\<lparr>op_flags := op_flags cmd OR SCST_LBA_NOT_VALID\<rparr>) 7 0 1
         else do {
           (res, cmd) \<leftarrow> scst_set_cmd_from_cdb_info call_cdb_info cmd ptr;
           b1 \<leftarrow> rd (cdb cmd) 1;
           Some (res, cmd\<lparr>cmd_naca := bit (b1 AND 0x04) 0, cmd_linked := bit (b1 AND 0x01) 0\<rparr>) }) }) }"

definition call_get_cdb_info :: "cdb_info_fn \<Rightarrow> scst_cmd \<Rightarrow> scst_sdbops \<Rightarrow> parse_result" where
  "call_get_cdb_info f cmd ptr =
     (if f = cdb_info_var_len then get_cdb_info_var_len cmd ptr else call_cdb_info f cmd ptr)"

section \<open>Finding the entry of an opcode\<close>

text \<open>\<^verbatim>\<open>scst_scsi_op_list_init\<close>: for every opcode the index of the first entry
  of its run, or the size of the table.\<close>

fun op_list_loop :: "scst_sdbops list \<Rightarrow> nat \<Rightarrow> byte \<Rightarrow> nat list \<Rightarrow> nat list" where
  "op_list_loop [] i op l = l"
| "op_list_loop (e # es) i op l =
     (if ops e \<noteq> op then op_list_loop es (i + 1) (ops e) (l[unat (ops e) := i])
      else op_list_loop es (i + 1) op l)"

definition scst_scsi_op_list_init :: "scst_sdbops list \<Rightarrow> nat list" where
  "scst_scsi_op_list_init table = op_list_loop table 0 0xff (replicate 256 (length table))"

text \<open>The device type indexes the 16 bytes of the key; a shorter string literal is filled up
  with null bytes.\<close>

definition devkey_at :: "scst_sdbops \<Rightarrow> nat \<Rightarrow> char" where
  "devkey_at e t = (if t < length (devkey e) then devkey e ! t else CHR 0x00)"

function op_scan :: "scst_sdbops list \<Rightarrow> byte \<Rightarrow> nat \<Rightarrow> nat \<Rightarrow> scst_sdbops option" where
  "op_scan table op t i =
     (if i < length table \<and> ops (table ! i) = op then
        if devkey_at (table ! i) t \<noteq> CHR '' '' then Some (table ! i)
        else op_scan table op t (i + 1)
      else None)"
  by pat_completeness auto
termination by (relation "measure (\<lambda>(table, op, t, i). length table - i)") auto

declare op_scan.simps [simp del]

definition scst_get_cdb_info :: "scst_cmd \<Rightarrow> parse_result" where
  "scst_get_cdb_info cmd = do {
     dev \<leftarrow> cmd_dev cmd;
     op \<leftarrow> rd (cdb cmd) 0;
     i \<leftarrow> rd (scst_scsi_op_list_init scst_scsi_op_table) (unat op);
     (if dev_type dev \<ge> 16 then None
      else (case op_scan scst_scsi_op_table op (dev_type dev) i of
          None \<Rightarrow> Some (- 1, cmd\<lparr>op_flags := op_flags cmd OR SCST_LBA_NOT_VALID\<rparr>)
        | Some ptr \<Rightarrow> scst_set_cmd_from_cdb_info call_get_cdb_info cmd ptr)) }"

section \<open>Specification\<close>

text \<open>The entry of an opcode for a device type, found by looking through the whole table.\<close>

definition op_lookup :: "scst_sdbops list \<Rightarrow> byte \<Rightarrow> nat \<Rightarrow> scst_sdbops option" where
  "op_lookup table op t = find (\<lambda>e. ops e = op \<and> devkey_at e t \<noteq> CHR '' '') table"

definition ops_sorted :: "scst_sdbops list \<Rightarrow> bool" where
  "ops_sorted table = sorted (map (\<lambda>e. unat (ops e)) table)"

text \<open>A command as the target drivers hand it over: it has a device of a known type, its
  command block is in a buffer of at least 16 bytes and of at least the length its opcode
  stands for, and no error has been reported.\<close>

definition cmd_wf :: "scst_cmd \<Rightarrow> bool" where
  "cmd_wf cmd = (cmd_sense_ok cmd \<and> cmd_status cmd = 0 \<and> \<not> cmd_naca cmd \<and>
     16 \<le> length (cdb cmd) \<and> cmd_dev cmd \<noteq> None)"

definition cdb_complete :: "scst_cmd \<Rightarrow> bool" where
  "cdb_complete cmd = (SCST_GET_CDB_LEN (cdb cmd ! 0) \<le> length (cdb cmd) \<and>
     SCST_GET_CDB_LEN (cdb cmd ! 0) \<noteq> 0)"

text \<open>What every parse of a command guarantees: no access leaves an object, the command block
  and the device are unchanged, a positive return value goes with a reported error and every
  other value with none, and the NACA flag is not set.\<close>

definition parse_ok :: "scst_cmd \<Rightarrow> parse_result \<Rightarrow> bool" where
  "parse_ok cmd r = (case r of None \<Rightarrow> False
     | Some (res, cmd') \<Rightarrow> cdb cmd' = cdb cmd \<and> cmd_dev cmd' = cmd_dev cmd \<and> cmd_sense_ok cmd' \<and>
         \<not> cmd_naca cmd' \<and> (res > 0 \<longleftrightarrow> cmd_status cmd' \<noteq> 0))"

text \<open>The command \<open>c\<close> is \<open>cmd\<close> with none of its block, device, sense buffer
  and status changed.\<close>

definition cmd_keeps :: "scst_cmd \<Rightarrow> scst_cmd \<Rightarrow> bool" where
  "cmd_keeps cmd c = (cdb c = cdb cmd \<and> cmd_dev c = cmd_dev cmd \<and> cmd_sense c = cmd_sense cmd \<and>
     sense_buflen c = sense_buflen cmd \<and> \<not> cmd_naca c \<and> cmd_status c = 0)"

text \<open>The widest accesses the routine of an entry makes stay inside of the first \<open>n\<close>
  bytes.\<close>

definition entry_fits :: "nat \<Rightarrow> scst_sdbops \<Rightarrow> bool" where
  "entry_fits n e = (info_lba_off e + 8 \<le> n \<and>
     info_len_off e + (if get_cdb_info e = cdb_info_compare_and_write then 1 else 4) \<le> n)"

text \<open>A routine for 32-byte blocks needs 32 bytes; every other one stays within the offsets of
  its entry and the first 16 bytes.\<close>

definition needs_32 :: "cdb_info_fn \<Rightarrow> bool" where
  "needs_32 f = (f \<in> {cdb_info_lba_8_len_4_rdprotect32, cdb_info_verify32,
     cdb_info_lba_8_len_4_wrprotect32, cdb_info_write_same32})"

text \<open>The position of the first entry with an opcode.\<close>

definition first_index :: "byte \<Rightarrow> scst_sdbops list \<Rightarrow> nat" where
  "first_index op es = length (takeWhile (\<lambda>e. ops e \<noteq> op) es)"

text \<open>A disk without protection information and a command for it, used as examples.\<close>

definition ex_disk :: scst_device where
  "ex_disk = \<lparr>dev_type = 0, d_sense = False, dpicz = False, block_size = 512, block_shift = 9,
     dev_dif_mode = 0, dev_dif_type = 0, dif_app_chk = 0, dif_ref_chk = 0, dev_dif_rd_actions = 0,
     dev_dif_rd_prot0_actions = 0, dev_dif_wr_actions = 0, dev_dif_wr_prot0_actions = 0,
     has_get_supported_opcodes = False\<rparr>"

definition ex_cdb :: "byte \<Rightarrow> scst_cmd" where
  "ex_cdb op = ex_cmd\<lparr>cdb := op # replicate 15 0, cmd_dev := Some ex_disk\<rparr>"

section \<open>The index of opcodes finds the first entry\<close>

lemma op_scan_takeWhile:
  "op_scan table op t i =
     find (\<lambda>e. devkey_at e t \<noteq> CHR '' '') (takeWhile (\<lambda>e. ops e = op) (drop i table))"
proof (induction table op t i rule: op_scan.induct)
  case (1 table op t i)
  show ?case
  proof (cases "i < length table")
    case True
    then have "drop i table = table ! i # drop (i + 1) table"
      by (simp add: Cons_nth_drop_Suc)
    then show ?thesis
      using 1 True by (subst op_scan.simps) (auto simp del: drop_drop)
  qed (subst op_scan.simps, simp)
qed

lemma op_list_loop_length: "length (op_list_loop es i op l) = length l"
  by (induction es i op l rule: op_list_loop.induct) auto

lemma op_list_loop_index:
  assumes "ops_sorted es" "length l = 256" "op \<in> ops ` set es \<longrightarrow> ops (hd es) = op"
  shows "op_list_loop es i op l ! unat o' =
     (if o' \<in> ops ` set es \<and> o' \<noteq> op then i + first_index o' es else l ! unat o')"
  using assms
proof (induction es i op l rule: op_list_loop.induct)
  case (2 e es i op l)
  have sorted: "ops_sorted es" and le: "\<And>e'. e' \<in> set es \<Longrightarrow> unat (ops e) \<le> unat (ops e')"
    using 2(3) by (auto simp: ops_sorted_def)
  have next_op: "ops e \<in> ops ` set es \<longrightarrow> ops (hd es) = ops e"
  proof
    assume "ops e \<in> ops ` set es"
    then obtain e' where "e' \<in> set es" "ops e' = ops e" by auto
    moreover from this have "unat (ops (hd es)) \<le> unat (ops e')"
      using sorted by (cases es) (auto simp: ops_sorted_def)
    moreover have "unat (ops e) \<le> unat (ops (hd es))"
      using le \<open>e' \<in> set es\<close> by (cases es) auto
    ultimately show "ops (hd es) = ops e" by (simp add: word_unat_eq_iff)
  qed
  show ?case
  proof (cases "ops e = op")
    case True
    then show ?thesis
      using "2.IH"(2)[OF _ sorted 2(4)] next_op by (auto simp: first_index_def)
  next
    case False
    then have "op \<notin> ops ` set es" using 2(5) by auto
    then show ?thesis
      using "2.IH"(1)[OF False sorted _ next_op] 2(4) False
      by (auto simp: first_index_def nth_list_update word_unat_eq_iff[symmetric])
  qed
qed (simp add: first_index_def)

lemma find_skip: "(\<And>x. x \<in> set xs \<Longrightarrow> \<not> P x) \<Longrightarrow> find P (xs @ ys) = find P ys"
  by (induction xs) auto

lemma find_none: "(\<And>x. x \<in> set xs \<Longrightarrow> \<not> P x) \<Longrightarrow> find P xs = None"
  by (induction xs) auto

lemma find_run:
  assumes "ops_sorted es" "es \<noteq> [] \<longrightarrow> ops (hd es) = op"
  shows "find Q (takeWhile (\<lambda>e. ops e = op) es) = find (\<lambda>e. ops e = op \<and> Q e) es"
  using assms
proof (induction es)
  case (Cons e es)
  show ?case
  proof (cases "es = [] \<or> ops (hd es) = op")
    case True
    then show ?thesis using Cons by (auto simp: ops_sorted_def)
  next
    case False
    have "unat op < unat (ops e')" if "e' \<in> set es" for e'
    proof -
      have "unat op \<le> unat (ops (hd es))" "unat (ops (hd es)) \<le> unat (ops e')"
        using Cons.prems False that by (cases es; auto simp: ops_sorted_def)+
      moreover have "unat op \<noteq> unat (ops (hd es))" using False by (simp add: word_unat_eq_iff)
      ultimately show ?thesis by simp
    qed
    then have "find (\<lambda>e. ops e = op \<and> Q e) es = None" "takeWhile (\<lambda>e. ops e = op) es = []"
      by (fastforce intro: find_none, cases es) (use False in auto)
    then show ?thesis using Cons.prems by auto
  qed
qed simp

lemma op_scan_lookup:
  assumes "ops_sorted table" "(0xff :: byte) \<notin> ops ` set table"
  shows "op_scan table op t (scst_scsi_op_list_init table ! unat op) = op_lookup table op t"
proof -
  let ?skip = "takeWhile (\<lambda>e. ops e \<noteq> op) table"
  let ?rest = "dropWhile (\<lambda>e. ops e \<noteq> op) table"
  have "unat op < 256" by simp
  then have idx: "scst_scsi_op_list_init table ! unat op =
      (if op \<in> ops ` set table then first_index op table else length table)"
    unfolding scst_scsi_op_list_init_def
    using op_list_loop_index[OF assms(1), of "replicate 256 (length table)" "0xff" 0 op] assms(2)
    by auto
  show ?thesis
  proof (cases "op \<in> ops ` set table")
    case True
    have drop: "drop (first_index op table) table = ?rest"
      by (simp add: first_index_def dropWhile_eq_drop)
    have "ops_sorted ?rest"
      using assms(1) unfolding ops_sorted_def drop[symmetric] by (simp add: sorted_wrt_drop drop_map[symmetric])
    moreover have "?rest \<noteq> [] \<longrightarrow> ops (hd ?rest) = op"
      using hd_dropWhile[of "\<lambda>e. ops e \<noteq> op" table] by blast
    ultimately have "find (\<lambda>e. devkey_at e t \<noteq> CHR '' '') (takeWhile (\<lambda>e. ops e = op) ?rest)
        = find (\<lambda>e. ops e = op \<and> devkey_at e t \<noteq> CHR '' '') ?rest"
      by (rule find_run)
    also have "\<dots> = find (\<lambda>e. ops e = op \<and> devkey_at e t \<noteq> CHR '' '') (?skip @ ?rest)"
      by (rule find_skip[symmetric]) (auto dest: set_takeWhileD)
    finally show ?thesis
      using True idx drop by (simp add: op_scan_takeWhile op_lookup_def)
  next
    case False
    then have "op_lookup table op t = None"
      unfolding op_lookup_def by (intro find_none) auto
    then show ?thesis using False idx by (simp add: op_scan_takeWhile)
  qed
qed

section \<open>Facts of the tables\<close>

lemmas table_defs = scst_scsi_op_table_def scst_scsi_op_table_1_def scst_scsi_op_table_2_def
  scst_scsi_op_table_3_def scst_scsi_op_table_4_def scst_scsi_op_table_5_def
  scst_scsi_op_table_6_def scst_scsi_op_table_7_def scst_scsi_op_table_8_def

lemma sdbops_make_sel:
  "ops (scst_sdbops.make a b c d e f g h i j) = a"
  "devkey (scst_sdbops.make a b c d e f g h i j) = b"
  "info_lba_off (scst_sdbops.make a b c d e f g h i j) = c"
  "info_lba_len (scst_sdbops.make a b c d e f g h i j) = d"
  "info_len_off (scst_sdbops.make a b c d e f g h i j) = e"
  "info_len_len (scst_sdbops.make a b c d e f g h i j) = f"
  "info_data_direction (scst_sdbops.make a b c d e f g h i j) = g"
  "info_op_flags (scst_sdbops.make a b c d e f g h i j) = h"
  "info_op_name (scst_sdbops.make a b c d e f g h i j) = i"
  "get_cdb_info (scst_sdbops.make a b c d e f g h i j) = j"
  by (simp_all add: scst_sdbops.make_def)

lemma table_sorted: "ops_sorted scst_scsi_op_table"
  by (simp add: ops_sorted_def table_defs sdbops_make_sel sorted2 sorted_wrt1 del: sorted_wrt.simps)

lemma table_no_ff: "list_all (\<lambda>e. ops e \<noteq> 0xff) scst_scsi_op_table"
  by (simp add: table_defs sdbops_make_sel)

lemma table_fits: "list_all (entry_fits 16) scst_scsi_op_table"
  by (simp add: table_defs sdbops_make_sel entry_fits_def)

lemma table32_fits:
  "list_all (\<lambda>e. entry_fits 32 e \<and> ops e = 0x7F \<and> get_cdb_info e \<noteq> cdb_info_var_len)
     scst_scsi_op32_table"
  by (simp add: scst_scsi_op32_table_def sdbops_make_sel entry_fits_def)

lemma table_var_len:
  "list_all (\<lambda>e. (get_cdb_info e = cdb_info_var_len) = (ops e = 0x7F)) scst_scsi_op_table"
  by (simp add: table_defs sdbops_make_sel)

section \<open>Parsing is total\<close>

lemma cmd_sense_ok_keeps: "cmd_keeps cmd c \<Longrightarrow> cmd_wf cmd \<Longrightarrow> cmd_sense_ok c"
  by (auto simp: cmd_keeps_def cmd_wf_def cmd_sense_ok_def split: option.splits)

lemma cmd_wf_keeps: "cmd_keeps cmd c \<Longrightarrow> cmd_wf cmd \<Longrightarrow> cmd_wf c"
  using cmd_sense_ok_keeps[of cmd c] by (simp add: cmd_wf_def cmd_keeps_def)

lemma parse_ok_keeps: "cmd_keeps cmd c \<Longrightarrow> parse_ok c r \<Longrightarrow> parse_ok cmd r"
  by (auto simp: parse_ok_def cmd_keeps_def split: option.splits)

lemma parse_ok_Some: "cmd_wf cmd \<Longrightarrow> cmd_keeps cmd c \<Longrightarrow> r \<le> 0 \<Longrightarrow> parse_ok cmd (Some (r, c))"
  using cmd_sense_ok_keeps[of cmd c] by (simp add: parse_ok_def cmd_keeps_def)

lemma fail_field_ok:
  assumes "cmd_wf cmd" "cmd_keeps cmd c" "0 < r"
  shows "parse_ok cmd (fail_field c f b r)"
  using error_reports(1)[OF cmd_sense_ok_keeps[OF assms(2,1)], of f b] assms
    cmd_sense_ok_keeps[OF assms(2,1)]
  by (auto simp: fail_field_def parse_ok_def cmd_frame_def cmd_keeps_def)

lemma fail_opcode_ok:
  assumes "cmd_wf cmd" "cmd_keeps cmd c"
  shows "parse_ok cmd (fail_opcode c)"
  using error_reports(3)[OF cmd_sense_ok_keeps[OF assms(2,1)], of "0x20" 5 0] assms
    cmd_sense_ok_keeps[OF assms(2,1)]
  by (auto simp: fail_opcode_def parse_ok_def cmd_frame_def cmd_keeps_def)

lemma cmd_wfE:
  assumes "cmd_wf cmd"
  obtains dev where "cmd_dev cmd = Some dev" "16 \<le> length (cdb cmd)" "\<not> cmd_naca cmd"
    "cmd_status cmd = 0"
  using assms by (auto simp: cmd_wf_def)

lemmas parse_ok_intros = parse_ok_Some fail_field_ok fail_opcode_ok

lemma rdprotect_value_ok: "cmd_wf cmd \<Longrightarrow> parse_ok cmd (scst_parse_rdprotect_value cmd p off)"
  by (rule cmd_wfE[of cmd], assumption)
    (auto simp: scst_parse_rdprotect_value_def cmd_keeps_def intro!: parse_ok_intros)

lemma wrprotect_value_ok: "cmd_wf cmd \<Longrightarrow> parse_ok cmd (scst_parse_wrprotect_value cmd p off)"
  by (rule cmd_wfE[of cmd], assumption)
    (auto simp: scst_parse_wrprotect_value_def cmd_keeps_def intro!: parse_ok_intros)

lemma and_4_eq_0_iff: "(b :: byte) AND 4 = 0 \<longleftrightarrow> \<not> bit b 2"
  using and_exp_eq_0_iff_not_bit[of b 2] by simp

lemma bytchk_le_1:
  assumes "(b :: byte) AND 4 = 0"
  shows "unat (drop_bit 1 (b AND 6)) \<le> 1"
proof -
  have nb: "\<not> bit b 2" using assms by (simp add: and_4_eq_0_iff)
  have "b AND 6 = (if bit b 1 then 2 else 0)"
  proof (rule bit_word_eqI)
    fix n assume "n < LENGTH(8)"
    then have "n \<in> {0, 1, 2, 3, 4, 5, 6, 7}" by auto
    then show "bit (b AND 6) n = bit (if bit b 1 then 2 else 0 :: byte) n"
      using nb by (auto simp: bit_simps bit_numeral_rec)
  qed
  then show ?thesis by auto
qed

lemma vrprotect_value_ok:
  assumes "cmd_wf cmd" "off < length (cdb cmd)" "(cdb cmd ! off) AND 4 = 0"
  shows "parse_ok cmd (scst_parse_vrprotect_value cmd off)"
proof -
  have "unat (drop_bit 1 (cdb cmd ! off AND 6)) = 0 \<or> unat (drop_bit 1 (cdb cmd ! off AND 6)) = 1"
    using bytchk_le_1[OF assms(3)] by linarith
  then show ?thesis
    by (rule_tac cmd_wfE[OF assms(1)])
      (use assms in \<open>auto simp: scst_parse_vrprotect_value_def cmd_keeps_def Let_def mem_simps
        intro!: parse_ok_intros\<close>)
qed

lemma cmd_sense_ok_cong:
  "cmd_sense c = cmd_sense d \<Longrightarrow> sense_buflen c = sense_buflen d \<Longrightarrow> cmd_sense_ok c = cmd_sense_ok d"
  by (cases "cmd_sense d") (simp_all add: cmd_sense_ok_def)

lemma parse_ok_map:
  assumes "parse_ok cmd r"
    "\<And>res c. r = Some (res, c) \<Longrightarrow> cdb (g res c) = cdb c \<and> cmd_dev (g res c) = cmd_dev c \<and>
       cmd_sense (g res c) = cmd_sense c \<and> sense_buflen (g res c) = sense_buflen c \<and>
       (cmd_naca (g res c) \<longrightarrow> cmd_naca c) \<and> cmd_status (g res c) = cmd_status c"
  shows "parse_ok cmd (do { (res, c) \<leftarrow> r; Some (res, g res c) })"
proof (cases r)
  case (Some x)
  obtain res c where x: "x = (res, c)" by fastforce
  with Some assms have "cmd_sense_ok (g res c) = cmd_sense_ok c"
    by (intro cmd_sense_ok_cong) auto
  then show ?thesis using assms Some x by (auto simp: parse_ok_def)
qed (use assms in \<open>simp add: parse_ok_def\<close>)

lemma rdprotect_ok:
  assumes "cmd_wf cmd"
  shows "parse_ok cmd (scst_parse_rdprotect cmd)"
proof (rule cmd_wfE[OF assms])
  fix dev assume dev: "cmd_dev cmd = Some dev" "16 \<le> length (cdb cmd)" "\<not> cmd_naca cmd" "cmd_status cmd = 0"
  have value_ok: "parse_ok cmd (do { (res, c) \<leftarrow> scst_parse_rdprotect_value c0 p off;
      Some (res, if cmd_corrupt_dif_tag c \<noteq> 0 \<and> res = 0
         then c\<lparr>cmd_dif_actions := corrupt_dif_tag_actions (cmd_dif_actions c)\<rparr> else c) })"
    if "cmd_keeps cmd c0" for c0 p off
    by (rule parse_ok_map) (use parse_ok_keeps[OF that] rdprotect_value_ok[OF cmd_wf_keeps[OF that assms]] in auto)
  have keeps: "cmd_keeps cmd cmd" "cmd_keeps cmd (cmd\<lparr>cmd_corrupt_dif_tag := 0\<rparr>)"
    using dev by (simp_all add: cmd_keeps_def)
  show ?thesis
    using dev assms keeps
    by (auto simp: scst_parse_rdprotect_def Let_def mem_simps intro!: parse_ok_intros value_ok)
qed

lemma rdprotect32_ok:
  assumes "cmd_wf cmd" "32 \<le> length (cdb cmd)"
  shows "parse_ok cmd (scst_parse_rdprotect32 cmd)"
  by (rule cmd_wfE[OF assms(1)])
    (use assms in \<open>auto simp: scst_parse_rdprotect32_def cmd_keeps_def Let_def mem_simps
      intro!: parse_ok_intros rdprotect_value_ok\<close>)

lemma wrprotect_ok:
  assumes "cmd_wf cmd"
  shows "parse_ok cmd (scst_parse_wrprotect cmd)"
  by (rule cmd_wfE[OF assms])
    (use assms in \<open>auto simp: scst_parse_wrprotect_def cmd_keeps_def Let_def mem_simps
      intro!: parse_ok_intros wrprotect_value_ok\<close>)

lemma wrprotect32_ok:
  assumes "cmd_wf cmd" "32 \<le> length (cdb cmd)"
  shows "parse_ok cmd (scst_parse_wrprotect32 cmd)"
  by (rule cmd_wfE[OF assms(1)])
    (use assms in \<open>auto simp: scst_parse_wrprotect32_def cmd_keeps_def Let_def mem_simps
      intro!: parse_ok_intros wrprotect_value_ok\<close>)

lemma vrprotect_ok:
  assumes "cmd_wf cmd" "(cdb cmd ! 1) AND 4 = 0"
  shows "parse_ok cmd (scst_parse_vrprotect cmd)"
  by (rule cmd_wfE[OF assms(1)])
    (use assms in \<open>auto simp: scst_parse_vrprotect_def cmd_keeps_def Let_def mem_simps
      intro!: parse_ok_intros vrprotect_value_ok\<close>)

lemma vrprotect32_ok:
  assumes "cmd_wf cmd" "32 \<le> length (cdb cmd)" "(cdb cmd ! 10) AND 4 = 0"
  shows "parse_ok cmd (scst_parse_vrprotect32 cmd)"
  by (rule cmd_wfE[OF assms(1)])
    (use assms in \<open>auto simp: scst_parse_vrprotect32_def cmd_keeps_def Let_def mem_simps
      intro!: parse_ok_intros vrprotect_value_ok\<close>)

lemma get_unaligned_Some [mem_simps]:
  "off + 2 \<le> length p \<Longrightarrow> get_unaligned_be16 p off = Some (of_nat (be_val (take 2 (drop off p))))"
  "off + 3 \<le> length p \<Longrightarrow> get_unaligned_be24 p off = Some (of_nat (be_val (take 3 (drop off p))))"
  "off + 4 \<le> length p \<Longrightarrow> get_unaligned_be32 p off = Some (of_nat (be_val (take 4 (drop off p))))"
  "off + 8 \<le> length p \<Longrightarrow> get_unaligned_be64 p off = Some (of_nat (be_val (take 8 (drop off p))))"
  by (simp_all add: get_unaligned_be16_def get_unaligned_be24_def get_unaligned_be32_def
      get_unaligned_be64_def rd_range_def)

lemma xprotect_keeps_ok:
  assumes "cmd_wf cmd" "cmd_keeps cmd c"
  shows "parse_ok cmd (scst_parse_rdprotect c)"
    "parse_ok cmd (scst_parse_wrprotect c)"
    "cdb cmd ! 1 AND 4 = 0 \<Longrightarrow> parse_ok cmd (scst_parse_vrprotect c)"
    "32 \<le> length (cdb cmd) \<Longrightarrow> parse_ok cmd (scst_parse_rdprotect32 c)"
    "32 \<le> length (cdb cmd) \<Longrightarrow> parse_ok cmd (scst_parse_wrprotect32 c)"
    "32 \<le> length (cdb cmd) \<Longrightarrow> cdb cmd ! 10 AND 4 = 0 \<Longrightarrow> parse_ok cmd (scst_parse_vrprotect32 c)"
proof -
  note wf = cmd_wf_keeps[OF assms(2,1)] and k = parse_ok_keeps[OF assms(2)]
  have p: "cdb c = cdb cmd" using assms(2) by (simp add: cmd_keeps_def)
  show "parse_ok cmd (scst_parse_rdprotect c)" by (rule k[OF rdprotect_ok[OF wf]])
  show "parse_ok cmd (scst_parse_wrprotect c)" by (rule k[OF wrprotect_ok[OF wf]])
  show "parse_ok cmd (scst_parse_vrprotect c)" if "cdb cmd ! 1 AND 4 = 0"
    using k[OF vrprotect_ok[OF wf]] that p by simp
  show "parse_ok cmd (scst_parse_rdprotect32 c)" if "32 \<le> length (cdb cmd)"
    using k[OF rdprotect32_ok[OF wf]] that p by simp
  show "parse_ok cmd (scst_parse_wrprotect32 c)" if "32 \<le> length (cdb cmd)"
    using k[OF wrprotect32_ok[OF wf]] that p by simp
  show "parse_ok cmd (scst_parse_vrprotect32 c)" if "32 \<le> length (cdb cmd)" "cdb cmd ! 10 AND 4 = 0"
    using k[OF vrprotect32_ok[OF wf]] that p by simp
qed

lemmas routine_rules = parse_ok_intros xprotect_keeps_ok
lemmas routine_simps = cmd_keeps_def set_bufflen_def no_lba_def verify_lengths_def Let_def mem_simps

lemma fixed_routines_ok:
  assumes "cmd_wf cmd" "info_lba_off ptr + 8 \<le> length (cdb cmd)" "info_len_off ptr + 4 \<le> length (cdb cmd)"
  shows "parse_ok cmd (get_cdb_info_none cmd ptr)"
    "parse_ok cmd (get_cdb_info_len_10 cmd ptr)"
    "parse_ok cmd (get_cdb_info_block_limit cmd ptr)"
    "parse_ok cmd (get_cdb_info_read_capacity cmd ptr)"
    "parse_ok cmd (get_cdb_info_single cmd ptr)"
    "parse_ok cmd (get_cdb_info_fmt cmd ptr)"
    "parse_ok cmd (get_cdb_info_serv_act_in cmd ptr)"
    "parse_ok cmd (get_cdb_info_prevent_allow_medium_removal cmd ptr)"
    "parse_ok cmd (get_cdb_info_start_stop cmd ptr)"
proof -
  obtain dev where "cmd_dev cmd = Some dev" "16 \<le> length (cdb cmd)" "\<not> cmd_naca cmd" "cmd_status cmd = 0"
    by (rule cmd_wfE[OF assms(1)])
  note facts = this assms
  show "parse_ok cmd (get_cdb_info_none cmd ptr)"
    using facts by (auto simp: get_cdb_info_none_def
        routine_simps intro!: routine_rules)
  show "parse_ok cmd (get_cdb_info_len_10 cmd ptr)"
    using facts by (auto simp: get_cdb_info_len_10_def
        routine_simps intro!: routine_rules)
  show "parse_ok cmd (get_cdb_info_block_limit cmd ptr)"
    using facts by (auto simp: get_cdb_info_block_limit_def
        routine_simps intro!: routine_rules)
  show "parse_ok cmd (get_cdb_info_read_capacity cmd ptr)"
    using facts by (auto simp: get_cdb_info_read_capacity_def
        routine_simps intro!: routine_rules)
  show "parse_ok cmd (get_cdb_info_single cmd ptr)"
    using facts by (auto simp: get_cdb_info_single_def
        routine_simps intro!: routine_rules)
  show "parse_ok cmd (get_cdb_info_fmt cmd ptr)"
    using facts by (auto simp: get_cdb_info_fmt_def
        routine_simps intro!: routine_rules)
  show "parse_ok cmd (get_cdb_info_serv_act_in cmd ptr)"
    using facts by (auto simp: get_cdb_info_serv_act_in_def
        routine_simps intro!: routine_rules)
  show "parse_ok cmd (get_cdb_info_prevent_allow_medium_removal cmd ptr)"
    using facts by (auto simp: get_cdb_info_prevent_allow_medium_removal_def
        routine_simps intro!: routine_rules)
  show "parse_ok cmd (get_cdb_info_start_stop cmd ptr)"
    using facts by (auto simp: get_cdb_info_start_stop_def
        routine_simps intro!: routine_rules)
qed

lemma len_routines_ok:
  assumes "cmd_wf cmd" "info_lba_off ptr + 8 \<le> length (cdb cmd)" "info_len_off ptr + 4 \<le> length (cdb cmd)"
  shows "parse_ok cmd (get_cdb_info_read_pos cmd ptr)"
    "parse_ok cmd (get_cdb_info_len_3_read_elem_stat cmd ptr)"
    "parse_ok cmd (get_cdb_info_bidi_lba_4_len_2 cmd ptr)"
    "parse_ok cmd (get_cdb_info_len_1 cmd ptr)"
    "parse_ok cmd (get_cdb_info_len_2 cmd ptr)"
    "parse_ok cmd (get_cdb_info_len_3 cmd ptr)"
    "parse_ok cmd (get_cdb_info_len_4 cmd ptr)"
    "parse_ok cmd (get_cdb_info_lba_2_none cmd ptr)"
    "parse_ok cmd (get_cdb_info_lba_4_none cmd ptr)"
    "parse_ok cmd (get_cdb_info_lba_8_none cmd ptr)"
    "parse_ok cmd (get_cdb_info_lba_4_len_2 cmd ptr)"
    "parse_ok cmd (get_cdb_info_verify6 cmd ptr)"
proof -
  obtain dev where "cmd_dev cmd = Some dev" "16 \<le> length (cdb cmd)" "\<not> cmd_naca cmd" "cmd_status cmd = 0"
    by (rule cmd_wfE[OF assms(1)])
  note facts = this assms
  show "parse_ok cmd (get_cdb_info_read_pos cmd ptr)"
    using facts by (auto simp: get_cdb_info_read_pos_def
        routine_simps intro!: routine_rules)
  show "parse_ok cmd (get_cdb_info_len_3_read_elem_stat cmd ptr)"
    using facts by (auto simp: get_cdb_info_len_3_read_elem_stat_def
        routine_simps intro!: routine_rules)
  show "parse_ok cmd (get_cdb_info_bidi_lba_4_len_2 cmd ptr)"
    using facts by (auto simp: get_cdb_info_bidi_lba_4_len_2_def
        routine_simps intro!: routine_rules)
  show "parse_ok cmd (get_cdb_info_len_1 cmd ptr)"
    using facts by (auto simp: get_cdb_info_len_1_def
        routine_simps intro!: routine_rules)
  show "parse_ok cmd (get_cdb_info_len_2 cmd ptr)"
    using facts by (auto simp: get_cdb_info_len_2_def
        routine_simps intro!: routine_rules)
  show "parse_ok cmd (get_cdb_info_len_3 cmd ptr)"
    using facts by (auto simp: get_cdb_info_len_3_def
        routine_simps intro!: routine_rules)
  show "parse_ok cmd (get_cdb_info_len_4 cmd ptr)"
    using facts by (auto simp: get_cdb_info_len_4_def
        routine_simps intro!: routine_rules)
  show "parse_ok cmd (get_cdb_info_lba_2_none cmd ptr)"
    using facts by (auto simp: get_cdb_info_lba_2_none_def
        routine_simps intro!: routine_rules)
  show "parse_ok cmd (get_cdb_info_lba_4_none cmd ptr)"
    using facts by (auto simp: get_cdb_info_lba_4_none_def
        routine_simps intro!: routine_rules)
  show "parse_ok cmd (get_cdb_info_lba_8_none cmd ptr)"
    using facts by (auto simp: get_cdb_info_lba_8_none_def
        routine_simps intro!: routine_rules)
  show "parse_ok cmd (get_cdb_info_lba_4_len_2 cmd ptr)"
    using facts by (auto simp: get_cdb_info_lba_4_len_2_def
        routine_simps intro!: routine_rules)
  show "parse_ok cmd (get_cdb_info_verify6 cmd ptr)"
    using facts by (auto simp: get_cdb_info_verify6_def
        routine_simps intro!: routine_rules)
qed

lemma protect_routines_ok:
  assumes "cmd_wf cmd" "info_lba_off ptr + 8 \<le> length (cdb cmd)" "info_len_off ptr + 4 \<le> length (cdb cmd)"
  shows "parse_ok cmd (get_cdb_info_verify10 cmd ptr)"
    "parse_ok cmd (get_cdb_info_verify12 cmd ptr)"
    "parse_ok cmd (get_cdb_info_verify16 cmd ptr)"
    "parse_ok cmd (get_cdb_info_lba_3_len_1_256_read cmd ptr)"
    "parse_ok cmd (get_cdb_info_lba_3_len_1_256_write cmd ptr)"
    "parse_ok cmd (get_cdb_info_read_10 cmd ptr)"
    "parse_ok cmd (get_cdb_info_lba_4_len_2_wrprotect cmd ptr)"
    "parse_ok cmd (get_cdb_info_lba_4_len_4_rdprotect cmd ptr)"
    "parse_ok cmd (get_cdb_info_lba_4_len_4_wrprotect cmd ptr)"
proof -
  obtain dev where "cmd_dev cmd = Some dev" "16 \<le> length (cdb cmd)" "\<not> cmd_naca cmd" "cmd_status cmd = 0"
    by (rule cmd_wfE[OF assms(1)])
  note facts = this assms
  show "parse_ok cmd (get_cdb_info_verify10 cmd ptr)"
    using facts by (auto simp: get_cdb_info_verify10_def get_cdb_info_lba_3_len_1_256_def get_cdb_info_lba_4_len_2_def get_cdb_info_lba_4_len_4_def
        routine_simps intro!: routine_rules)
  show "parse_ok cmd (get_cdb_info_verify12 cmd ptr)"
    using facts by (auto simp: get_cdb_info_verify12_def get_cdb_info_lba_3_len_1_256_def get_cdb_info_lba_4_len_2_def get_cdb_info_lba_4_len_4_def
        routine_simps intro!: routine_rules)
  show "parse_ok cmd (get_cdb_info_verify16 cmd ptr)"
    using facts by (auto simp: get_cdb_info_verify16_def get_cdb_info_lba_3_len_1_256_def get_cdb_info_lba_4_len_2_def get_cdb_info_lba_4_len_4_def
        routine_simps intro!: routine_rules)
  show "parse_ok cmd (get_cdb_info_lba_3_len_1_256_read cmd ptr)"
    using facts by (auto simp: get_cdb_info_lba_3_len_1_256_read_def get_cdb_info_lba_3_len_1_256_def get_cdb_info_lba_4_len_2_def get_cdb_info_lba_4_len_4_def
        routine_simps intro!: routine_rules)
  show "parse_ok cmd (get_cdb_info_lba_3_len_1_256_write cmd ptr)"
    using facts by (auto simp: get_cdb_info_lba_3_len_1_256_write_def get_cdb_info_lba_3_len_1_256_def get_cdb_info_lba_4_len_2_def get_cdb_info_lba_4_len_4_def
        routine_simps intro!: routine_rules)
  show "parse_ok cmd (get_cdb_info_read_10 cmd ptr)"
    using facts by (auto simp: get_cdb_info_read_10_def get_cdb_info_lba_3_len_1_256_def get_cdb_info_lba_4_len_2_def get_cdb_info_lba_4_len_4_def
        routine_simps intro!: routine_rules)
  show "parse_ok cmd (get_cdb_info_lba_4_len_2_wrprotect cmd ptr)"
    using facts by (auto simp: get_cdb_info_lba_4_len_2_wrprotect_def get_cdb_info_lba_3_len_1_256_def get_cdb_info_lba_4_len_2_def get_cdb_info_lba_4_len_4_def
        routine_simps intro!: routine_rules)
  show "parse_ok cmd (get_cdb_info_lba_4_len_4_rdprotect cmd ptr)"
    using facts by (auto simp: get_cdb_info_lba_4_len_4_rdprotect_def get_cdb_info_lba_3_len_1_256_def get_cdb_info_lba_4_len_2_def get_cdb_info_lba_4_len_4_def
        routine_simps intro!: routine_rules)
  show "parse_ok cmd (get_cdb_info_lba_4_len_4_wrprotect cmd ptr)"
    using facts by (auto simp: get_cdb_info_lba_4_len_4_wrprotect_def get_cdb_info_lba_3_len_1_256_def get_cdb_info_lba_4_len_2_def get_cdb_info_lba_4_len_4_def
        routine_simps intro!: routine_rules)
qed

lemma protect16_routines_ok:
  assumes "cmd_wf cmd" "info_lba_off ptr + 8 \<le> length (cdb cmd)" "info_len_off ptr + 4 \<le> length (cdb cmd)"
    "cdb_len cmd \<ge> 32 \<Longrightarrow> 32 \<le> length (cdb cmd)"
  shows "parse_ok cmd (get_cdb_info_read_16 cmd ptr)"
    "parse_ok cmd (get_cdb_info_lba_8_len_4_wrprotect cmd ptr)"
    "parse_ok cmd (get_cdb_info_write_same10 cmd ptr)"
    "parse_ok cmd (get_cdb_info_write_same16 cmd ptr)"
    "parse_ok cmd (get_cdb_info_ext_copy cmd ptr)"
    "parse_ok cmd (get_cdb_info_min cmd ptr)"
    "parse_ok cmd (get_cdb_info_mo cmd ptr)"
    "parse_ok cmd (get_cdb_info_apt cmd ptr)"
proof -
  obtain dev where "cmd_dev cmd = Some dev" "16 \<le> length (cdb cmd)" "\<not> cmd_naca cmd" "cmd_status cmd = 0"
    by (rule cmd_wfE[OF assms(1)])
  note facts = this assms
  show "parse_ok cmd (get_cdb_info_read_16 cmd ptr)"
    using facts by (auto simp: get_cdb_info_read_16_def get_cdb_info_lba_8_len_4_def get_cdb_info_write_same_def get_cdb_info_len_4_def
        routine_simps intro!: routine_rules)
  show "parse_ok cmd (get_cdb_info_lba_8_len_4_wrprotect cmd ptr)"
    using facts by (auto simp: get_cdb_info_lba_8_len_4_wrprotect_def get_cdb_info_lba_8_len_4_def get_cdb_info_write_same_def get_cdb_info_len_4_def
        routine_simps intro!: routine_rules)
  show "parse_ok cmd (get_cdb_info_write_same10 cmd ptr)"
    using facts by (auto simp: get_cdb_info_write_same10_def get_cdb_info_lba_8_len_4_def get_cdb_info_write_same_def get_cdb_info_len_4_def
        routine_simps intro!: routine_rules)
  show "parse_ok cmd (get_cdb_info_write_same16 cmd ptr)"
    using facts by (auto simp: get_cdb_info_write_same16_def get_cdb_info_lba_8_len_4_def get_cdb_info_write_same_def get_cdb_info_len_4_def
        routine_simps intro!: routine_rules)
  show "parse_ok cmd (get_cdb_info_ext_copy cmd ptr)"
    using facts by (auto simp: get_cdb_info_ext_copy_def get_cdb_info_lba_8_len_4_def get_cdb_info_write_same_def get_cdb_info_len_4_def
        routine_simps intro!: routine_rules)
  show "parse_ok cmd (get_cdb_info_min cmd ptr)"
    using facts by (auto simp: get_cdb_info_min_def get_cdb_info_lba_8_len_4_def get_cdb_info_write_same_def get_cdb_info_len_4_def
        routine_simps intro!: routine_rules)
  show "parse_ok cmd (get_cdb_info_mo cmd ptr)"
    using facts by (auto simp: get_cdb_info_mo_def get_cdb_info_lba_8_len_4_def get_cdb_info_write_same_def get_cdb_info_len_4_def
        routine_simps intro!: routine_rules)
  show "parse_ok cmd (get_cdb_info_apt cmd ptr)"
  proof -
    have ne: "cdb cmd \<noteq> []" using facts by auto
    then obtain n where "apt_length (cdb cmd) = Some n"
      using facts by (fastforce simp: apt_length_def routine_simps)
    then show ?thesis
      using facts ne by (auto simp: get_cdb_info_apt_def routine_simps intro!: routine_rules)
  qed
qed

lemma routines32_ok:
  assumes "cmd_wf cmd" "info_lba_off ptr + 8 \<le> length (cdb cmd)" "info_len_off ptr + 4 \<le> length (cdb cmd)"
    "32 \<le> length (cdb cmd)"
  shows "parse_ok cmd (get_cdb_info_lba_8_len_4_rdprotect32 cmd ptr)"
    "parse_ok cmd (get_cdb_info_lba_8_len_4_wrprotect32 cmd ptr)"
    "parse_ok cmd (get_cdb_info_verify32 cmd ptr)" "parse_ok cmd (get_cdb_info_write_same32 cmd ptr)"
proof -
  obtain dev where "cmd_dev cmd = Some dev" "16 \<le> length (cdb cmd)" "\<not> cmd_naca cmd" "cmd_status cmd = 0"
    by (rule cmd_wfE[OF assms(1)])
  note facts = this assms
  show "parse_ok cmd (get_cdb_info_lba_8_len_4_rdprotect32 cmd ptr)"
    using facts by (auto simp: get_cdb_info_lba_8_len_4_rdprotect32_def get_cdb_info_lba_8_len_4_def
        routine_simps intro!: routine_rules)
  show "parse_ok cmd (get_cdb_info_lba_8_len_4_wrprotect32 cmd ptr)"
    using facts by (auto simp: get_cdb_info_lba_8_len_4_wrprotect32_def get_cdb_info_lba_8_len_4_def
        routine_simps intro!: routine_rules)
  show "parse_ok cmd (get_cdb_info_verify32 cmd ptr)"
    using facts by (auto simp: get_cdb_info_verify32_def routine_simps intro!: routine_rules)
  show "parse_ok cmd (get_cdb_info_write_same32 cmd ptr)"
    using facts by (auto simp: get_cdb_info_write_same32_def get_cdb_info_write_same_def
        routine_simps intro!: routine_rules)
qed

lemma compare_and_write_ok:
  assumes "cmd_wf cmd" "info_lba_off ptr + 8 \<le> length (cdb cmd)" "info_len_off ptr < length (cdb cmd)"
  shows "parse_ok cmd (get_cdb_info_compare_and_write cmd ptr)"
  by (rule cmd_wfE[OF assms(1)])
    (use assms in \<open>auto simp: get_cdb_info_compare_and_write_def routine_simps intro!: routine_rules\<close>)

lemma call_cdb_info_ok:
  assumes "cmd_wf cmd" "entry_fits (length (cdb cmd)) ptr" "get_cdb_info ptr \<noteq> cdb_info_var_len"
    "needs_32 (get_cdb_info ptr) \<or> cdb_len cmd \<ge> 32 \<Longrightarrow> 32 \<le> length (cdb cmd)"
  shows "parse_ok cmd (call_cdb_info (get_cdb_info ptr) cmd ptr)"
proof (cases "get_cdb_info ptr = cdb_info_compare_and_write")
  case True
  then show ?thesis using compare_and_write_ok[OF assms(1)] assms(2) by (simp add: entry_fits_def)
next
  case False
  then have off: "info_lba_off ptr + 8 \<le> length (cdb cmd)" "info_len_off ptr + 4 \<le> length (cdb cmd)"
    using assms(2) by (simp_all add: entry_fits_def)
  show ?thesis
    using assms(3,4) False fixed_routines_ok[OF assms(1) off] len_routines_ok[OF assms(1) off]
      protect_routines_ok[OF assms(1) off] protect16_routines_ok[OF assms(1) off]
      routines32_ok[OF assms(1) off]
    by (cases "get_cdb_info ptr") (simp_all add: needs_32_def)
qed

lemma table_needs_16: "list_all (\<lambda>e. \<not> needs_32 (get_cdb_info e)) scst_scsi_op_table"
  by (simp add: table_defs sdbops_make_sel needs_32_def)

lemma naca_bit_lost: "\<not> bit ((c :: byte) AND 4) 0"
  by (simp add: bit_simps bit_numeral_rec)

lemma control_byte_Some:
  "cdb_len cmd \<noteq> 0 \<Longrightarrow> cdb_len cmd \<le> length (cdb cmd) \<Longrightarrow>
   control_byte cmd = Some (cdb cmd ! (cdb_len cmd - 1))"
  by (simp add: control_byte_def mem_simps)

text \<open>The command that \<^verbatim>\<open>scst_set_cmd_from_cdb_info\<close> hands to the routine.\<close>

lemma set_cmd_from_cdb_info_call:
  assumes "cmd_wf cmd" "cdb_complete cmd"
  obtains c where "scst_set_cmd_from_cdb_info call cmd ptr = call (get_cdb_info ptr) c ptr"
    "cmd_keeps cmd c" "cdb_len c = SCST_GET_CDB_LEN (cdb cmd ! 0)"
    "op_flags c = info_op_flags ptr OR SCST_INFO_VALID" "bufflen c = bufflen cmd"
    "out_bufflen c = out_bufflen cmd" "data_direction c = info_data_direction ptr"
    "lba_off c = info_lba_off ptr" "lba_len c = info_lba_len ptr"
    "len_off c = info_len_off ptr" "len_len c = info_len_len ptr"
proof -
  have "cdb cmd \<noteq> []" using assms(1) by (auto simp: cmd_wf_def)
  let ?n = "SCST_GET_CDB_LEN (cdb cmd ! 0)"
  have n: "?n \<noteq> 0" "?n \<le> length (cdb cmd)" using assms(2) by (simp_all add: cdb_complete_def)
  let ?cb = "cdb cmd ! (?n - 1)"
  let ?c = "cmd\<lparr>cdb_len := ?n, cmd_naca := bit (?cb AND 0x04) 0, cmd_linked := bit (?cb AND 0x01) 0,
     op_name := info_op_name ptr, data_direction := info_data_direction ptr,
     op_flags := info_op_flags ptr OR SCST_INFO_VALID,
     lba_off := info_lba_off ptr, lba_len := info_lba_len ptr,
     len_off := info_len_off ptr, len_len := info_len_len ptr\<rparr>"
  have "scst_set_cmd_from_cdb_info call cmd ptr = call (get_cdb_info ptr) ?c ptr"
    using \<open>cdb cmd \<noteq> []\<close> n
    by (simp add: scst_set_cmd_from_cdb_info_def Let_def mem_simps control_byte_Some)
  then show ?thesis
    by (rule that) (use assms(1) in \<open>simp_all add: cmd_keeps_def cmd_wf_def naca_bit_lost\<close>)
qed

lemma var_len_ok:
  assumes "cmd_wf cmd" "cdb cmd ! 0 = 0x7F" "32 \<le> length (cdb cmd)"
  shows "parse_ok cmd (get_cdb_info_var_len cmd ptr)"
proof -
  have ne: "cdb cmd \<noteq> []" using assms(3) by auto
  have comp: "cdb_complete cmd"
    using assms by (simp add: cdb_complete_def SCST_GET_CDB_LEN_def SCST_CDB_GROUP_def scst_cdb_length_def)
  have call: "parse_ok cmd (scst_set_cmd_from_cdb_info call_cdb_info cmd e)"
    if "e \<in> set scst_scsi_op32_table" for e
  proof (rule set_cmd_from_cdb_info_call[OF assms(1) comp, of call_cdb_info e])
    fix c assume c: "scst_set_cmd_from_cdb_info call_cdb_info cmd e = call_cdb_info (get_cdb_info e) c e"
      "cmd_keeps cmd c"
    have "entry_fits (length (cdb c)) e" "get_cdb_info e \<noteq> cdb_info_var_len" "32 \<le> length (cdb c)"
      using table32_fits that assms(3) c(2) by (auto simp: list_all_iff entry_fits_def cmd_keeps_def)
    then show ?thesis
      using call_cdb_info_ok[OF cmd_wf_keeps[OF c(2) assms(1)]] parse_ok_keeps[OF c(2)] c(1) by simp
  qed
  have final: "parse_ok cmd (do { (res, c) \<leftarrow> scst_set_cmd_from_cdb_info call_cdb_info cmd e;
      b1 \<leftarrow> rd (cdb c) 1;
      Some (res, c\<lparr>cmd_naca := bit (b1 AND 4) 0, cmd_linked := bit (b1 AND 1) 0\<rparr>) })"
    if e: "e \<in> set scst_scsi_op32_table" for e
  proof -
    obtain res c where r: "scst_set_cmd_from_cdb_info call_cdb_info cmd e = Some (res, c)"
      and c: "cdb c = cdb cmd" "cmd_dev c = cmd_dev cmd" "cmd_sense_ok c" "res > 0 \<longleftrightarrow> cmd_status c \<noteq> 0"
      using call[OF e] by (auto simp: parse_ok_def split: option.splits)
    have "cmd_sense_ok (c\<lparr>cmd_naca := False, cmd_linked := x\<rparr>)" for x
      using c(3) cmd_sense_ok_cong[of "c\<lparr>cmd_naca := False, cmd_linked := x\<rparr>" c] by simp
    then show ?thesis
      using r c assms(3) by (simp add: parse_ok_def mem_simps naca_bit_lost)
  qed
  obtain dev where dev: "cmd_dev cmd = Some dev" "\<not> cmd_naca cmd" "cmd_status cmd = 0"
    by (rule cmd_wfE[OF assms(1)])
  obtain n where n: "get_unaligned_be16 (cdb cmd) 8 = Some n"
    using assms(3) by (simp add: mem_simps)
  define i where "i = unat ((ucast n :: 32 word) - 0x09)"
  have b7: "rd (cdb cmd) 7 = Some (cdb cmd ! 7)" using assms(3) by (simp add: mem_simps)
  show ?thesis
  proof (cases "i < length scst_scsi_op32_table")
    case True
    then have "rd scst_scsi_op32_table i = Some (scst_scsi_op32_table ! i)"
      "scst_scsi_op32_table ! i \<in> set scst_scsi_op32_table" by (auto simp: rd_def)
    then show ?thesis
      using True n b7 final[of "scst_scsi_op32_table ! i"] dev assms(1)
      unfolding get_cdb_info_var_len_def Let_def
      by (auto simp: i_def[symmetric] cmd_keeps_def intro!: fail_field_ok)
  next
    case False
    then show ?thesis
      using n dev assms(1) unfolding get_cdb_info_var_len_def Let_def
      by (auto simp: i_def[symmetric] cmd_keeps_def intro!: parse_ok_Some)
  qed
qed

lemma scst_get_cdb_info_lookup:
  assumes "cmd_dev cmd = Some dev" "dev_type dev < 16" "cdb cmd \<noteq> []"
  shows "scst_get_cdb_info cmd =
     (case op_lookup scst_scsi_op_table (cdb cmd ! 0) (dev_type dev) of
        None \<Rightarrow> Some (- 1, cmd\<lparr>op_flags := op_flags cmd OR SCST_LBA_NOT_VALID\<rparr>)
      | Some ptr \<Rightarrow> scst_set_cmd_from_cdb_info call_get_cdb_info cmd ptr)"
proof -
  let ?l = "scst_scsi_op_list_init scst_scsi_op_table"
  have "0xff \<notin> ops ` set scst_scsi_op_table"
    using table_no_ff by (auto simp: list_all_iff)
  then have "op_scan scst_scsi_op_table op t (?l ! unat op) = op_lookup scst_scsi_op_table op t" for op t
    by (rule op_scan_lookup[OF table_sorted])
  moreover have "length ?l = 256"
    by (simp add: scst_scsi_op_list_init_def op_list_loop_length)
  ultimately show ?thesis
    using assms by (simp add: scst_get_cdb_info_def mem_simps)
qed

lemma op_lookup_Some: "op_lookup table op t = Some e \<Longrightarrow> e \<in> set table \<and> ops e = op"
  unfolding op_lookup_def by (induction table) (auto split: if_splits)

lemma scst_get_cdb_info_ok:
  assumes "cmd_wf cmd" "cmd_dev cmd = Some dev" "dev_type dev < 16" "cdb_complete cmd"
  shows "parse_ok cmd (scst_get_cdb_info cmd)"
proof (cases "op_lookup scst_scsi_op_table (cdb cmd ! 0) (dev_type dev)")
  case None
  have "cdb cmd \<noteq> []" using assms(1) by (auto simp: cmd_wf_def)
  then show ?thesis
    using None assms scst_get_cdb_info_lookup[OF assms(2,3)]
    by (auto intro!: parse_ok_Some simp: cmd_keeps_def cmd_wf_def)
next
  case (Some ptr)
  have ne: "cdb cmd \<noteq> []" using assms(1) by (auto simp: cmd_wf_def)
  have ptr: "ptr \<in> set scst_scsi_op_table" "ops ptr = cdb cmd ! 0"
    using op_lookup_Some[OF Some] by auto
  have "entry_fits 16 ptr" and n32: "\<not> needs_32 (get_cdb_info ptr)"
    and vl: "(get_cdb_info ptr = cdb_info_var_len) = (ops ptr = 0x7F)"
    using ptr(1) table_fits table_needs_16 table_var_len by (auto simp: list_all_iff)
  moreover have "16 \<le> length (cdb cmd)" using assms(1) by (simp add: cmd_wf_def)
  ultimately have fits: "entry_fits (length (cdb cmd)) ptr" by (simp add: entry_fits_def)
  show ?thesis
  proof (rule set_cmd_from_cdb_info_call[OF assms(1,4), of call_get_cdb_info ptr])
    fix c assume c: "scst_set_cmd_from_cdb_info call_get_cdb_info cmd ptr
        = call_get_cdb_info (get_cdb_info ptr) c ptr"
      "cmd_keeps cmd c" "cdb_len c = SCST_GET_CDB_LEN (cdb cmd ! 0)"
    have p: "cdb c = cdb cmd" using c(2) by (simp add: cmd_keeps_def)
    have "parse_ok c (call_get_cdb_info (get_cdb_info ptr) c ptr)"
    proof (cases "get_cdb_info ptr = cdb_info_var_len")
      case True
      then have "cdb c ! 0 = 0x7F" using vl ptr p by simp
      moreover from this have "32 \<le> length (cdb c)"
        using assms(4) p by (simp add: cdb_complete_def SCST_GET_CDB_LEN_def SCST_CDB_GROUP_def
            scst_cdb_length_def)
      ultimately show ?thesis
        using var_len_ok[OF cmd_wf_keeps[OF c(2) assms(1)]] True by (simp add: call_get_cdb_info_def)
    next
      case False
      moreover have "32 \<le> length (cdb c)" if "cdb_len c \<ge> 32"
        using that c(3) assms(4) p by (simp add: cdb_complete_def)
      ultimately show ?thesis
        using call_cdb_info_ok[OF cmd_wf_keeps[OF c(2) assms(1)], of ptr] fits n32 p
        by (simp add: call_get_cdb_info_def)
    qed
    then show ?thesis
      using Some c parse_ok_keeps[OF c(2)] scst_get_cdb_info_lookup[OF assms(2,3) ne] by simp
  qed
qed

end
