(* ===== verification/Cdb_Parse.thy ===== *)
theory Cdb_Parse
  imports Cdb_Info
begin

text \<open>
  What the parsers of command blocks (theory \<open>Cdb_Info\<close>) guarantee: that parsing is total
  and memory safe, that the indexed search is a search through the table, and where the table
  and the control byte handling are wrong.
\<close>

definition fields_inside :: "scst_sdbops \<Rightarrow> bool" where
  "fields_inside e = (info_lba_off e + info_lba_len e \<le> SCST_GET_CDB_LEN (ops e) \<and>
     info_len_off e + info_len_len e \<le> SCST_GET_CDB_LEN (ops e))"

lemmas cdb_len_simps = SCST_GET_CDB_LEN_def SCST_CDB_GROUP_def scst_cdb_length_def

lemma ex_cdb_simps:
  "cmd_dev (ex_cdb op) = Some ex_disk" "dev_type ex_disk = 0" "cdb (ex_cdb op) ! 0 = op"
  "cdb (ex_cdb op) \<noteq> []" "dev_dif_mode ex_disk = 0"
  by (simp_all add: ex_cdb_def ex_cmd_def ex_disk_def)

lemma ex_cdb_wf: "cmd_wf (ex_cdb op)"
  by (simp add: ex_cdb_def ex_cmd_def ex_disk_def cmd_wf_def cmd_sense_ok_def)

lemma ex_cdb_complete: "cdb_complete (ex_cdb 0x28)" "cdb_complete (ex_cdb 0x08)"
  by (simp_all add: ex_cdb_def ex_cmd_def cdb_complete_def SCST_GET_CDB_LEN_def SCST_CDB_GROUP_def
      scst_cdb_length_def)

section \<open>Properties\<close>

text \<open>
  C1.  Parsing a command block is memory safe and total: for every command with a device of a
  known type whose block is in a buffer of at least 16 bytes and of the length its opcode
  stands for, \<^verbatim>\<open>scst_get_cdb_info\<close> returns, no access leaves the block and
  no \<^verbatim>\<open>sBUG_ON\<close> fails.  The block and the device are unchanged, the
  return value is positive exactly when an error has been reported to the initiator.
\<close>

theorem scst_get_cdb_info_safe:
  assumes "cmd_wf cmd" "cmd_dev cmd = Some dev" "dev_type dev < 16" "cdb_complete cmd"
  shows "\<exists>res cmd'. scst_get_cdb_info cmd = Some (res, cmd') \<and> cdb cmd' = cdb cmd \<and>
           cmd_dev cmd' = cmd_dev cmd \<and> cmd_sense_ok cmd' \<and> (res > 0 \<longleftrightarrow> cmd_status cmd' \<noteq> 0)"
  using scst_get_cdb_info_ok[OF assms] by (auto simp: parse_ok_def split: option.splits)

theorem scst_get_cdb_info_safe_witness:
  "\<exists>res cmd'. scst_get_cdb_info (ex_cdb 0x28) = Some (res, cmd') \<and> cdb cmd' = cdb (ex_cdb 0x28)"
  using scst_get_cdb_info_safe[of "ex_cdb 0x28" ex_disk]
  by (auto simp: ex_cdb_wf ex_cdb_complete ex_cdb_simps)

text \<open>
  C3.  The search through the index of opcodes finds what a search through the whole table
  finds: the first entry with the opcode whose key allows the device type; an opcode without
  one is reported as unknown.
\<close>

theorem scst_get_cdb_info_is_lookup:
  assumes "cmd_dev cmd = Some dev" "dev_type dev < 16" "cdb cmd \<noteq> []"
  shows "scst_get_cdb_info cmd =
     (case find (\<lambda>e. ops e = cdb cmd ! 0 \<and> devkey_at e (dev_type dev) \<noteq> CHR '' '') scst_scsi_op_table of
        None \<Rightarrow> Some (- 1, cmd\<lparr>op_flags := op_flags cmd OR SCST_LBA_NOT_VALID\<rparr>)
      | Some ptr \<Rightarrow> scst_set_cmd_from_cdb_info call_get_cdb_info cmd ptr)"
  using scst_get_cdb_info_lookup[OF assms] by (simp add: op_lookup_def)

theorem scst_get_cdb_info_is_lookup_witness:
  "scst_get_cdb_info (ex_cdb 0xC0) =
     Some (- 1, (ex_cdb 0xC0)\<lparr>op_flags := op_flags (ex_cdb 0xC0) OR SCST_LBA_NOT_VALID\<rparr>)"
proof -
  have "list_all (\<lambda>e. ops e \<noteq> 0xC0) scst_scsi_op_table"
    by (simp add: table_defs sdbops_make_sel)
  then have "find (\<lambda>e. ops e = 0xC0 \<and> devkey_at e 0 \<noteq> CHR '' '') scst_scsi_op_table = None"
    by (auto simp: find_None_iff list_all_iff)
  then show ?thesis
    using scst_get_cdb_info_is_lookup[of "ex_cdb 0xC0" ex_disk] by (simp add: ex_cdb_simps)
qed

text \<open>
  C36.  The NACA bit of the control byte is never recognised.  It is bit 2 of the byte and is
  assigned to a one-bit field, which keeps bit 0: whatever the control byte is, the parsed
  command has the flag cleared.
\<close>

theorem naca_never_recognised:
  assumes "cmd_wf cmd" "cmd_dev cmd = Some dev" "dev_type dev < 16" "cdb_complete cmd"
    "scst_get_cdb_info cmd = Some (res, cmd')"
  shows "\<not> cmd_naca cmd'"
  using scst_get_cdb_info_ok[OF assms(1-4)] assms(5) by (simp add: parse_ok_def)

theorem naca_never_recognised_witness:
  "\<exists>res cmd'. scst_get_cdb_info ((ex_cdb 0x28)\<lparr>cdb := (cdb (ex_cdb 0x28))[9 := 0x04]\<rparr>) = Some (res, cmd') \<and>
     \<not> cmd_naca cmd'"
proof -
  let ?c = "(ex_cdb 0x28)\<lparr>cdb := (cdb (ex_cdb 0x28))[9 := 0x04]\<rparr>"
  have c: "cmd_wf ?c" "cdb_complete ?c" "cmd_dev ?c = Some ex_disk" "dev_type ex_disk < 16"
    by (simp_all add: ex_cdb_def ex_cmd_def ex_disk_def cmd_wf_def cmd_sense_ok_def cdb_complete_def
        SCST_GET_CDB_LEN_def SCST_CDB_GROUP_def scst_cdb_length_def)
  then obtain res cmd' where "scst_get_cdb_info ?c = Some (res, cmd')"
    using scst_get_cdb_info_ok[OF c(1,3,4,2)] by (auto simp: parse_ok_def split: option.splits)
  then show ?thesis using naca_never_recognised[OF c(1,3,4,2)] by blast
qed

text \<open>
  C17.  The fields that the table describes lie inside of the command block of the opcode, with
  one exception: the length field of READ REVERSE is placed at bytes 12 to 14 of a block of 6
  bytes.  The vendor entry 0xE7 belongs to a group whose length is unknown.
\<close>

theorem table_fields_inside:
  "{(ops e, info_op_name e) | e. e \<in> set scst_scsi_op_table \<and>
      \<not> (info_lba_off e + info_lba_len e \<le> SCST_GET_CDB_LEN (ops e) \<and>
         info_len_off e + info_len_len e \<le> SCST_GET_CDB_LEN (ops e))}
     = {(0x0F, ''READ REVERSE'')}"
proof -
  have "list_all (\<lambda>e. fields_inside e \<or> ops e = 0x0F \<and> info_op_name e = ''READ REVERSE'') scst_scsi_op_table"
    by (simp add: table_defs sdbops_make_sel fields_inside_def cdb_len_simps)
  moreover have "list_ex (\<lambda>e. \<not> fields_inside e \<and> ops e = 0x0F \<and> info_op_name e = ''READ REVERSE'') scst_scsi_op_table"
    by (simp add: table_defs sdbops_make_sel fields_inside_def cdb_len_simps)
  ultimately show ?thesis
    unfolding fields_inside_def[symmetric] list_all_iff list_ex_iff by fastforce
qed

text \<open>
  C37.  The length of the block is taken from the opcode alone, and the control byte is read at
  its end.  A variable length command in a buffer of 16 bytes is therefore read outside of the
  buffer, and the vendor command 0xE7 of a medium changer, for which the length is zero, is
  read before its start.
\<close>

theorem control_byte_outside:
  assumes "cmd_wf cmd" "cmd_dev cmd = Some dev"
    "cdb cmd ! 0 = 0x7F \<and> dev_type dev = 0 \<and> length (cdb cmd) < 32 \<or>
     cdb cmd ! 0 = 0xE7 \<and> dev_type dev = 8"
  shows "scst_get_cdb_info cmd = None"
proof -
  have ne: "cdb cmd \<noteq> []" "16 \<le> length (cdb cmd)" using assms(1) by (auto simp: cmd_wf_def)
  have "list_ex (\<lambda>e. ops e = 0x7F \<and> devkey_at e 0 \<noteq> CHR '' '') scst_scsi_op_table"
       "list_ex (\<lambda>e. ops e = 0xE7 \<and> devkey_at e 8 \<noteq> CHR '' '') scst_scsi_op_table"
    by (simp_all add: table_defs sdbops_make_sel devkey_at_def)
  then have "op_lookup scst_scsi_op_table (cdb cmd ! 0) (dev_type dev) \<noteq> None"
    using assms(3) unfolding op_lookup_def find_None_iff list_ex_iff by auto
  then obtain ptr where "op_lookup scst_scsi_op_table (cdb cmd ! 0) (dev_type dev) = Some ptr" by auto
  moreover have "scst_set_cmd_from_cdb_info call_get_cdb_info cmd ptr = None"
    using assms(3) ne
    by (auto simp: scst_set_cmd_from_cdb_info_def Let_def mem_simps control_byte_def rd_def
        SCST_GET_CDB_LEN_def SCST_CDB_GROUP_def scst_cdb_length_def)
  moreover have "dev_type dev < 16" using assms(3) by auto
  ultimately show ?thesis
    using scst_get_cdb_info_lookup[OF assms(2) _ ne(1)] by simp
qed

theorem control_byte_outside_witness: "scst_get_cdb_info (ex_cdb 0x7F) = None"
  using control_byte_outside[of "ex_cdb 0x7F" ex_disk] ex_cdb_wf[of "0x7F"]
  by (simp add: ex_cdb_simps) (simp add: ex_cdb_def ex_cmd_def ex_disk_def)

end
