(* ===== verification/Scst_Lun.thy ===== *)
theory Scst_Lun
  imports Cdb_Info
begin

text \<open>
  Logical unit numbers (\<^verbatim>\<open>scst_pack_lun\<close> and
  \<^verbatim>\<open>scst_unpack_lun\<close> of \<^verbatim>\<open>scst_lib.c\<close>): the conversion
  between the number of a logical unit and the eight byte structure of the SCSI architecture
  model.  The big-endian result of the packing is the sequence of its bytes in memory.
\<close>

section \<open>Model\<close>

datatype scst_lun_addr_method =
  SCST_LUN_ADDR_METHOD_PERIPHERAL | SCST_LUN_ADDR_METHOD_FLAT | SCST_LUN_ADDR_METHOD_LUN |
  SCST_LUN_ADDR_METHOD_EXTENDED_LUN

primrec addr_method_val :: "scst_lun_addr_method \<Rightarrow> 'a::len word" where
  "addr_method_val SCST_LUN_ADDR_METHOD_PERIPHERAL = 0"
| "addr_method_val SCST_LUN_ADDR_METHOD_FLAT = 1"
| "addr_method_val SCST_LUN_ADDR_METHOD_LUN = 2"
| "addr_method_val SCST_LUN_ADDR_METHOD_EXTENDED_LUN = 3"

definition NO_SUCH_LUN :: "64 word" where "NO_SUCH_LUN = - 1"

definition scst_pack_lun :: "64 word \<Rightarrow> scst_lun_addr_method \<Rightarrow> byte list" where
  "scst_pack_lun lun addr_method =
     (let res = (if lun \<noteq> 0 then push_bit 48 (push_bit 14 (addr_method_val addr_method) OR (lun AND 0x3fff))
                 else 0)
      in be_bytes 8 (unat res))"

text \<open>The part of \<^verbatim>\<open>scst_unpack_lun\<close> after the length has been checked.\<close>

definition unpack_first_level :: "byte list \<Rightarrow> 64 word option" where
  "unpack_first_level lun = do {
     b0 \<leftarrow> rd lun 0;
     let address_method = drop_bit 6 b0;
     (if address_method \<in> {addr_method_val SCST_LUN_ADDR_METHOD_PERIPHERAL,
           addr_method_val SCST_LUN_ADDR_METHOD_FLAT, addr_method_val SCST_LUN_ADDR_METHOD_LUN}
      then do {
        b1 \<leftarrow> rd lun 1;
        Some (ucast b1 OR push_bit 8 (ucast (b0 AND 0x3f))) }
      else Some NO_SUCH_LUN) }"

definition scst_unpack_lun :: "byte list \<Rightarrow> int \<Rightarrow> 64 word option" where
  "scst_unpack_lun lun len =
     (if len = 2 then unpack_first_level lun
      else if len = 8 then do {
        v \<leftarrow> get_unaligned_be64 lun 0;
        if v AND 0x0000FFFFFFFFFFFF \<noteq> 0 then Some NO_SUCH_LUN else unpack_first_level lun }
      else if len = 4 then do {
        v \<leftarrow> get_unaligned_be16 lun 2;
        if v \<noteq> 0 then Some NO_SUCH_LUN else unpack_first_level lun }
      else if len = 6 then do {
        v \<leftarrow> get_unaligned_be32 lun 2;
        if v \<noteq> 0 then Some NO_SUCH_LUN else unpack_first_level lun }
      else Some NO_SUCH_LUN)"

section \<open>The bytes of a packed number\<close>

lemma mask_numerals: "w AND 0x3fff = take_bit 14 (w :: 'a::len word)" "w AND 0x3f = take_bit 6 w"
  "w AND 0xFFFFFFFFFFFF = take_bit 48 w"
  by (simp_all add: take_bit_eq_mask mask_eq_exp_minus_1)

lemma be_bytes_word:
  "be_bytes n (unat (w :: 'a::len word)) = map (\<lambda>k. ucast (drop_bit (8 * k) w)) (rev [0..<n])"
proof (induction n)
  case (Suc n)
  have "unat w div 256 ^ n = unat (drop_bit (8 * n) w)"
    unfolding unat_drop_bit_eq by (simp add: drop_bit_eq_div power_mult)
  then have "of_nat (unat w div 256 ^ n) = (ucast (drop_bit (8 * n) w) :: byte)"
    by (metis of_nat_unat)
  with Suc show ?case by simp
qed simp

lemma pack_lun_bytes:
  "scst_pack_lun lun m =
     (if lun = 0 then [0, 0, 0, 0, 0, 0, 0, 0]
      else [push_bit 6 (addr_method_val m) OR take_bit 6 (ucast (drop_bit 8 lun)), ucast lun, 0, 0, 0, 0, 0, 0])"
proof -
  have m: "\<not> bit (addr_method_val m :: 64 word) k" if "2 \<le> k" for k
    using that by (cases m) (auto simp: bit_simps bit_numeral_rec bit_1_iff split: nat.split)
  have m8: "bit (addr_method_val m :: byte) k = bit (addr_method_val m :: 64 word) k" if "k < 8" for k
    using that by (cases m) (auto simp: bit_simps bit_numeral_rec bit_1_iff split: nat.split)
  let ?r = "push_bit 48 (push_bit 14 (addr_method_val m) OR take_bit 14 lun) :: 64 word"
  have b: "ucast (drop_bit k ?r) = (0 :: byte)" if "k + 8 \<le> 48" for k
    by (rule bit_word_eqI) (use that in \<open>simp add: bit_simps\<close>)
  have b0: "ucast (drop_bit 56 ?r) =
      push_bit 6 (addr_method_val m) OR take_bit 6 (ucast (drop_bit 8 lun) :: byte)"
    by (rule bit_word_eqI) (auto simp: bit_simps m m8)
  have b1: "ucast (drop_bit 48 ?r) = (ucast lun :: byte)"
    by (rule bit_word_eqI) (auto simp: bit_simps)
  have u: "rev [0..<8] = [7, 6, 5, 4, 3, 2, 1, 0]" by (simp add: upt_rec)
  show ?thesis
    using b[of 40] b[of 32] b[of 24] b[of 16] b[of 8] b[of 0] b0 b1
    by (simp add: scst_pack_lun_def Let_def mask_numerals be_bytes_word u)
qed

section \<open>Unpacking\<close>

lemma be_val_0_iff: "be_val bs = 0 \<longleftrightarrow> (\<forall>b\<in>set bs. b = 0)"
  by (induction bs) (auto simp: unat_eq_zero)

lemma be_val_append: "be_val (as @ bs) = be_val as * 256 ^ length bs + be_val bs"
  by (induction as) (auto simp: power_add algebra_simps)

lemma of_nat_word_0_iff: "x < 2 ^ LENGTH('a) \<Longrightarrow> (of_nat x :: 'a::len word) = 0 \<longleftrightarrow> x = 0"
  by (auto simp: word_of_nat_eq_0_iff dest: dvd_imp_le)

lemma unpack_levels:
  assumes "len \<in> {2, 4, 6, 8}" "nat len \<le> length lun"
  shows "scst_unpack_lun lun len =
    (if \<forall>b\<in>set (drop 2 (take (nat len) lun)). b = 0 then unpack_first_level lun else Some NO_SUCH_LUN)"
proof -
  have d: "be_val (take n (drop 2 lun)) < 2 ^ (8 * n)" if "2 + n \<le> length lun" for n
    using be_val_less[of "take n (drop 2 lun)"] that by (simp add: power_mult)
  have 8: "take_bit 48 (of_nat (be_val (take 8 lun)) :: 64 word) = 0 \<longleftrightarrow>
      be_val (take 6 (drop 2 lun)) = 0" if "8 \<le> length lun"
  proof -
    have "take 8 lun = take 2 lun @ take 6 (drop 2 lun)" using take_add[of 2 6 lun] by simp
    then have "be_val (take 8 lun) = be_val (take 2 lun) * 256 ^ 6 + be_val (take 6 (drop 2 lun))"
      using that by (simp add: be_val_append)
    then have "take_bit 48 (be_val (take 8 lun)) = be_val (take 6 (drop 2 lun))"
      using d[of 6] that by (simp add: take_bit_eq_mod)
    then show ?thesis
      using d[of 6] that by (simp add: take_bit_of_nat of_nat_word_0_iff)
  qed
  show ?thesis
    using assms 8 d[of 2] d[of 4]
    by (auto simp: scst_unpack_lun_def get_unaligned_be16_def get_unaligned_be32_def
        get_unaligned_be64_def mem_simps mask_numerals of_nat_word_0_iff be_val_0_iff drop_take)
qed

lemma addr_method_cases:
  obtains m where "addr_method_val m = drop_bit 6 (b :: byte)"
proof -
  have "y < 4 \<Longrightarrow> y \<in> {0, 1, 2, 3}" for y :: nat by auto
  moreover have "unat b div 64 < 4"
    using unat_byte_less[of b] by (intro less_mult_imp_div_less) simp
  ultimately have "unat (drop_bit 6 b) \<in> {0, 1, 2, 3}"
    unfolding unat_drop_bit_eq by (simp add: drop_bit_eq_div)
  then have "drop_bit 6 b \<in> {0, 1, 2, 3}" by (simp add: word_unat_eq_iff)
  then show ?thesis
    using that[of SCST_LUN_ADDR_METHOD_PERIPHERAL] that[of SCST_LUN_ADDR_METHOD_FLAT]
      that[of SCST_LUN_ADDR_METHOD_LUN] that[of SCST_LUN_ADDR_METHOD_EXTENDED_LUN] by auto
qed

lemma first_level_value:
  assumes "2 \<le> length lun"
  shows "unpack_first_level lun =
    Some (if drop_bit 6 (lun ! 0) = 3 then NO_SUCH_LUN
          else ucast (lun ! 1) OR push_bit 8 (ucast (take_bit 6 (lun ! 0))))"
proof -
  obtain m where "addr_method_val m = drop_bit 6 (lun ! 0)" by (rule addr_method_cases)
  then have "drop_bit 6 (lun ! 0) \<in> {0, 1, 2, 3}" by (cases m) auto
  moreover have "rd lun 0 = Some (lun ! 0)" "rd lun 1 = Some (lun ! 1)"
    using assms by (auto simp: rd_def)
  ultimately show ?thesis by (auto simp: unpack_first_level_def mask_numerals)
qed

lemma first_level_Cons:
  "drop_bit 6 b0 \<noteq> 3 \<Longrightarrow>
     unpack_first_level (b0 # b1 # bs) = Some (ucast b1 OR push_bit 8 (ucast (take_bit 6 b0)))"
  using first_level_value[of "b0 # b1 # bs"] by simp

lemma unpack_pack:
  assumes "lun < 0x4000" "m \<noteq> SCST_LUN_ADDR_METHOD_EXTENDED_LUN"
  shows "unpack_first_level (scst_pack_lun lun m) = Some lun"
proof -
  have l: "\<not> bit lun k" if "14 \<le> k" for k
  proof -
    have "unat lun < 2 ^ 14" using assms(1) by (simp add: word_less_nat_alt)
    then have "unat (take_bit 14 lun) = unat lun" by (simp add: unsigned_take_bit_eq take_bit_nat_eq_self)
    then have "take_bit 14 lun = lun" by (simp only: word_unat_eq_iff)
    then show ?thesis using that by (metis bit_take_bit_iff not_less)
  qed
  have m: "drop_bit 6 (push_bit 6 (addr_method_val m) OR take_bit 6 b) = (addr_method_val m :: byte)"
    for b :: byte
    by (rule bit_word_eqI, cases m) (auto simp: bit_simps bit_numeral_rec split: nat.split)
  have "ucast (ucast lun :: byte) OR push_bit 8 (ucast (take_bit 6
      (push_bit 6 (addr_method_val m) OR take_bit 6 (ucast (drop_bit 8 lun) :: byte)))) = lun"
    by (rule bit_word_eqI) (use l in \<open>auto simp: bit_simps\<close>)
  moreover have "drop_bit 6 (push_bit 6 (addr_method_val m) OR take_bit 6 b) \<noteq> (3 :: byte)" for b
    unfolding m using assms(2) by (cases m) simp_all
  ultimately have "lun \<noteq> 0 \<Longrightarrow> ?thesis" by (simp only: pack_lun_bytes if_False first_level_Cons simp_thms)
  moreover have "lun = 0 \<Longrightarrow> ?thesis" by (simp add: pack_lun_bytes first_level_Cons)
  ultimately show ?thesis by blast
qed

lemma word_less_14:
  assumes "take_bit 14 w = w"
  shows "w < (0x4000 :: 64 word)"
proof -
  have "unat w = unat (take_bit 14 w)" by (simp only: assms)
  also have "\<dots> = take_bit 14 (unat w)" by (rule unsigned_take_bit_eq)
  also have "\<dots> < 2 ^ 14" by (rule take_bit_nat_less_exp)
  finally show ?thesis by (simp add: word_less_nat_alt)
qed

lemma pack_unpacked:
  fixes b0 b1 :: byte
  defines "r \<equiv> ucast b1 OR push_bit 8 (ucast (take_bit 6 b0)) :: 64 word"
  assumes "drop_bit 6 b0 \<noteq> 3"
  shows "r < 0x4000" "\<exists>m. m \<noteq> SCST_LUN_ADDR_METHOD_EXTENDED_LUN \<and>
     (r = 0 \<or> scst_pack_lun r m = [b0, b1, 0, 0, 0, 0, 0, 0])"
proof -
  let ?r = "ucast b1 OR push_bit 8 (ucast (take_bit 6 b0)) :: 64 word"
  have "take_bit 14 ?r = ?r"
  proof (rule bit_word_eqI)
    fix n
    show "bit (take_bit 14 ?r) n \<longleftrightarrow> bit ?r n"
      using bit_imp_le_length[of b1 n] by (cases "n < 8") (auto simp: bit_simps)
  qed
  then have less: "?r < 0x4000" by (rule word_less_14)
  obtain m :: scst_lun_addr_method where m: "m \<noteq> SCST_LUN_ADDR_METHOD_EXTENDED_LUN" "addr_method_val m = drop_bit 6 b0"
    using assms by (metis addr_method_cases addr_method_val.simps(4))
  have "push_bit 6 (drop_bit 6 b0) OR take_bit 6 (ucast (drop_bit 8 ?r)) = b0"
  proof (rule bit_word_eqI)
    fix n
    show "bit (push_bit 6 (drop_bit 6 b0) OR take_bit 6 (ucast (drop_bit 8 ?r))) n \<longleftrightarrow> bit b0 n"
      using bit_imp_le_length[of b0 n] bit_imp_le_length[of b1 "8 + n"]
      by (cases "n < 6") (auto simp: bit_simps)
  qed
  moreover have "ucast ?r = b1" by (rule bit_word_eqI) (auto simp: bit_simps)
  ultimately have "?r = 0 \<or> scst_pack_lun ?r m = [b0, b1, 0, 0, 0, 0, 0, 0]"
    unfolding pack_lun_bytes m(2) by metis
  with m(1) less show "r < 0x4000" "\<exists>m. m \<noteq> SCST_LUN_ADDR_METHOD_EXTENDED_LUN \<and>
     (r = 0 \<or> scst_pack_lun r m = [b0, b1, 0, 0, 0, 0, 0, 0])"
    unfolding r_def by blast+
qed

section \<open>Properties\<close>

text \<open>
  C20.  Packing and unpacking a logical unit number is the identity: for every number below
  0x4000 and each of the three addressing methods that are implemented, the packed structure
  and its prefixes of 2, 4 and 6 bytes unpack to the number.
\<close>

theorem scst_lun_roundtrip:
  assumes "lun < 0x4000" "m \<noteq> SCST_LUN_ADDR_METHOD_EXTENDED_LUN" "n \<in> {2, 4, 6, 8}"
  shows "scst_unpack_lun (take n (scst_pack_lun lun m)) (int n) = Some lun"
proof -
  have "length (scst_pack_lun lun m) = 8" by (simp add: pack_lun_bytes)
  moreover have "unpack_first_level (take n (scst_pack_lun lun m)) = Some lun"
    using unpack_pack[OF assms(1,2)] assms(3) calculation by (auto simp: first_level_value)
  moreover have "\<forall>b\<in>set (drop 2 (take n (take n (scst_pack_lun lun m)))). b = 0"
    using assms(3) by (auto simp: pack_lun_bytes)
  ultimately show ?thesis
    using assms(3) unpack_levels[of "int n" "take n (scst_pack_lun lun m)"] by auto
qed

theorem scst_lun_roundtrip_witness:
  "scst_unpack_lun (take 8 (scst_pack_lun 0x123 SCST_LUN_ADDR_METHOD_FLAT)) (int 8) = Some 0x123"
  by (rule scst_lun_roundtrip) simp_all

text \<open>
  C23.  Unpacking stays inside of the structure and its result is either the number that no unit
  has or a number of 14 bits; in the latter case the structure was a single-level one, and a
  number other than zero packs to the very bytes it was unpacked from.
\<close>

theorem scst_unpack_lun_valid:
  assumes "length lun = 8"
  shows "\<exists>r. scst_unpack_lun lun 8 = Some r \<and>
     (r = NO_SUCH_LUN \<or> r < 0x4000 \<and> (\<exists>m. m \<noteq> SCST_LUN_ADDR_METHOD_EXTENDED_LUN \<and>
        (r = 0 \<or> scst_pack_lun r m = lun)))"
proof -
  obtain b0 lun' where "lun = b0 # lun'" using assms by (cases lun) auto
  moreover from this obtain b1 rest where "lun' = b1 # rest" using assms by (cases lun') auto
  ultimately have lun: "lun = b0 # b1 # rest" "length rest = 6" using assms by auto
  have levels: "scst_unpack_lun lun 8 =
      (if \<forall>b\<in>set rest. b = 0 then unpack_first_level lun else Some NO_SUCH_LUN)"
    using unpack_levels[of 8 lun] lun by simp
  show ?thesis
  proof (cases "(\<forall>b\<in>set rest. b = 0) \<and> drop_bit 6 b0 \<noteq> 3")
    case True
    have "rest = replicate 6 0" using True lun(2) by (metis replicate_length_same)
    then have "lun = [b0, b1, 0, 0, 0, 0, 0, 0]" using lun by (simp add: numeral_eq_Suc)
    moreover have "scst_unpack_lun lun 8 = Some (ucast b1 OR push_bit 8 (ucast (take_bit 6 b0)))"
      using True levels first_level_value[of lun] lun by simp
    ultimately show ?thesis using pack_unpacked[of b0 b1] True by blast
  next
    case False
    then show ?thesis
      using levels first_level_value[of lun] lun by auto
  qed
qed

theorem scst_unpack_lun_valid_witness:
  "\<exists>r. scst_unpack_lun [0x41, 0x23, 0, 0, 0, 0, 0, 0] 8 = Some r"
  using scst_unpack_lun_valid[of "[0x41, 0x23, 0, 0, 0, 0, 0, 0]"] by auto

end
