(* ===== verification/Generic_Parse.thy ===== *)
theory Generic_Parse
  imports Cdb_Info
begin

text \<open>
  The generic parse routines of the device types (\<^verbatim>\<open>scst_sbc_generic_parse\<close> and its
  siblings in \<^verbatim>\<open>scst_lib.c\<close>), which turn the lengths of a parsed command from
  blocks into bytes, and the routines that write a new address or length into a command block
  (\<^verbatim>\<open>scst_set_cdb_lba\<close>, \<^verbatim>\<open>scst_set_cdb_transf_len\<close>).
  The number of timer ticks per second, a constant of the kernel, is the argument
  \<open>hz\<close> of the routines.
\<close>

section \<open>Shifts that overflow\<close>

text \<open>The macro \<^verbatim>\<open>shift_left_overflows\<close> for a signed type of the width of
  \<open>a\<close>.\<close>

definition shift_left_overflows :: "'a::len word \<Rightarrow> nat \<Rightarrow> bool" where
  "shift_left_overflows a b =
     (let shift = int LENGTH('a) - (int b + 1)
      in shift < 0 \<or> a AND NOT (push_bit (nat shift) 1 - 1) \<noteq> 0)"

text \<open>\<^verbatim>\<open>ilog2\<close> is the position of the highest bit that is set.\<close>

fun ilog2 :: "nat \<Rightarrow> int" where
  "ilog2 n = (if n \<le> 1 then 0 else 1 + ilog2 (n div 2))"

declare ilog2.simps [simp del]

definition scst_calc_block_shift :: "nat \<Rightarrow> int" where
  "scst_calc_block_shift sector_size =
     (let sector_size = (if sector_size = 0 then 512 else sector_size);
          block_shift = ilog2 sector_size
      in if block_shift < 9 then - 1 else block_shift)"

section \<open>The parse routines of the device types\<close>

abbreviation (input) HARDWARE_ERROR :: byte where "HARDWARE_ERROR \<equiv> 4"

definition block_out_range :: "scst_cmd \<Rightarrow> parse_result" where
  "block_out_range cmd = do {
     (_, cmd) \<leftarrow> scst_set_cmd_error cmd ILLEGAL_REQUEST 0x21 0;
     Some (- EINVAL, cmd) }"

definition scst_generic_parse :: "scst_cmd \<Rightarrow> nat list \<Rightarrow> parse_result" where
  "scst_generic_parse cmd timeouts = do {
     dev \<leftarrow> cmd_dev cmd;
     let bs = block_shift dev;
     let fixed = op_flags cmd AND SCST_TRANSFER_LEN_TYPE_FIXED \<noteq> 0;
     (if fixed \<and> (shift_left_overflows (bufflen cmd) bs \<or> shift_left_overflows (data_len cmd) bs \<or>
                  shift_left_overflows (out_bufflen cmd) bs)
      then block_out_range cmd
      else do {
        let cmd = (if fixed then cmd\<lparr>bufflen := push_bit bs (bufflen cmd),
                                     data_len := push_bit bs (data_len cmd),
                                     out_bufflen := push_bit bs (out_bufflen cmd)\<rparr> else cmd);
        (if op_flags cmd AND SCST_LBA_NOT_VALID = 0 \<and> shift_left_overflows (lba cmd) bs
         then block_out_range cmd
         else do {
           t \<leftarrow> rd timeouts (unat (op_flags cmd AND SCST_BOTH_TIMEOUTS));
           Some (0, cmd\<lparr>timeout := t\<rparr>) }) }) }"

definition disk_timeout :: "nat \<Rightarrow> nat list" where
  "disk_timeout hz = [60 * hz, 10 * hz, 3600 * hz, 3600 * hz]"

definition cdrom_timeout :: "nat \<Rightarrow> nat list" where
  "cdrom_timeout hz = [900 * hz, 3 * hz, 14000 * hz, 14000 * hz]"

definition modisk_timeout :: "nat \<Rightarrow> nat list" where
  "modisk_timeout hz = [900 * hz, 3 * hz, 14000 * hz, 14000 * hz]"

definition scst_sbc_generic_parse :: "nat \<Rightarrow> scst_cmd \<Rightarrow> parse_result" where
  "scst_sbc_generic_parse hz cmd = scst_generic_parse cmd (disk_timeout hz)"

definition mask_lun_bits :: "scst_cmd \<Rightarrow> scst_cmd option" where
  "mask_lun_bits cmd = do {
     b \<leftarrow> rd (cdb cmd) 1;
     Some (cmd\<lparr>cdb := (cdb cmd)[1 := b AND 0x1f]\<rparr>) }"

definition scst_cdrom_generic_parse :: "nat \<Rightarrow> scst_cmd \<Rightarrow> parse_result" where
  "scst_cdrom_generic_parse hz cmd = do {
     cmd \<leftarrow> mask_lun_bits cmd;
     scst_generic_parse cmd (cdrom_timeout hz) }"

definition scst_modisk_generic_parse :: "nat \<Rightarrow> scst_cmd \<Rightarrow> parse_result" where
  "scst_modisk_generic_parse hz cmd = do {
     cmd \<leftarrow> mask_lun_bits cmd;
     scst_generic_parse cmd (modisk_timeout hz) }"

text \<open>The lengths before the multiplication are kept in variables of 32 bits and compared, as
  unsigned numbers, with the products.\<close>

definition scst_tape_generic_parse :: "nat \<Rightarrow> scst_cmd \<Rightarrow> parse_result" where
  "scst_tape_generic_parse hz cmd = do {
     b \<leftarrow> (if op_flags cmd AND SCST_TRANSFER_LEN_TYPE_FIXED \<noteq> 0 then rd (cdb cmd) 1 else Some 0);
     let fixed = b AND 1 \<noteq> 0;
     bs \<leftarrow> (if fixed then map_option block_size (cmd_dev cmd) else Some 0);
     let ob = bufflen cmd;
     let od = (ucast (data_len cmd) :: 32 word);
     let oo = out_bufflen cmd;
     let cmd = (if fixed then cmd\<lparr>bufflen := bufflen cmd * bs,
                                  data_len := data_len cmd * scast bs,
                                  out_bufflen := out_bufflen cmd * bs\<rparr> else cmd);
     let overflow = fixed \<and> (ob < bufflen cmd \<or> od < ucast (data_len cmd) \<or> oo < out_bufflen cmd);
     (if overflow then block_out_range cmd
      else Some (0, cmd\<lparr>timeout :=
        (if op_flags cmd AND (SCST_SMALL_TIMEOUT OR SCST_LONG_TIMEOUT) = 0 then 900 * hz
         else if op_flags cmd AND SCST_SMALL_TIMEOUT \<noteq> 0 then 3 * hz else 14000 * hz)\<rparr>)) }"

definition scst_null_parse :: "scst_cmd \<Rightarrow> parse_result" where
  "scst_null_parse cmd = Some (0, cmd)"

definition long_or_short :: "nat \<Rightarrow> scst_cmd \<Rightarrow> nat" where
  "long_or_short hz cmd = (if op_flags cmd AND SCST_LONG_TIMEOUT \<noteq> 0 then 14000 * hz else 3 * hz)"

definition scst_changer_generic_parse :: "nat \<Rightarrow> scst_cmd \<Rightarrow> parse_result" where
  "scst_changer_generic_parse hz cmd = do {
     (res, cmd) \<leftarrow> scst_null_parse cmd;
     Some (res, cmd\<lparr>timeout := long_or_short hz cmd\<rparr>) }"

definition scst_processor_generic_parse :: "nat \<Rightarrow> scst_cmd \<Rightarrow> parse_result" where
  "scst_processor_generic_parse hz cmd = do {
     (res, cmd) \<leftarrow> scst_null_parse cmd;
     Some (res, cmd\<lparr>timeout := long_or_short hz cmd\<rparr>) }"

definition scst_raid_generic_parse :: "nat \<Rightarrow> scst_cmd \<Rightarrow> parse_result" where
  "scst_raid_generic_parse hz cmd = do {
     (res, cmd) \<leftarrow> scst_null_parse cmd;
     Some (res, cmd\<lparr>timeout := long_or_short hz cmd\<rparr>) }"

text \<open>The state in which a command ends that is not going to be executed.  A state the switch
  has no case for is the kernel bug \<^term>\<open>None\<close>.\<close>

definition scst_get_cmd_abnormal_done_state :: "scst_cmd \<Rightarrow> scst_cmd_state option" where
  "scst_get_cmd_abnormal_done_state cmd =
     (case cmd_state cmd of
        SCST_CMD_STATE_DEV_DONE \<Rightarrow>
          Some (if internal_cmd cmd then SCST_CMD_STATE_FINISHED_INTERNAL else SCST_CMD_STATE_PRE_XMIT_RESP1)
      | SCST_CMD_STATE_PRE_DEV_DONE \<Rightarrow> Some SCST_CMD_STATE_DEV_DONE
      | SCST_CMD_STATE_MODE_SELECT_CHECKS \<Rightarrow> Some SCST_CMD_STATE_DEV_DONE
      | SCST_CMD_STATE_PRE_XMIT_RESP1 \<Rightarrow> Some SCST_CMD_STATE_PRE_XMIT_RESP2
      | SCST_CMD_STATE_PRE_XMIT_RESP2 \<Rightarrow> Some SCST_CMD_STATE_XMIT_RESP
      | s \<Rightarrow>
          if s \<in> {SCST_CMD_STATE_INIT_WAIT, SCST_CMD_STATE_INIT, SCST_CMD_STATE_PARSE} then
            if preprocessing_only cmd then Some SCST_CMD_STATE_PREPROCESSING_DONE
            else Some (if internal_cmd cmd then SCST_CMD_STATE_FINISHED_INTERNAL else SCST_CMD_STATE_PRE_XMIT_RESP1)
          else if s \<in> {SCST_CMD_STATE_PREPROCESSING_DONE, SCST_CMD_STATE_PREPROCESSING_DONE_CALLED} then
            Some (if has_tgt_dev cmd then SCST_CMD_STATE_PRE_DEV_DONE else SCST_CMD_STATE_PRE_XMIT_RESP1)
          else if s = SCST_CMD_STATE_PREPARE_SPACE \<and> preprocessing_only cmd then
            Some SCST_CMD_STATE_PREPROCESSING_DONE
          else if s \<in> {SCST_CMD_STATE_PREPARE_SPACE, SCST_CMD_STATE_RDY_TO_XFER, SCST_CMD_STATE_DATA_WAIT,
                 SCST_CMD_STATE_TGT_PRE_EXEC, SCST_CMD_STATE_EXEC_CHECK_BLOCKING, SCST_CMD_STATE_EXEC_CHECK_SN,
                 SCST_CMD_STATE_LOCAL_EXEC, SCST_CMD_STATE_REAL_EXEC, SCST_CMD_STATE_EXEC_WAIT} then
            Some SCST_CMD_STATE_PRE_DEV_DONE
          else None)"

definition scst_set_cmd_abnormal_done_state :: "scst_cmd \<Rightarrow> scst_cmd option" where
  "scst_set_cmd_abnormal_done_state cmd = do {
     s \<leftarrow> scst_get_cmd_abnormal_done_state cmd;
     let cmd = cmd\<lparr>cmd_state := s\<rparr>;
     (if s \<in> {SCST_CMD_STATE_INIT_WAIT, SCST_CMD_STATE_INIT, SCST_CMD_STATE_PARSE,
              SCST_CMD_STATE_PREPROCESSING_DONE, SCST_CMD_STATE_PREPROCESSING_DONE_CALLED,
              SCST_CMD_STATE_PREPARE_SPACE, SCST_CMD_STATE_RDY_TO_XFER, SCST_CMD_STATE_DATA_WAIT} then
        Some (cmd\<lparr>write_len := 0, resid_possible := True\<rparr>)
      else if s \<in> {SCST_CMD_STATE_TGT_PRE_EXEC, SCST_CMD_STATE_EXEC_CHECK_SN,
              SCST_CMD_STATE_EXEC_CHECK_BLOCKING, SCST_CMD_STATE_LOCAL_EXEC, SCST_CMD_STATE_REAL_EXEC,
              SCST_CMD_STATE_EXEC_WAIT, SCST_CMD_STATE_DEV_DONE, SCST_CMD_STATE_PRE_DEV_DONE,
              SCST_CMD_STATE_MODE_SELECT_CHECKS, SCST_CMD_STATE_PRE_XMIT_RESP1,
              SCST_CMD_STATE_PRE_XMIT_RESP2, SCST_CMD_STATE_FINISHED_INTERNAL} then Some cmd
      else None) }"

text \<open>What a parse routine returns: a state of the command or one of the special values.\<close>

datatype next_state =
  Next scst_cmd_state | SCST_CMD_STATE_DEFAULT | SCST_CMD_STATE_NEED_THREAD_CTX | SCST_CMD_STATE_STOP

definition scst_do_internal_parsing :: "nat \<Rightarrow> scst_cmd \<Rightarrow> (next_state \<times> scst_cmd) option" where
  "scst_do_internal_parsing hz cmd = do {
     dev \<leftarrow> cmd_dev cmd;
     (rc, cmd) \<leftarrow> (if dev_type dev = 0 then scst_sbc_generic_parse hz cmd
        else if dev_type dev = 1 then scst_tape_generic_parse hz cmd
        else if dev_type dev = 3 then scst_processor_generic_parse hz cmd
        else if dev_type dev = 5 then scst_cdrom_generic_parse hz cmd
        else if dev_type dev = 7 then scst_modisk_generic_parse hz cmd
        else if dev_type dev = 8 then scst_changer_generic_parse hz cmd
        else if dev_type dev = 12 then scst_raid_generic_parse hz cmd
        else do {
          (_, cmd) \<leftarrow> scst_set_cmd_error cmd HARDWARE_ERROR 0x44 0;
          Some (1, cmd) });
     (if rc \<noteq> 0 then do {
        s \<leftarrow> scst_get_cmd_abnormal_done_state cmd;
        Some (Next s, cmd) }
      else Some (SCST_CMD_STATE_DEFAULT, cmd)) }"

section \<open>Writing an address or a length into a command block\<close>

definition put_cdb :: "scst_cmd \<Rightarrow> nat \<Rightarrow> nat \<Rightarrow> nat \<Rightarrow> scst_cmd option" where
  "put_cdb cmd off n v = map_option (\<lambda>c. cmd\<lparr>cdb := c\<rparr>) (wr_range off (be_bytes n v) (cdb cmd))"

definition scst_set_cdb_lba1 :: "scst_cmd \<Rightarrow> 64 word \<Rightarrow> scst_cmd option" where
  "scst_set_cdb_lba1 cmd l = put_cdb cmd (lba_off cmd) 1 (unat l)"

definition scst_set_cdb_lba2 :: "scst_cmd \<Rightarrow> 64 word \<Rightarrow> scst_cmd option" where
  "scst_set_cdb_lba2 cmd l = put_cdb cmd (lba_off cmd) 2 (unat l)"

definition scst_set_cdb_lba3 :: "scst_cmd \<Rightarrow> 64 word \<Rightarrow> scst_cmd option" where
  "scst_set_cdb_lba3 cmd l = put_cdb cmd (lba_off cmd) 3 (unat l)"

definition scst_set_cdb_lba4 :: "scst_cmd \<Rightarrow> 64 word \<Rightarrow> scst_cmd option" where
  "scst_set_cdb_lba4 cmd l = put_cdb cmd (lba_off cmd) 4 (unat l)"

definition scst_set_cdb_lba8 :: "scst_cmd \<Rightarrow> 64 word \<Rightarrow> scst_cmd option" where
  "scst_set_cdb_lba8 cmd l = put_cdb cmd (lba_off cmd) 8 (unat l)"

text \<open>The tables of functions have null pointers for the lengths no function is written for;
  a call through them is \<^term>\<open>None\<close>.\<close>

definition scst_set_cdb_lba :: "scst_cmd \<Rightarrow> 64 word \<Rightarrow> parse_result" where
  "scst_set_cdb_lba cmd l = do {
     cmd \<leftarrow> (if lba_len cmd = 1 then scst_set_cdb_lba1 cmd l
             else if lba_len cmd = 2 then scst_set_cdb_lba2 cmd l
             else if lba_len cmd = 3 then scst_set_cdb_lba3 cmd l
             else if lba_len cmd = 4 then scst_set_cdb_lba4 cmd l
             else if lba_len cmd = 8 then scst_set_cdb_lba8 cmd l
             else None);
     Some (0, cmd) }"

definition scst_set_cdb_transf_len1 :: "scst_cmd \<Rightarrow> 32 word \<Rightarrow> scst_cmd option" where
  "scst_set_cdb_transf_len1 cmd len = put_cdb cmd (len_off cmd) 1 (unat len)"

definition scst_set_cdb_transf_len2 :: "scst_cmd \<Rightarrow> 32 word \<Rightarrow> scst_cmd option" where
  "scst_set_cdb_transf_len2 cmd len = put_cdb cmd (len_off cmd) 2 (unat len)"

definition scst_set_cdb_transf_len3 :: "scst_cmd \<Rightarrow> 32 word \<Rightarrow> scst_cmd option" where
  "scst_set_cdb_transf_len3 cmd len = put_cdb cmd (len_off cmd) 3 (unat len)"

definition scst_set_cdb_transf_len4 :: "scst_cmd \<Rightarrow> 32 word \<Rightarrow> scst_cmd option" where
  "scst_set_cdb_transf_len4 cmd len = put_cdb cmd (len_off cmd) 4 (unat len)"

definition scst_set_cdb_transf_len8 :: "scst_cmd \<Rightarrow> 32 word \<Rightarrow> scst_cmd option" where
  "scst_set_cdb_transf_len8 cmd len = put_cdb cmd (len_off cmd) 8 (unat (scast len :: 64 word))"

definition scst_set_cdb_transf_len :: "scst_cmd \<Rightarrow> 32 word \<Rightarrow> parse_result" where
  "scst_set_cdb_transf_len cmd len = do {
     cmd \<leftarrow> (if len_len cmd = 1 then scst_set_cdb_transf_len1 cmd len
             else if len_len cmd = 2 then scst_set_cdb_transf_len2 cmd len
             else if len_len cmd = 3 then scst_set_cdb_transf_len3 cmd len
             else if len_len cmd = 4 then scst_set_cdb_transf_len4 cmd len
             else if len_len cmd = 8 then scst_set_cdb_transf_len8 cmd len
             else None);
     Some (0, cmd) }"

section \<open>Specification\<close>

text \<open>A number of blocks, kept in a signed variable of the width of \<open>a\<close>, that is not
  negative and whose number of bytes can be kept in such a variable.\<close>

definition blocks_fit :: "'a::len word \<Rightarrow> nat \<Rightarrow> bool" where
  "blocks_fit a b = (0 \<le> sint a \<and> sint a * 2 ^ b < 2 ^ (LENGTH('a) - 1))"

definition lengths_fit :: "scst_cmd \<Rightarrow> nat \<Rightarrow> bool" where
  "lengths_fit cmd bs = (blocks_fit (bufflen cmd) bs \<and> blocks_fit (data_len cmd) bs \<and>
     blocks_fit (out_bufflen cmd) bs)"

text \<open>The reads and writes of 10 and of 16 bytes, and their fields.\<close>

definition rw_op :: "byte \<Rightarrow> bool" where
  "rw_op op = (op \<in> {0x28, 0x2A, 0x88, 0x8A})"

definition rw_lba_len :: "byte \<Rightarrow> nat" where
  "rw_lba_len op = (if op = 0x28 \<or> op = 0x2A then 4 else 8)"

definition rw_len_off :: "byte \<Rightarrow> nat" where
  "rw_len_off op = (if op = 0x28 \<or> op = 0x2A then 7 else 10)"

definition rw_len_len :: "byte \<Rightarrow> nat" where
  "rw_len_len op = (if op = 0x28 \<or> op = 0x2A then 2 else 4)"

lemmas rw_defs = rw_lba_len_def rw_len_off_def rw_len_len_def

definition rw_lba :: "byte list \<Rightarrow> nat" where
  "rw_lba p = be_val (take (rw_lba_len (p ! 0)) (drop 2 p))"

definition rw_blocks :: "byte list \<Rightarrow> nat" where
  "rw_blocks p = be_val (take (rw_len_len (p ! 0)) (drop (rw_len_off (p ! 0)) p))"

text \<open>Abnormal completion, repeated until the command is about to be answered or, when it is
  internal, finished.\<close>

primrec abnormal_run :: "nat \<Rightarrow> scst_cmd \<Rightarrow> scst_cmd option" where
  "abnormal_run 0 cmd = Some cmd"
| "abnormal_run (Suc n) cmd =
     (if cmd_state cmd \<in> {SCST_CMD_STATE_PRE_XMIT_RESP2, SCST_CMD_STATE_FINISHED_INTERNAL} then Some cmd
      else do {
        cmd \<leftarrow> scst_set_cmd_abnormal_done_state cmd;
        abnormal_run n cmd })"

definition ex_rw :: "byte list \<Rightarrow> scst_cmd" where
  "ex_rw bs = (ex_cdb 0x28)\<lparr>cdb := [0x28] @ bs @ replicate (15 - length bs) 0\<rparr>"

section \<open>Shifts\<close>

lemma unat_less_exp_iff: "unat a < 2 ^ s \<longleftrightarrow> take_bit s a = a" for a :: "'a::len word"
proof -
  have "take_bit s a = a \<longleftrightarrow> unat (take_bit s a) = unat a" by (rule word_unat_eq_iff)
  also have "unat (take_bit s a) = take_bit s (unat a)" by (rule unsigned_take_bit_eq)
  also have "take_bit s (unat a) = unat a \<longleftrightarrow> unat a < 2 ^ s" by (rule take_bit_nat_eq_self_iff)
  finally show ?thesis by simp
qed

lemma and_not_mask_0_iff: "a AND NOT (mask s) = 0 \<longleftrightarrow> unat a < 2 ^ s" for a :: "'a::len word"
  unfolding unat_less_exp_iff by (auto simp: bit_eq_iff bit_simps)

lemma small_iff_nonneg:
  "unat a < 2 ^ (LENGTH('a) - Suc 0) \<longleftrightarrow> 0 \<le> sint a" for a :: "'a::len word"
proof -
  have "take_bit (LENGTH('a) - Suc 0) a = a \<longleftrightarrow> \<not> bit a (LENGTH('a) - Suc 0)"
  proof
    assume "\<not> bit a (LENGTH('a) - Suc 0)"
    then have "bit a n \<Longrightarrow> n < LENGTH('a) - Suc 0" for n
      using bit_imp_le_length[of a n] by (cases "n = LENGTH('a) - Suc 0") auto
    then show "take_bit (LENGTH('a) - Suc 0) a = a" by (auto simp: bit_eq_iff bit_take_bit_iff)
  next
    assume "take_bit (LENGTH('a) - Suc 0) a = a"
    then show "\<not> bit a (LENGTH('a) - Suc 0)" by (metis bit_take_bit_iff less_irrefl)
  qed
  then show ?thesis unfolding unat_less_exp_iff bit_last_iff by auto
qed

lemma sint_small:
  assumes "unat (a :: 'a::len word) < 2 ^ (LENGTH('a) - Suc 0)"
  shows "sint a = int (unat a)"
proof -
  have "int (unat a) < 2 ^ (LENGTH('a) - Suc 0)" using assms by (simp del: of_nat_unat)
  then have "signed_take_bit (LENGTH('a) - Suc 0) (int (unat a)) = int (unat a)"
    by (intro signed_take_bit_int_eq_self) (auto intro: order_trans[of _ 0])
  then show ?thesis by (simp add: sint_uint)
qed

lemma blocks_fit_unat:
  "blocks_fit a b \<longleftrightarrow> unat a * 2 ^ b < 2 ^ (LENGTH('a) - Suc 0)" for a :: "'a::len word"
proof
  assume fit: "blocks_fit a b"
  then have "sint a = int (unat a)"
    by (intro sint_small) (simp add: small_iff_nonneg blocks_fit_def)
  with fit have "int (unat a * 2 ^ b) < int (2 ^ (LENGTH('a) - Suc 0))"
    by (simp add: blocks_fit_def)
  then show "unat a * 2 ^ b < 2 ^ (LENGTH('a) - Suc 0)" by (simp only: of_nat_less_iff)
next
  assume less: "unat a * 2 ^ b < 2 ^ (LENGTH('a) - Suc 0)"
  have "unat a \<le> unat a * 2 ^ b" by simp
  then have small: "unat a < 2 ^ (LENGTH('a) - Suc 0)" using less by (rule le_less_trans)
  have "int (unat a * 2 ^ b) < int (2 ^ (LENGTH('a) - Suc 0))" using less by (simp only: of_nat_less_iff)
  then show "blocks_fit a b"
    using small sint_small[OF small] by (simp add: blocks_fit_def small_iff_nonneg)
qed

lemma shift_left_overflows_iff:
  fixes a :: "'a::len word"
  assumes "b < LENGTH('a)"
  shows "shift_left_overflows a b \<longleftrightarrow> \<not> blocks_fit a b"
proof -
  define s where "s = LENGTH('a) - Suc 0 - b"
  have s: "int LENGTH('a) - (int b + 1) = int s" using assms by (simp add: s_def)
  have "push_bit s (1 :: 'a word) - 1 = mask s" by (simp add: mask_eq_exp_minus_1 push_bit_of_1)
  then have "shift_left_overflows a b \<longleftrightarrow> \<not> unat a < 2 ^ s"
    unfolding shift_left_overflows_def s Let_def by (simp add: and_not_mask_0_iff)
  also have "(2 :: nat) ^ (LENGTH('a) - Suc 0) = 2 ^ s * 2 ^ b"
    using assms by (simp add: s_def flip: power_add)
  then have "unat a < 2 ^ s \<longleftrightarrow> blocks_fit a b" by (simp add: blocks_fit_unat)
  finally show ?thesis .
qed

lemma sint_push_bit:
  fixes a :: "'a::len word"
  assumes "blocks_fit a b"
  shows "sint (push_bit b a) = sint a * 2 ^ b"
proof -
  have less: "unat a * 2 ^ b < 2 ^ (LENGTH('a) - Suc 0)" using assms by (simp add: blocks_fit_unat)
  have "(2 :: nat) ^ (LENGTH('a) - Suc 0) \<le> 2 ^ LENGTH('a)" by (rule power_increasing) auto
  then have "unat a * 2 ^ b < 2 ^ LENGTH('a)" by (rule less_le_trans[OF less])
  then have "take_bit LENGTH('a) (unat a * 2 ^ b) = unat a * 2 ^ b"
    by (simp only: take_bit_nat_eq_self_iff)
  moreover have "unat (push_bit b a) = take_bit LENGTH('a) (push_bit b (unat a))"
    by (rule unsigned_push_bit_eq)
  moreover have "push_bit b (unat a) = unat a * 2 ^ b" by (rule push_bit_eq_mult)
  ultimately have u: "unat (push_bit b a) = unat a * 2 ^ b" by simp
  have "sint a = int (unat a)"
    using assms by (intro sint_small) (simp add: small_iff_nonneg blocks_fit_def)
  moreover have "sint (push_bit b a) = int (unat (push_bit b a))"
    using less by (intro sint_small) (simp only: u)
  ultimately show ?thesis by (simp only: u of_nat_mult of_nat_power of_nat_numeral)
qed

section \<open>From blocks to bytes\<close>

lemma block_out_range_reports:
  assumes "cmd_sense_ok cmd"
  shows "\<exists>c. block_out_range cmd = Some (- EINVAL, c) \<and> cmd_frame cmd c \<and> cmd_status c \<noteq> 0"
  using error_reports(3)[OF assms, of "0x21" ILLEGAL_REQUEST 0] by (auto simp: block_out_range_def)

lemma timeout_index: "unat (w AND SCST_BOTH_TIMEOUTS) < 4"
proof -
  have "w AND SCST_BOTH_TIMEOUTS = take_bit 2 w"
    by (simp add: flag_defs take_bit_eq_mask mask_eq_exp_minus_1)
  moreover have "unat (take_bit 2 w) = take_bit 2 (unat w)" by (rule unsigned_take_bit_eq)
  moreover have "take_bit 2 (unat w) < 2 ^ 2" by (rule take_bit_nat_less_exp)
  ultimately show ?thesis by simp
qed

lemma scst_generic_parse_result:
  assumes "cmd_sense_ok cmd" "cmd_dev cmd = Some dev" "block_shift dev < 32" "length ts = 4"
    "op_flags cmd AND SCST_TRANSFER_LEN_TYPE_FIXED \<noteq> 0" "op_flags cmd AND SCST_LBA_NOT_VALID = 0"
  defines "bs \<equiv> block_shift dev"
  shows "if lengths_fit cmd bs \<and> blocks_fit (lba cmd) bs
    then scst_generic_parse cmd ts = Some (0, cmd\<lparr>bufflen := push_bit bs (bufflen cmd),
           data_len := push_bit bs (data_len cmd), out_bufflen := push_bit bs (out_bufflen cmd),
           timeout := ts ! unat (op_flags cmd AND SCST_BOTH_TIMEOUTS)\<rparr>)
    else \<exists>c. scst_generic_parse cmd ts = Some (- EINVAL, c) \<and> cmd_status c \<noteq> 0"
proof -
  let ?c = "cmd\<lparr>bufflen := push_bit bs (bufflen cmd), data_len := push_bit bs (data_len cmd),
    out_bufflen := push_bit bs (out_bufflen cmd)\<rparr>"
  have ok: "cmd_sense_ok ?c" using assms(1) by (simp add: cmd_sense_ok_def split: option.splits)
  have fits: "shift_left_overflows (bufflen cmd) bs \<longleftrightarrow> \<not> blocks_fit (bufflen cmd) bs"
    "shift_left_overflows (data_len cmd) bs \<longleftrightarrow> \<not> blocks_fit (data_len cmd) bs"
    "shift_left_overflows (out_bufflen cmd) bs \<longleftrightarrow> \<not> blocks_fit (out_bufflen cmd) bs"
    "shift_left_overflows (lba cmd) bs \<longleftrightarrow> \<not> blocks_fit (lba cmd) bs"
    using assms(3) unfolding bs_def by (simp_all add: shift_left_overflows_iff)
  have t: "rd ts (unat (op_flags cmd AND SCST_BOTH_TIMEOUTS)) =
      Some (ts ! unat (op_flags cmd AND SCST_BOTH_TIMEOUTS))"
    using timeout_index[of "op_flags cmd"] assms(4) by (simp add: rd_def)
  show ?thesis
    using assms(2,5,6) block_out_range_reports[OF assms(1)] block_out_range_reports[OF ok] t
    by (auto simp: scst_generic_parse_def lengths_fit_def fits Let_def bs_def[symmetric])
qed

section \<open>Reads and writes\<close>

lemma op_lookup_skip:
  "list_all (\<lambda>e. ops e \<noteq> op) xs \<Longrightarrow> op_lookup (xs @ ys) op t = op_lookup ys op t"
  by (induction xs) (auto simp: op_lookup_def)

lemma op_lookup_hit: "op_lookup xs op t = Some e \<Longrightarrow> op_lookup (xs @ ys) op t = Some e"
  by (induction xs) (auto simp: op_lookup_def split: if_splits)

text \<open>The entries of the reads and writes of 10 and 16 bytes for disks.\<close>

lemma rw_entry:
  assumes "rw_op op"
  obtains e where "op_lookup scst_scsi_op_table op 0 = Some e"
    "info_lba_off e = 2" "info_lba_len e = rw_lba_len op"
    "info_len_off e = rw_len_off op" "info_len_len e = rw_len_len op"
    "info_op_flags e AND SCST_TRANSFER_LEN_TYPE_FIXED \<noteq> 0" "info_op_flags e AND SCST_LBA_NOT_VALID = 0"
    "info_data_direction e = (if op = 0x28 \<or> op = 0x88 then SCST_DATA_READ else SCST_DATA_WRITE)"
    "get_cdb_info e = (if op = 0x28 then cdb_info_read_10 else if op = 0x2A then cdb_info_lba_4_len_2_wrprotect
       else if op = 0x88 then cdb_info_read_16 else cdb_info_lba_8_len_4_wrprotect)"
proof -
  have skip: "list_all (\<lambda>e. ops e \<noteq> op) scst_scsi_op_table_1" "list_all (\<lambda>e. ops e \<noteq> op) scst_scsi_op_table_2"
    using assms by (auto simp: scst_scsi_op_table_1_def scst_scsi_op_table_2_def sdbops_make_sel rw_op_def)
  have skip16: "list_all (\<lambda>e. ops e \<noteq> op) scst_scsi_op_table_3" "list_all (\<lambda>e. ops e \<noteq> op) scst_scsi_op_table_4"
    "list_all (\<lambda>e. ops e \<noteq> op) scst_scsi_op_table_5" if "op = 0x88 \<or> op = 0x8A"
    using that by (auto simp: scst_scsi_op_table_3_def scst_scsi_op_table_4_def scst_scsi_op_table_5_def
        sdbops_make_sel)
  have t3: "op_lookup scst_scsi_op_table_3 0x28 0 = Some (scst_scsi_op_table_3 ! 0)"
    "op_lookup scst_scsi_op_table_3 0x2A 0 = Some (scst_scsi_op_table_3 ! 3)"
    by (simp_all add: op_lookup_def scst_scsi_op_table_3_def sdbops_make_sel devkey_at_def)
  have t6: "op_lookup scst_scsi_op_table_6 0x88 0 = Some (scst_scsi_op_table_6 ! 0)"
    "op_lookup scst_scsi_op_table_6 0x8A 0 = Some (scst_scsi_op_table_6 ! 2)"
    by (simp_all add: op_lookup_def scst_scsi_op_table_6_def sdbops_make_sel devkey_at_def)
  define e where "e = (if op = 0x28 then scst_scsi_op_table_3 ! 0 else if op = 0x2A then scst_scsi_op_table_3 ! 3
    else if op = 0x88 then scst_scsi_op_table_6 ! 0 else scst_scsi_op_table_6 ! 2)"
  have "op_lookup scst_scsi_op_table op 0 = Some e"
    using assms skip skip16 t3 t6 unfolding rw_op_def e_def
    by (auto simp: scst_scsi_op_table_def op_lookup_skip op_lookup_hit)
  then show ?thesis
    by (rule that) (use assms in \<open>auto simp: e_def rw_op_def rw_defs scst_scsi_op_table_3_def
      scst_scsi_op_table_6_def sdbops_make_sel flag_defs\<close>)
qed

lemma be_ucast:
  "length p \<ge> off + 4 \<Longrightarrow> ucast (of_nat (be_val (take 4 (drop off p))) :: 32 word) = (of_nat (be_val (take 4 (drop off p))) :: 64 word)"
  "length p \<ge> off + 2 \<Longrightarrow> ucast (of_nat (be_val (take 2 (drop off p))) :: 16 word) = (of_nat (be_val (take 2 (drop off p))) :: 32 word)"
  using be_val_less[of "take 4 (drop off p)"] be_val_less[of "take 2 (drop off p)"]
  by (simp_all add: unsigned_of_nat take_bit_nat_eq_self)

lemma rw_routine:
  fixes cmd c e
  defines "op \<equiv> cdb cmd ! 0"
  assumes len: "16 \<le> length (cdb cmd)" and "rw_op op" and prot: "cdb cmd ! 1 AND 0xE0 = 0"
    and keeps: "cmd_keeps cmd c" and dev: "cmd_dev cmd = Some dev" "dev_dif_mode dev = SCST_DIF_MODE_NONE"
    and e: "info_lba_off e = 2" "info_len_off e = rw_len_off op"
      "get_cdb_info e = (if op = 0x28 then cdb_info_read_10 else if op = 0x2A then cdb_info_lba_4_len_2_wrprotect
         else if op = 0x88 then cdb_info_read_16 else cdb_info_lba_8_len_4_wrprotect)"
  shows "\<exists>x. call_get_cdb_info (get_cdb_info e) c e =
      Some (0, c\<lparr>lba := of_nat (rw_lba (cdb cmd)), bufflen := of_nat (rw_blocks (cdb cmd)),
        data_len := scast (of_nat (rw_blocks (cdb cmd)) :: 32 word), cmd_corrupt_dif_tag := x\<rparr>)"
proof -
  have r: "rd (cdb c) 1 = Some (cdb cmd ! 1)" "xprotect (cdb cmd ! 1) = 0"
    "rd (cdb c) 6 = Some (cdb cmd ! 6)" "rd (cdb c) 14 = Some (cdb cmd ! 14)"
    using len prot keeps by (simp_all add: rd_def cmd_keeps_def xprotect_def)
  have d: "cmd_dev c = Some dev" "cdb c = cdb cmd" using keeps dev(1) by (simp_all add: cmd_keeps_def)
  note sm = call_get_cdb_info_def get_unaligned_be16_def get_unaligned_be32_def get_unaligned_be64_def
    mem_simps set_bufflen_def rw_defs rw_lba_def rw_blocks_def be_ucast
    scst_parse_rdprotect_def scst_parse_wrprotect_def op_def
  note facts = e[unfolded op_def] len r d dev(2)
  consider "cdb cmd ! 0 = 0x28" | "cdb cmd ! 0 = 0x2A" | "cdb cmd ! 0 = 0x88" | "cdb cmd ! 0 = 0x8A"
    using assms(3) by (auto simp: rw_op_def op_def)
  then show ?thesis
  proof cases
    case 1
    then show ?thesis
      using facts by (intro exI[of _ "ucast (drop_bit 5 (cdb cmd ! 6 AND 0xE0))"])
        (simp add: sm get_cdb_info_read_10_def get_cdb_info_lba_4_len_2_def)
  next
    case 2
    then show ?thesis
      using facts by (intro exI[of _ "cmd_corrupt_dif_tag c"])
        (simp add: sm get_cdb_info_lba_4_len_2_wrprotect_def get_cdb_info_lba_4_len_2_def)
  next
    case 3
    then show ?thesis
      using facts by (intro exI[of _ "ucast (drop_bit 5 (cdb cmd ! 14 AND 0xE0))"])
        (simp add: sm get_cdb_info_read_16_def get_cdb_info_lba_8_len_4_def)
  next
    case 4
    then show ?thesis
      using facts by (intro exI[of _ "cmd_corrupt_dif_tag c"])
        (simp add: sm get_cdb_info_lba_8_len_4_wrprotect_def get_cdb_info_lba_8_len_4_def)
  qed
qed

lemma rw_parse:
  assumes "cmd_wf cmd" "cmd_dev cmd = Some dev" "dev_type dev = 0" "dev_dif_mode dev = SCST_DIF_MODE_NONE"
    "rw_op (cdb cmd ! 0)" "cdb cmd ! 1 AND 0xE0 = 0"
  obtains c where "scst_get_cdb_info cmd = Some (0, c)" "cdb c = cdb cmd" "cmd_dev c = cmd_dev cmd" "cmd_wf c"
    "lba c = of_nat (rw_lba (cdb cmd))" "bufflen c = of_nat (rw_blocks (cdb cmd))"
    "data_len c = scast (bufflen c)" "out_bufflen c = out_bufflen cmd"
    "lba_off c = 2" "lba_len c = rw_lba_len (cdb cmd ! 0)"
    "len_off c = rw_len_off (cdb cmd ! 0)" "len_len c = rw_len_len (cdb cmd ! 0)"
    "op_flags c AND SCST_TRANSFER_LEN_TYPE_FIXED \<noteq> 0" "op_flags c AND SCST_LBA_NOT_VALID = 0"
    "data_direction c = (if cdb cmd ! 0 = 0x28 \<or> cdb cmd ! 0 = 0x88 then SCST_DATA_READ else SCST_DATA_WRITE)"
proof -
  let ?op = "cdb cmd ! 0"
  have len: "16 \<le> length (cdb cmd)" "cdb cmd \<noteq> []" using assms(1) by (auto simp: cmd_wf_def)
  have comp: "cdb_complete cmd"
    using assms(5) len by (auto simp: cdb_complete_def rw_op_def SCST_GET_CDB_LEN_def SCST_CDB_GROUP_def
        scst_cdb_length_def)
  obtain e where e: "op_lookup scst_scsi_op_table ?op 0 = Some e"
    "info_lba_off e = 2" "info_lba_len e = rw_lba_len ?op"
    "info_len_off e = rw_len_off ?op" "info_len_len e = rw_len_len ?op"
    "info_op_flags e AND SCST_TRANSFER_LEN_TYPE_FIXED \<noteq> 0" "info_op_flags e AND SCST_LBA_NOT_VALID = 0"
    "info_data_direction e = (if ?op = 0x28 \<or> ?op = 0x88 then SCST_DATA_READ else SCST_DATA_WRITE)"
    "get_cdb_info e = (if ?op = 0x28 then cdb_info_read_10 else if ?op = 0x2A then cdb_info_lba_4_len_2_wrprotect
       else if ?op = 0x88 then cdb_info_read_16 else cdb_info_lba_8_len_4_wrprotect)"
    using assms(5) by (rule rw_entry)
  obtain c where c: "scst_set_cmd_from_cdb_info call_get_cdb_info cmd e = call_get_cdb_info (get_cdb_info e) c e"
    "cmd_keeps cmd c" "cdb_len c = SCST_GET_CDB_LEN ?op" "op_flags c = info_op_flags e OR SCST_INFO_VALID"
    "bufflen c = bufflen cmd" "out_bufflen c = out_bufflen cmd" "data_direction c = info_data_direction e"
    "lba_off c = info_lba_off e" "lba_len c = info_lba_len e" "len_off c = info_len_off e" "len_len c = info_len_len e"
    using assms(1) comp by (rule set_cmd_from_cdb_info_call)
  have get: "scst_get_cdb_info cmd = call_get_cdb_info (get_cdb_info e) c e"
    using scst_get_cdb_info_lookup[OF assms(2) _ len(2)] assms(3) e(1) c(1) by simp
  have fl: "op_flags c AND SCST_TRANSFER_LEN_TYPE_FIXED \<noteq> 0" "op_flags c AND SCST_LBA_NOT_VALID = 0"
    using e(6,7) c(4) by (simp_all add: bit.conj_disj_distrib2 flag_defs)
  have d: "cmd_dev c = Some dev" "cdb c = cdb cmd" using c(2) assms(2) by (simp_all add: cmd_keeps_def)
  obtain x where x: "scst_get_cdb_info cmd =
      Some (0, c\<lparr>lba := of_nat (rw_lba (cdb cmd)), bufflen := of_nat (rw_blocks (cdb cmd)),
        data_len := scast (of_nat (rw_blocks (cdb cmd)) :: 32 word), cmd_corrupt_dif_tag := x\<rparr>)"
    using rw_routine[OF len(1) assms(5,6) c(2) assms(2,4) e(2,4,9)] get by auto
  show thesis
    using cmd_wf_keeps[OF c(2) assms(1)] d c(5-11) e(2-5,8) fl assms(2)
    by (intro that[OF x]) (simp_all add: cmd_wf_def cmd_sense_ok_def split: option.splits)
qed

lemma unat_of_nat_small: "n < 2 ^ LENGTH('a) \<Longrightarrow> unat (of_nat n :: 'a::len word) = n"
  by (simp add: unsigned_of_nat take_bit_nat_eq_self)

lemma rw_fields_less: "rw_lba p < 2 ^ 64" "rw_blocks p < 2 ^ 32"
proof -
  have "be_val (take n xs) < 256 ^ n" for n xs
  proof -
    have "(256 :: nat) ^ length (take n xs) \<le> 256 ^ n" by (rule power_increasing) auto
    with be_val_less[of "take n xs"] show ?thesis by (rule less_le_trans)
  qed
  from this[of 4 "drop 2 p"] this[of 8 "drop 2 p"] this[of 2 "drop 7 p"] this[of 4 "drop 10 p"]
  show "rw_lba p < 2 ^ 64" "rw_blocks p < 2 ^ 32"
    by (simp_all add: rw_lba_def rw_blocks_def rw_defs)
qed

lemma sint_blocks:
  assumes "w = scast (a :: 32 word)" "unat a * 2 ^ b < 2 ^ 31"
  shows "sint a = int (unat a)" "sint (w :: 64 word) = int (unat a)" "unat w = unat a"
proof -
  have "unat a \<le> unat a * 2 ^ b" by simp
  then have small: "unat a < 2 ^ 31" using assms(2) by (rule le_less_trans)
  then show s: "sint a = int (unat a)" by (intro sint_small) simp
  have "w = word_of_int (int (unat a))" using assms(1) s by (simp add: scast_eq)
  then have "w = of_nat (unat a)" by simp
  then show w: "unat w = unat a" using small unat_of_nat_small[of "unat a", where 'a = 64] by simp
  show "sint w = int (unat a)" using small by (subst sint_small) (simp_all add: w)
qed

lemma lengths_fit_iff:
  assumes "data_len c = scast (bufflen c)"
  shows "lengths_fit c b \<longleftrightarrow> unat (bufflen c) * 2 ^ b < 2 ^ 31 \<and> blocks_fit (out_bufflen c) b"
  using sint_blocks(3)[OF assms, of b] by (auto simp: lengths_fit_def blocks_fit_unat)

lemmas set_cdb_defs = scst_set_cdb_lba_def scst_set_cdb_lba4_def scst_set_cdb_lba8_def
  scst_set_cdb_transf_len_def scst_set_cdb_transf_len2_def scst_set_cdb_transf_len4_def put_cdb_def

lemma rw_overwritten:
  fixes l :: "64 word" and n :: "32 word" and p
  defines "op \<equiv> p ! 0"
  defines "p2 \<equiv> overwrite 2 (be_bytes (rw_lba_len op) (unat l)) p"
  defines "p3 \<equiv> overwrite (rw_len_off op) (be_bytes (rw_len_len op) (unat n)) p2"
  assumes "16 \<le> length p" "rw_op (p ! 0)"
  shows "length p3 = length p" "p3 ! 0 = p ! 0" "p3 ! 1 = p ! 1"
    "rw_lba p3 = unat l mod 256 ^ rw_lba_len op" "rw_blocks p3 = unat n mod 256 ^ rw_len_len op"
    "\<forall>i. i < length p \<longrightarrow> \<not> (2 \<le> i \<and> i < 2 + rw_lba_len op) \<longrightarrow>
       \<not> (rw_len_off op \<le> i \<and> i < rw_len_off op + rw_len_len op) \<longrightarrow> p3 ! i = p ! i"
proof -
  have w: "2 + rw_lba_len op \<le> rw_len_off op" "rw_len_off op + rw_len_len op \<le> length p"
    using assms(4) by (simp_all add: rw_defs)
  have len: "length p2 = length p" "length p3 = length p"
    using w by (simp_all add: p2_def p3_def)
  have nth: "p3 ! i = p ! i" if "i < length p" "\<not> (2 \<le> i \<and> i < 2 + rw_lba_len op)"
    "\<not> (rw_len_off op \<le> i \<and> i < rw_len_off op + rw_len_len op)" for i
    using that w len by (auto simp: p3_def p2_def nth_overwrite)
  show "length p3 = length p" by (rule len)
  show p0: "p3 ! 0 = p ! 0" "p3 ! 1 = p ! 1"
    using w assms(4) by (auto intro!: nth)
  have "rd_range p3 2 (rw_lba_len op) = rd_range p2 2 (rw_lba_len op)"
    unfolding p3_def by (rule rd_range_overwrite_disjoint) (use w len in simp_all)
  also have "\<dots> = Some (be_bytes (rw_lba_len op) (unat l))"
    using rd_range_overwrite_same[of 2 "be_bytes (rw_lba_len op) (unat l)" p] w by (simp add: p2_def)
  finally show "rw_lba p3 = unat l mod 256 ^ rw_lba_len op"
    using w len by (simp add: rw_lba_def rd_range_def p0 be_simps flip: op_def)
  have "rd_range p3 (rw_len_off op) (rw_len_len op) = Some (be_bytes (rw_len_len op) (unat n))"
    using rd_range_overwrite_same[of "rw_len_off op" "be_bytes (rw_len_len op) (unat n)" p2] w len
    by (simp add: p3_def)
  then show "rw_blocks p3 = unat n mod 256 ^ rw_len_len op"
    using w len by (simp add: rw_blocks_def rd_range_def p0 be_simps flip: op_def)
  show "\<forall>i. i < length p \<longrightarrow> \<not> (2 \<le> i \<and> i < 2 + rw_lba_len op) \<longrightarrow>
       \<not> (rw_len_off op \<le> i \<and> i < rw_len_off op + rw_len_len op) \<longrightarrow> p3 ! i = p ! i"
    using nth by blast
qed

section \<open>Properties\<close>

text \<open>
  C7.  The number of bytes of a disk command is computed without overflow.  A command whose
  lengths and address count blocks gets its byte lengths, exactly the number of blocks times the
  block size, when all of them fit into their signed variables; otherwise it is refused with an
  error for the initiator and \<^verbatim>\<open>-EINVAL\<close>, also for negative lengths.
\<close>

theorem scst_sbc_generic_parse_no_overflow:
  assumes "cmd_sense_ok cmd" "cmd_dev cmd = Some dev" "block_shift dev < 32"
    "op_flags cmd AND SCST_TRANSFER_LEN_TYPE_FIXED \<noteq> 0" "op_flags cmd AND SCST_LBA_NOT_VALID = 0"
  shows "\<exists>c. (if lengths_fit cmd (block_shift dev) \<and> blocks_fit (lba cmd) (block_shift dev)
     then scst_sbc_generic_parse hz cmd = Some (0, c) \<and>
          sint (bufflen c) = sint (bufflen cmd) * 2 ^ block_shift dev \<and>
          sint (data_len c) = sint (data_len cmd) * 2 ^ block_shift dev \<and>
          sint (out_bufflen c) = sint (out_bufflen cmd) * 2 ^ block_shift dev \<and>
          lba c = lba cmd \<and> cdb c = cdb cmd \<and> cmd_status c = cmd_status cmd
     else scst_sbc_generic_parse hz cmd = Some (- EINVAL, c) \<and> cmd_status c \<noteq> 0)"
  using scst_generic_parse_result[OF assms(1-3), of "disk_timeout hz"] assms(4,5)
  by (auto simp: scst_sbc_generic_parse_def disk_timeout_def lengths_fit_def sint_push_bit split: if_splits)

theorem scst_sbc_generic_parse_no_overflow_witness:
  "\<exists>c. scst_sbc_generic_parse 100 ((ex_cdb 0x28)\<lparr>op_flags := SCST_TRANSFER_LEN_TYPE_FIXED, bufflen := 8\<rparr>) =
     Some (0, c) \<and> sint (bufflen c) = 4096"
proof -
  let ?c = "(ex_cdb 0x28)\<lparr>op_flags := SCST_TRANSFER_LEN_TYPE_FIXED, bufflen := 8\<rparr>"
  have "cmd_sense_ok ?c" "cmd_dev ?c = Some ex_disk" "block_shift ex_disk = 9" "block_shift ex_disk < 32"
    "op_flags ?c AND SCST_TRANSFER_LEN_TYPE_FIXED \<noteq> 0" "op_flags ?c AND SCST_LBA_NOT_VALID = 0"
    "lengths_fit ?c 9" "blocks_fit (lba ?c) 9" "sint (bufflen ?c) = 8"
    by (simp_all add: ex_cdb_def ex_cmd_def ex_disk_def cmd_sense_ok_def flag_defs lengths_fit_def
        blocks_fit_def)
  then show ?thesis
    using scst_sbc_generic_parse_no_overflow[of ?c ex_disk 100] by auto
qed





text \<open>
  C38.  The overflow check of the parse routine for tapes is the wrong way round: it refuses a
  transfer in fixed-size blocks exactly when the product of the number of blocks and the block
  size is larger than the number of blocks, that is whenever the multiplication did what it is
  meant to do.
\<close>

theorem tape_fixed_blocks_refused:
  assumes "cmd_sense_ok cmd" "cmd_dev cmd = Some dev" "2 \<le> length (cdb cmd)"
    "op_flags cmd AND SCST_TRANSFER_LEN_TYPE_FIXED \<noteq> 0" "cdb cmd ! 1 AND 1 \<noteq> 0"
    "bufflen cmd \<noteq> 0" "1 < unat (block_size dev)" "unat (bufflen cmd) * unat (block_size dev) < 2 ^ 32"
  shows "\<exists>c. scst_tape_generic_parse hz cmd = Some (- EINVAL, c) \<and> cmd_status c \<noteq> 0"
proof -
  have "unat (bufflen cmd * block_size dev) = unat (bufflen cmd) * unat (block_size dev)"
    using assms(8) by (intro unat_mult_lem[THEN iffD1]) simp
  moreover have "unat (bufflen cmd) < unat (bufflen cmd) * unat (block_size dev)"
    using assms(6,7) by (simp add: unat_gt_0)
  ultimately have less: "bufflen cmd < bufflen cmd * block_size dev" by (simp add: word_less_nat_alt)
  let ?c = "cmd\<lparr>bufflen := bufflen cmd * block_size dev, data_len := data_len cmd * scast (block_size dev),
    out_bufflen := out_bufflen cmd * block_size dev\<rparr>"
  have "cmd_sense_ok ?c" using assms(1) by (simp add: cmd_sense_ok_def split: option.splits)
  from block_out_range_reports[OF this] show ?thesis
    using assms(2-5) less by (auto simp: scst_tape_generic_parse_def Let_def rd_def)
qed

theorem tape_fixed_blocks_refused_witness:
  "\<exists>c. scst_tape_generic_parse 100 ((ex_rw [1])\<lparr>op_flags := SCST_TRANSFER_LEN_TYPE_FIXED, bufflen := 4\<rparr>) =
     Some (- EINVAL, c) \<and> cmd_status c \<noteq> 0"
  by (rule tape_fixed_blocks_refused[of _ ex_disk])
    (simp_all add: ex_rw_def ex_cdb_def ex_cmd_def ex_disk_def cmd_sense_ok_def flag_defs)


end
