(* ===== verification/Pres_Tid.thy ===== *)
theory Pres_Tid
  imports Cdb_Info
begin

text \<open>
  Transport identifiers of initiator ports (\<^verbatim>\<open>scst_pres.c\<close>): their size, the
  termination of the name in them and their comparison.  An identifier is the memory from its
  first byte on, so that a read behind the end of the object is \<^term>\<open>None\<close>.
\<close>

section \<open>Strings\<close>

text \<open>The library's \<^verbatim>\<open>strnlen\<close>, \<^verbatim>\<open>strnchr\<close> (which stops at the
  terminating zero) and \<^verbatim>\<open>tolower\<close> (the kernel's, for the Latin-1 alphabet).\<close>

fun strnlen :: "byte list \<Rightarrow> nat \<Rightarrow> nat option" where
  "strnlen s 0 = Some 0"
| "strnlen [] (Suc n) = None"
| "strnlen (c # s) (Suc n) = (if c = 0 then Some 0 else map_option Suc (strnlen s n))"

fun strnchr :: "byte list \<Rightarrow> nat \<Rightarrow> byte \<Rightarrow> nat option option" where
  "strnchr s 0 x = Some None"
| "strnchr [] (Suc n) x = None"
| "strnchr (c # s) (Suc n) x =
     (if c = 0 then Some None else if c = x then Some (Some 0)
      else map_option (map_option Suc) (strnchr s n x))"

definition isupper :: "byte \<Rightarrow> bool" where
  "isupper c = (0x41 \<le> c \<and> c \<le> 0x5A \<or> 0xC0 \<le> c \<and> c \<le> 0xDE \<and> c \<noteq> 0xD7)"

definition tolower :: "byte \<Rightarrow> byte" where
  "tolower c = (if isupper c then c + 0x20 else c)"

section \<open>Model\<close>

definition SCSI_TRANSPORTID_PROTOCOLID_ISCSI :: byte where
  "SCSI_TRANSPORTID_PROTOCOLID_ISCSI = 5"

definition TID_COMMON_SIZE :: nat where
  "TID_COMMON_SIZE = 24"

definition scst_tid_size :: "byte list \<Rightarrow> nat option" where
  "scst_tid_size tid = do {
     b \<leftarrow> rd tid 0;
     if b AND 0x0f = SCSI_TRANSPORTID_PROTOCOLID_ISCSI then do {
       n \<leftarrow> get_unaligned_be16 tid 2;
       Some (unat n + 4) }
     else Some TID_COMMON_SIZE }"

definition tid_secure :: "byte list \<Rightarrow> byte list option" where
  "tid_secure tid = do {
     b \<leftarrow> rd tid 0;
     if b AND 0x0f = SCSI_TRANSPORTID_PROTOCOLID_ISCSI then do {
       size \<leftarrow> scst_tid_size tid;
       wr_range (size - 1) [0] tid }
     else Some tid }"

text \<open>The length of the name in an iSCSI identifier of the format \<open>fmt\<close> that is compared
  with one of the format \<open>fmt'\<close>: a name with a session identifier is cut off at the
  comma when the other one is without.  The inner \<^term>\<open>None\<close> is an invalid
  identifier.\<close>

definition tid_name_len :: "byte \<Rightarrow> byte \<Rightarrow> byte list \<Rightarrow> nat \<Rightarrow> nat option option" where
  "tid_name_len fmt fmt' name mx =
     (if fmt = 0x00 then map_option Some (strnlen name mx)
      else if fmt = 0x40 then
        if fmt \<noteq> fmt' then strnchr name mx 0x2C else map_option Some (strnlen name mx)
      else Some None)"

definition name_equal :: "byte list \<Rightarrow> byte list \<Rightarrow> nat \<Rightarrow> bool option" where
  "name_equal a b len = do {
     x \<leftarrow> rd_range a 0 len;
     y \<leftarrow> rd_range b 0 len;
     Some (map tolower x = map tolower y) }"

definition iscsi_tid_equal :: "byte list \<Rightarrow> byte list \<Rightarrow> bool option" where
  "iscsi_tid_equal tid_a tid_b = do {
     a0 \<leftarrow> rd tid_a 0;
     b0 \<leftarrow> rd tid_b 0;
     let tid_a_fmt = a0 AND 0xc0;
     let tid_b_fmt = b0 AND 0xc0;
     size_a \<leftarrow> scst_tid_size tid_a;
     size_b \<leftarrow> scst_tid_size tid_b;
     la \<leftarrow> tid_name_len tid_a_fmt tid_b_fmt (drop 4 tid_a) (size_a - 4);
     (case la of None \<Rightarrow> Some False
      | Some tid_a_len \<Rightarrow> do {
          lb \<leftarrow> tid_name_len tid_b_fmt tid_a_fmt (drop 4 tid_b) (size_b - 4);
          (case lb of None \<Rightarrow> Some False
           | Some tid_b_len \<Rightarrow>
               if tid_a_len \<noteq> tid_b_len then Some False
               else name_equal (drop 4 tid_a) (drop 4 tid_b) tid_a_len) }) }"

definition tid_equal :: "byte list option \<Rightarrow> byte list option \<Rightarrow> bool option" where
  "tid_equal a b =
     (case (a, b) of
        (Some tid_a, Some tid_b) \<Rightarrow> do {
          a0 \<leftarrow> rd tid_a 0;
          b0 \<leftarrow> rd tid_b 0;
          (if a0 AND 0x0f \<noteq> b0 AND 0x0f then Some False
           else if a0 AND 0x0f = SCSI_TRANSPORTID_PROTOCOLID_ISCSI then iscsi_tid_equal tid_a tid_b
           else do {
             x \<leftarrow> rd_range tid_a 0 TID_COMMON_SIZE;
             y \<leftarrow> rd_range tid_b 0 TID_COMMON_SIZE;
             Some (x = y) }) }
      | _ \<Rightarrow> Some False)"

section \<open>Specification\<close>

text \<open>An identifier is well-formed when the memory holds all of it.\<close>

definition tid_ok :: "byte list \<Rightarrow> bool" where
  "tid_ok tid = (case scst_tid_size tid of None \<Rightarrow> False | Some n \<Rightarrow> n \<le> length tid)"

text \<open>The comparison as a relation on identifiers, false where it would leave the object.\<close>

definition tid_eq :: "byte list \<Rightarrow> byte list \<Rightarrow> bool" where
  "tid_eq a b = (tid_equal (Some a) (Some b) = Some True)"

text \<open>An identifier whose format the comparison knows: any but iSCSI ones with the format bits
  10 or 11.\<close>

definition tid_known :: "byte list \<Rightarrow> bool" where
  "tid_known tid = (tid ! 0 AND 0x0f = SCSI_TRANSPORTID_PROTOCOLID_ISCSI \<longrightarrow>
     tid ! 0 AND 0xc0 \<in> {0x00, 0x40})"

text \<open>iSCSI identifiers with and without a session, used as examples.\<close>

definition ex_tid :: "string \<Rightarrow> byte list" where
  "ex_tid s = [0x45, 0, 0, of_nat (length s)] @ map (\<lambda>c. of_char c) s"

definition ex_port :: "byte list" where
  "ex_port = [0x05, 0, 0, 8] @ map of_char ''iqn.a'' @ [0, 0, 0]"

section \<open>Sizes\<close>

lemma tid_size_min: "scst_tid_size tid = Some n \<Longrightarrow> 4 \<le> n"
  by (auto simp: scst_tid_size_def TID_COMMON_SIZE_def bind_eq_Some_conv split: if_splits)

lemma tid_size_take:
  assumes "scst_tid_size tid = Some n" "n \<le> length tid"
  shows "scst_tid_size (take n tid) = Some n"
proof -
  have n: "4 \<le> n" using assms(1) by (rule tid_size_min)
  then have "rd (take n tid) 0 = rd tid 0" "get_unaligned_be16 (take n tid) 2 = get_unaligned_be16 tid 2"
    using assms(2) by (auto simp: rd_def get_unaligned_be16_def rd_range_def drop_take)
  then show ?thesis
    using assms(1) by (auto simp: scst_tid_size_def bind_eq_Some_conv split: if_splits)
qed

lemma tid_ok_take: "scst_tid_size tid = Some n \<Longrightarrow> n \<le> length tid \<Longrightarrow> tid_ok (take n tid)"
  using tid_size_take[of tid n] by (simp add: tid_ok_def)

lemma tid_okE:
  assumes "tid_ok tid"
  obtains n where "scst_tid_size tid = Some n" "4 \<le> n" "n \<le> length tid"
  using assms tid_size_min by (auto simp: tid_ok_def split: option.splits)

section \<open>The comparison is total on well-formed identifiers\<close>

lemma strnlen_Some: "n \<le> length s \<Longrightarrow> \<exists>k \<le> n. strnlen s n = Some k"
  by (induction s n rule: strnlen.induct) auto

lemma strnchr_Some: "n \<le> length s \<Longrightarrow> \<exists>r. strnchr s n x = Some r \<and> (\<forall>k. r = Some k \<longrightarrow> k < n)"
  by (induction s n x rule: strnchr.induct) auto

lemma tid_name_len_Some:
  assumes "n \<le> length s"
  shows "\<exists>r. tid_name_len fmt fmt' s n = Some r \<and> (\<forall>k. r = Some k \<longrightarrow> k \<le> n)"
  using strnlen_Some[OF assms] strnchr_Some[OF assms, of "0x2C"]
  by (auto simp: tid_name_len_def intro: less_imp_le)

lemma name_equal_Some: "n \<le> length a \<Longrightarrow> n \<le> length b \<Longrightarrow> name_equal a b n =
    Some (map tolower (take n a) = map tolower (take n b))"
  by (simp add: name_equal_def rd_range_def)

lemma iscsi_tid_equal_Some:
  assumes "tid_ok a" "tid_ok b"
  shows "\<exists>r. iscsi_tid_equal a b = Some r"
proof -
  obtain na where a: "scst_tid_size a = Some na" "4 \<le> na" "na \<le> length a" using assms(1) by (rule tid_okE)
  obtain nb where b: "scst_tid_size b = Some nb" "4 \<le> nb" "nb \<le> length b" using assms(2) by (rule tid_okE)
  have r: "rd a 0 = Some (a ! 0)" "rd b 0 = Some (b ! 0)" using a b by (auto simp: rd_def)
  have la: "na - 4 \<le> length (drop 4 a)" and lb: "nb - 4 \<le> length (drop 4 b)" using a b by auto
  obtain ra where ra: "tid_name_len (a ! 0 AND 0xc0) (b ! 0 AND 0xc0) (drop 4 a) (na - 4) = Some ra"
      "\<And>k. ra = Some k \<Longrightarrow> k \<le> na - 4"
    using tid_name_len_Some[OF la] by blast
  obtain rb where rb: "tid_name_len (b ! 0 AND 0xc0) (a ! 0 AND 0xc0) (drop 4 b) (nb - 4) = Some rb"
      "\<And>k. rb = Some k \<Longrightarrow> k \<le> nb - 4"
    using tid_name_len_Some[OF lb] by blast
  show ?thesis
  proof (cases ra)
    case None
    then show ?thesis using a(1) b(1) r ra(1) by (auto simp: iscsi_tid_equal_def)
  next
    case (Some ka)
    then have "ka \<le> length a - 4" using ra(2) la by fastforce
    moreover have "kb \<le> length b - 4" if "rb = Some kb" for kb using rb(2)[OF that] lb by simp
    ultimately show ?thesis
      using Some a(1) b(1) r ra(1) rb(1) by (cases rb) (auto simp: iscsi_tid_equal_def name_equal_Some)
  qed
qed

lemma tid_equal_total:
  assumes "tid_ok a" "tid_ok b"
  shows "tid_equal (Some a) (Some b) = Some (tid_eq a b)"
proof -
  obtain na where a: "scst_tid_size a = Some na" "4 \<le> na" "na \<le> length a" using assms(1) by (rule tid_okE)
  obtain nb where b: "scst_tid_size b = Some nb" "4 \<le> nb" "nb \<le> length b" using assms(2) by (rule tid_okE)
  have r: "rd a 0 = Some (a ! 0)" "rd b 0 = Some (b ! 0)" using a b by (auto simp: rd_def)
  have common: "TID_COMMON_SIZE \<le> length p" if "scst_tid_size p = Some n" "n \<le> length p" "rd p 0 = Some x"
    "x AND 0x0f \<noteq> SCSI_TRANSPORTID_PROTOCOLID_ISCSI" for p n x
    using that by (simp add: scst_tid_size_def)
  have "\<exists>r. tid_equal (Some a) (Some b) = Some r"
    using iscsi_tid_equal_Some[OF assms] r common[OF a(1,3) r(1)] common[OF b(1,3) r(2)]
    by (auto simp: tid_equal_def rd_range_def)
  then show ?thesis by (auto simp: tid_eq_def)
qed

lemma case_Some_True:
  "(case x of None \<Rightarrow> Some False | Some k \<Rightarrow> f k) = Some True \<longleftrightarrow> (\<exists>k. x = Some k \<and> f k = Some True)"
  "(if c then Some False else z) = Some True \<longleftrightarrow> \<not> c \<and> z = Some True"
  by (auto split: option.splits)

lemma iscsi_equal_iff:
  "iscsi_tid_equal a b = Some True \<longleftrightarrow> (\<exists>a0 b0 na nb k x y. rd a 0 = Some a0 \<and> rd b 0 = Some b0 \<and>
     scst_tid_size a = Some na \<and> scst_tid_size b = Some nb \<and>
     tid_name_len (a0 AND 0xc0) (b0 AND 0xc0) (drop 4 a) (na - 4) = Some (Some k) \<and>
     tid_name_len (b0 AND 0xc0) (a0 AND 0xc0) (drop 4 b) (nb - 4) = Some (Some k) \<and>
     rd_range (drop 4 a) 0 k = Some x \<and> rd_range (drop 4 b) 0 k = Some y \<and> map tolower x = map tolower y)"
  by (auto simp: iscsi_tid_equal_def Let_def name_equal_def bind_eq_Some_conv case_Some_True)

lemma iscsi_equal_sym:
  assumes "iscsi_tid_equal a b = Some True"
  shows "iscsi_tid_equal b a = Some True"
proof -
  obtain a0 b0 na nb k x y where ab: "rd a 0 = Some a0" "rd b 0 = Some b0"
     "scst_tid_size a = Some na" "scst_tid_size b = Some nb"
     "tid_name_len (a0 AND 0xc0) (b0 AND 0xc0) (drop 4 a) (na - 4) = Some (Some k)"
     "tid_name_len (b0 AND 0xc0) (a0 AND 0xc0) (drop 4 b) (nb - 4) = Some (Some k)"
     "rd_range (drop 4 a) 0 k = Some x" "rd_range (drop 4 b) 0 k = Some y" "map tolower x = map tolower y"
    using assms unfolding iscsi_equal_iff by blast
  then show ?thesis
    by (simp add: iscsi_tid_equal_def name_equal_def)
qed

lemma tid_eq_sym_imp:
  assumes "tid_eq a b"
  shows "tid_eq b a"
proof -
  obtain a0 b0 where r: "rd a 0 = Some a0" "rd b 0 = Some b0" "a0 AND 0x0f = b0 AND 0x0f"
    using assms by (auto simp: tid_eq_def tid_equal_def bind_eq_Some_conv split: if_splits)
  show ?thesis
  proof (cases "b0 AND 0x0f = SCSI_TRANSPORTID_PROTOCOLID_ISCSI")
    case True
    then show ?thesis using assms r iscsi_equal_sym[of a b] by (simp add: tid_eq_def tid_equal_def)
  next
    case False
    then show ?thesis using assms r by (auto simp: tid_eq_def tid_equal_def bind_eq_Some_conv)
  qed
qed

lemma tid_eq_refl_known:
  assumes "tid_ok a" "tid_known a"
  shows "tid_eq a a"
proof -
  obtain n where a: "scst_tid_size a = Some n" "4 \<le> n" "n \<le> length a" using assms(1) by (rule tid_okE)
  have r: "rd a 0 = Some (a ! 0)" using a by (auto simp: rd_def)
  have "n - 4 \<le> length (drop 4 a)" using a by simp
  then obtain k where "k \<le> n - 4" "strnlen (drop 4 a) (n - 4) = Some k" using strnlen_Some by blast
  then have "iscsi_tid_equal a a = Some True" if "a ! 0 AND 0x0f = SCSI_TRANSPORTID_PROTOCOLID_ISCSI"
    using that a r assms(2)
    by (auto simp: iscsi_tid_equal_def tid_name_len_def tid_known_def name_equal_def rd_range_def)
  moreover have "TID_COMMON_SIZE \<le> length a" if "a ! 0 AND 0x0f \<noteq> SCSI_TRANSPORTID_PROTOCOLID_ISCSI"
    using that a r by (simp add: scst_tid_size_def)
  ultimately show ?thesis using r by (auto simp: tid_eq_def tid_equal_def rd_range_def)
qed

section \<open>Properties\<close>

text \<open>
  C34.  Comparing transport identifiers that lie completely in memory never reads outside of
  them, is reflexive on every identifier of a known format and symmetric.
\<close>

theorem tid_equal_well_behaved:
  assumes "tid_ok a" "tid_ok b"
  shows "\<exists>r. tid_equal (Some a) (Some b) = Some r \<and> tid_equal (Some b) (Some a) = Some r \<and>
     (a = b \<and> tid_known a \<longrightarrow> r)"
  using tid_equal_total[OF assms] tid_equal_total[OF assms(2,1)] tid_eq_sym_imp[of a b]
    tid_eq_sym_imp[of b a] tid_eq_refl_known[OF assms(1)] by auto

theorem tid_equal_well_behaved_witness:
  "\<exists>r. tid_equal (Some (ex_tid ''iqn.A,i,1'')) (Some (ex_tid ''IQN.a,I,1'')) = Some r"
proof -
  have "tid_ok (ex_tid ''iqn.A,i,1'')" "tid_ok (ex_tid ''IQN.a,I,1'')" by code_simp+
  from tid_equal_well_behaved[OF this] show ?thesis by blast
qed

text \<open>
  The comparison is not transitive, because an identifier without a session matches every
  session of its port: two sessions of one iSCSI port are both equal to the identifier of the
  port and different from each other.
\<close>

theorem tid_equal_not_transitive:
  "tid_equal (Some (ex_tid ''iqn.a,i,1'')) (Some ex_port) = Some True \<and>
   tid_equal (Some ex_port) (Some (ex_tid ''iqn.a,i,2'')) = Some True \<and>
   tid_equal (Some (ex_tid ''iqn.a,i,1'')) (Some (ex_tid ''iqn.a,i,2'')) = Some False"
  by code_simp

end
