(* ===== verification/Pres.thy ===== *)
theory Pres
  imports Pres_Tid
begin

text \<open>
  Persistent reservations (\<^verbatim>\<open>scst_pres.c\<close>): the registrants of a device, the
  reservation, and the service actions that change them.

  Registrants are allocated objects: each has an address (a number that is never used again)
  and the device has the list of its registrants.  A pointer to a registrant is the optional
  address, an access through an address that is not on the list is \<^term>\<open>None\<close>, so
  that the use of a freed registrant shows.  The nexuses of the device
  (\<^verbatim>\<open>struct scst_tgt_dev\<close>) are numbered by their place in its list.  The
  outcomes of the memory allocations are the list \<open>env_mem\<close> (when it is used up every
  allocation succeeds) and the ones of the task management requests \<open>env_abort\<close>.
  Unit attentions and aborts that are sent to a nexus and writes of the state file are recorded
  in the log \<open>pr_log\<close>.  All of it is run under the mutex of the reservations.
\<close>

section \<open>State\<close>

datatype pr_event =
  Ev_UA nat byte byte byte | Ev_abort nat | Ev_sync

record scst_dev_registrant =
  transport_id :: "byte list"
  rel_tgt_id :: "16 word"
  reg_key :: "64 word"
  reg_tgt_dev :: "nat option"
  rollback_key :: "64 word"

record scst_tgt_dev =
  sess_transport_id :: "byte list option"
  sess_rel_tgt_id :: "16 word"
  sess_cmd_count :: int
  sess_ready :: bool
  registrant :: "nat option"

text \<open>A target of a template that can tell transport identifiers.\<close>

record scst_tgt =
  tgt_proto_id :: byte
  tgt_rel_tgt_id :: "16 word"
  tgt_forwarding :: bool

record pr_dev =
  pr_is_set :: bool
  pr_scope :: byte
  pr_type :: byte
  pr_holder :: "nat option"
  pr_generation :: "32 word"
  pr_aptpl :: bool
  registrants :: "(nat \<times> scst_dev_registrant) list"
  next_reg :: nat
  tgt_devs :: "scst_tgt_dev list"
  tgts :: "scst_tgt list"
  tas :: bool
  dev_reserved :: bool
  pass_through :: bool
  not_pr_supporting :: nat
  env_mem :: "bool list"
  env_abort :: "nat \<Rightarrow> bool"
  pr_log :: "pr_event list"

section \<open>Constants\<close>

named_theorems pr_type_defs "types of reservations"

definition TYPE_UNSPECIFIED :: byte where [pr_type_defs]: "TYPE_UNSPECIFIED = - 1"
definition TYPE_WRITE_EXCLUSIVE :: byte where [pr_type_defs]: "TYPE_WRITE_EXCLUSIVE = 1"
definition TYPE_EXCLUSIVE_ACCESS :: byte where [pr_type_defs]: "TYPE_EXCLUSIVE_ACCESS = 3"
definition TYPE_WRITE_EXCLUSIVE_REGONLY :: byte where [pr_type_defs]: "TYPE_WRITE_EXCLUSIVE_REGONLY = 5"
definition TYPE_EXCLUSIVE_ACCESS_REGONLY :: byte where [pr_type_defs]: "TYPE_EXCLUSIVE_ACCESS_REGONLY = 6"
definition TYPE_WRITE_EXCLUSIVE_ALL_REG :: byte where [pr_type_defs]: "TYPE_WRITE_EXCLUSIVE_ALL_REG = 7"
definition TYPE_EXCLUSIVE_ACCESS_ALL_REG :: byte where [pr_type_defs]: "TYPE_EXCLUSIVE_ACCESS_ALL_REG = 8"

definition SCOPE_LU :: byte where "SCOPE_LU = 0"

definition scst_pr_type_valid :: "byte \<Rightarrow> bool" where
  "scst_pr_type_valid type = (type \<in> {TYPE_WRITE_EXCLUSIVE, TYPE_EXCLUSIVE_ACCESS,
     TYPE_WRITE_EXCLUSIVE_REGONLY, TYPE_EXCLUSIVE_ACCESS_REGONLY, TYPE_WRITE_EXCLUSIVE_ALL_REG,
     TYPE_EXCLUSIVE_ACCESS_ALL_REG})"

definition all_reg :: "byte \<Rightarrow> bool" where
  "all_reg type = (type = TYPE_EXCLUSIVE_ACCESS_ALL_REG \<or> type = TYPE_WRITE_EXCLUSIVE_ALL_REG)"

section \<open>Registrants in memory\<close>

definition reg_at :: "pr_dev \<Rightarrow> nat \<Rightarrow> scst_dev_registrant option" where
  "reg_at d a = map_of (registrants d) a"

definition upd_reg :: "nat \<Rightarrow> (scst_dev_registrant \<Rightarrow> scst_dev_registrant) \<Rightarrow> pr_dev \<Rightarrow> pr_dev" where
  "upd_reg a f d = d\<lparr>registrants := map (\<lambda>(b, r). (b, if b = a then f r else r)) (registrants d)\<rparr>"

definition set_registrant :: "nat \<Rightarrow> nat option \<Rightarrow> pr_dev \<Rightarrow> pr_dev" where
  "set_registrant i r d = d\<lparr>tgt_devs := (tgt_devs d)[i := (tgt_devs d ! i)\<lparr>registrant := r\<rparr>]\<rparr>"

definition alloc :: "pr_dev \<Rightarrow> bool \<times> pr_dev" where
  "alloc d = (case env_mem d of [] \<Rightarrow> (True, d) | ok # oks \<Rightarrow> (ok, d\<lparr>env_mem := oks\<rparr>))"

definition log :: "pr_event \<Rightarrow> pr_dev \<Rightarrow> pr_dev" where
  "log e d = d\<lparr>pr_log := pr_log d @ [e]\<rparr>"

section \<open>The reservation and its holder\<close>

definition scst_pr_set_holder :: "pr_dev \<Rightarrow> nat \<Rightarrow> byte \<Rightarrow> byte \<Rightarrow> pr_dev" where
  "scst_pr_set_holder d holder scope type =
     d\<lparr>pr_is_set := True, pr_scope := scope, pr_type := type,
       pr_holder := (if \<not> all_reg type then Some holder else pr_holder d)\<rparr>"

definition scst_pr_is_holder :: "pr_dev \<Rightarrow> nat option \<Rightarrow> bool" where
  "scst_pr_is_holder d reg =
     (pr_is_set d \<and> (if all_reg (pr_type d) then reg \<noteq> None else pr_holder d = reg))"

definition scst_pr_clear_reservation :: "pr_dev \<Rightarrow> pr_dev" where
  "scst_pr_clear_reservation d =
     d\<lparr>pr_is_set := False, pr_scope := SCOPE_LU, pr_type := TYPE_UNSPECIFIED, pr_holder := None\<rparr>"

definition scst_pr_clear_holder :: "pr_dev \<Rightarrow> pr_dev" where
  "scst_pr_clear_holder d =
     (let d = (if all_reg (pr_type d)
               then if registrants d = [] then scst_pr_clear_reservation d else d
               else scst_pr_clear_reservation d)
      in d\<lparr>pr_holder := None\<rparr>)"

section \<open>Finding, adding and removing registrants\<close>

definition scst_pr_find_registrants_list_all :: "pr_dev \<Rightarrow> nat \<Rightarrow> nat list" where
  "scst_pr_find_registrants_list_all d exclude_reg = filter (\<lambda>a. a \<noteq> exclude_reg) (map fst (registrants d))"

definition scst_pr_find_registrants_list_key :: "pr_dev \<Rightarrow> 64 word \<Rightarrow> nat list" where
  "scst_pr_find_registrants_list_key d key = map fst (filter (\<lambda>(a, r). reg_key r = key) (registrants d))"

fun find_reg :: "(nat \<times> scst_dev_registrant) list \<Rightarrow> byte list option \<Rightarrow> 16 word \<Rightarrow> nat option option" where
  "find_reg [] tid rel = Some None"
| "find_reg ((a, r) # rs) tid rel =
     (if rel_tgt_id r = rel then do {
        eq \<leftarrow> tid_equal (Some (transport_id r)) tid;
        if eq then Some (Some a) else find_reg rs tid rel }
      else find_reg rs tid rel)"

definition scst_pr_find_reg :: "pr_dev \<Rightarrow> byte list option \<Rightarrow> 16 word \<Rightarrow> nat option option" where
  "scst_pr_find_reg d tid rel = find_reg (registrants d) tid rel"

text \<open>The first nexus of the initiator port and target port that has no registrant yet.\<close>

fun find_tgt_dev :: "nat \<Rightarrow> scst_tgt_dev list \<Rightarrow> byte list \<Rightarrow> 16 word \<Rightarrow> nat option option" where
  "find_tgt_dev i [] tid rel = Some None"
| "find_tgt_dev i (t # ts) tid rel = do {
     eq \<leftarrow> tid_equal (sess_transport_id t) (Some tid);
     if eq \<and> sess_rel_tgt_id t = rel \<and> registrant t = None then Some (Some i)
     else find_tgt_dev (i + 1) ts tid rel }"

definition scst_pr_add_registrant ::
  "pr_dev \<Rightarrow> byte list \<Rightarrow> 16 word \<Rightarrow> 64 word \<Rightarrow> (nat option \<times> pr_dev) option" where
  "scst_pr_add_registrant d tid rel key = do {
     r \<leftarrow> scst_pr_find_reg d (Some tid) rel;
     (if r \<noteq> None then Some (None, d)
      else let (ok, d) = alloc d
           in if \<not> ok then Some (None, d)
              else do {
                size \<leftarrow> scst_tid_size tid;
                copy \<leftarrow> rd_range tid 0 size;
                (let (ok, d) = alloc d
                 in if \<not> ok then Some (None, d)
                    else do {
                      t \<leftarrow> find_tgt_dev 0 (tgt_devs d) tid rel;
                      let a = next_reg d;
                      let d = (case t of None \<Rightarrow> d | Some i \<Rightarrow> set_registrant i (Some a) d);
                      Some (Some a, d\<lparr>next_reg := a + 1, registrants := registrants d @
                        [(a, \<lparr>transport_id = copy, rel_tgt_id = rel, reg_key = key, reg_tgt_dev = t,
                              rollback_key = 0\<rparr>)]\<rparr>) }) }) }"

definition scst_pr_remove_registrant :: "pr_dev \<Rightarrow> nat \<Rightarrow> pr_dev option" where
  "scst_pr_remove_registrant d a = do {
     r \<leftarrow> reg_at d a;
     let d = d\<lparr>registrants := filter (\<lambda>(b, r). b \<noteq> a) (registrants d)\<rparr>;
     let d = (if scst_pr_is_holder d (Some a) then scst_pr_clear_holder d else d);
     (case reg_tgt_dev r of None \<Rightarrow> Some d
      | Some i \<Rightarrow> if i < length (tgt_devs d) then Some (set_registrant i None d) else None) }"

fun remove_list :: "nat list \<Rightarrow> pr_dev \<Rightarrow> pr_dev option" where
  "remove_list [] d = Some d"
| "remove_list (a # as) d = do { d \<leftarrow> scst_pr_remove_registrant d a; remove_list as d }"

definition scst_pr_remove_registrants :: "pr_dev \<Rightarrow> pr_dev option" where
  "scst_pr_remove_registrants d = remove_list (map fst (registrants d)) d"

section \<open>Telling the initiators\<close>

definition scst_pr_send_ua_reg :: "byte \<Rightarrow> byte \<Rightarrow> byte \<Rightarrow> nat \<Rightarrow> pr_dev \<Rightarrow> pr_dev option" where
  "scst_pr_send_ua_reg key asc ascq a d = do {
     r \<leftarrow> reg_at d a;
     Some (case reg_tgt_dev r of None \<Rightarrow> d | Some i \<Rightarrow> log (Ev_UA i key asc ascq) d) }"

fun send_ua_list :: "byte \<Rightarrow> byte \<Rightarrow> byte \<Rightarrow> nat list \<Rightarrow> pr_dev \<Rightarrow> pr_dev option" where
  "send_ua_list key asc ascq [] d = Some d"
| "send_ua_list key asc ascq (a # as) d = do {
     d \<leftarrow> scst_pr_send_ua_reg key asc ascq a d;
     send_ua_list key asc ascq as d }"

definition scst_pr_send_ua_all :: "nat option \<Rightarrow> byte \<Rightarrow> byte \<Rightarrow> byte \<Rightarrow> pr_dev \<Rightarrow> pr_dev option" where
  "scst_pr_send_ua_all exclude_reg key asc ascq d =
     send_ua_list key asc ascq (filter (\<lambda>a. Some a \<noteq> exclude_reg) (map fst (registrants d))) d"

definition scst_pr_abort_reg :: "nat \<Rightarrow> nat \<Rightarrow> pr_dev \<Rightarrow> pr_dev option" where
  "scst_pr_abort_reg cmd_tgt_dev a d = do {
     r \<leftarrow> reg_at d a;
     Some (case reg_tgt_dev r of None \<Rightarrow> d
       | Some i \<Rightarrow>
           (let d = log (Ev_abort i) d
            in if env_abort d i \<and> i \<noteq> cmd_tgt_dev \<and> \<not> tas d
               then log (Ev_UA i UNIT_ATTENTION 0x2F 0) d else d)) }"

section \<open>Reserve, release and clear\<close>

text \<open>The service actions return the changed device and command.  A command reports its errors
  through the functions of the theory on sense data.\<close>

type_synonym pr_result = "(pr_dev \<times> scst_cmd) option"

definition fail_sense :: "pr_dev \<Rightarrow> scst_cmd \<Rightarrow> byte \<Rightarrow> byte \<Rightarrow> byte \<Rightarrow> pr_result" where
  "fail_sense d cmd key asc ascq = do {
     (_, cmd) \<leftarrow> scst_set_cmd_error cmd key asc ascq;
     Some (d, cmd) }"

definition fail_cdb :: "pr_dev \<Rightarrow> scst_cmd \<Rightarrow> nat \<Rightarrow> nat \<Rightarrow> pr_result" where
  "fail_cdb d cmd field bit_offs = do {
     (_, cmd) \<leftarrow> scst_set_invalid_field_in_cdb cmd field bit_offs;
     Some (d, cmd) }"

definition fail_parm :: "pr_dev \<Rightarrow> scst_cmd \<Rightarrow> nat \<Rightarrow> nat \<Rightarrow> pr_result" where
  "fail_parm d cmd field bit_offs = do {
     (_, cmd) \<leftarrow> scst_set_invalid_field_in_parm_list cmd field bit_offs;
     Some (d, cmd) }"

definition conflict :: "pr_dev \<Rightarrow> scst_cmd \<Rightarrow> pr_result" where
  "conflict d cmd = Some (d, snd (scst_set_cmd_error_status cmd SAM_STAT_RESERVATION_CONFLICT))"

text \<open>\<^verbatim>\<open>tgt_dev->registrant\<close> and its object.\<close>

definition cmd_registrant :: "pr_dev \<Rightarrow> nat \<Rightarrow> (nat \<times> scst_dev_registrant) option" where
  "cmd_registrant d td = do {
     t \<leftarrow> rd (tgt_devs d) td;
     a \<leftarrow> registrant t;
     r \<leftarrow> reg_at d a;
     Some (a, r) }"

definition scst_pr_reserve :: "pr_dev \<Rightarrow> scst_cmd \<Rightarrow> nat \<Rightarrow> byte list \<Rightarrow> pr_result" where
  "scst_pr_reserve d cmd td buffer = do {
     key \<leftarrow> get_unaligned_be64 buffer 0;
     c2 \<leftarrow> rd (cdb cmd) 2;
     let scope = drop_bit 4 c2;
     let type = c2 AND 0x0f;
     (if length buffer \<noteq> 24 then fail_sense d cmd ILLEGAL_REQUEST 0x1A 0
      else if \<not> scst_pr_type_valid type then fail_cdb d cmd 2 (BIT_OFFS 0)
      else if scope \<noteq> SCOPE_LU then fail_cdb d cmd 2 (BIT_OFFS 4)
      else do {
        (a, reg) \<leftarrow> cmd_registrant d td;
        (if reg_key reg \<noteq> key then conflict d cmd
         else if \<not> pr_is_set d then Some (scst_pr_set_holder d a scope type, cmd)
         else if \<not> scst_pr_is_holder d (Some a) then conflict d cmd
         else if pr_scope d \<noteq> scope \<or> pr_type d \<noteq> type then conflict d cmd
         else Some (d, cmd)) }) }"

definition scst_pr_release :: "pr_dev \<Rightarrow> scst_cmd \<Rightarrow> nat \<Rightarrow> byte list \<Rightarrow> pr_result" where
  "scst_pr_release d cmd td buffer = do {
     key \<leftarrow> get_unaligned_be64 buffer 0;
     c2 \<leftarrow> rd (cdb cmd) 2;
     let scope = drop_bit 4 c2;
     let type = c2 AND 0x0f;
     (if length buffer \<noteq> 24 then fail_sense d cmd ILLEGAL_REQUEST 0x1A 0
      else if \<not> pr_is_set d then Some (d, cmd)
      else do {
        (a, reg) \<leftarrow> cmd_registrant d td;
        (if reg_key reg \<noteq> key then conflict d cmd
         else if \<not> scst_pr_is_holder d (Some a) then Some (d, cmd)
         else if pr_scope d \<noteq> scope \<or> pr_type d \<noteq> type then fail_sense d cmd ILLEGAL_REQUEST 0x26 4
         else do {
           let cur_pr_type = pr_type d;
           let d = scst_pr_clear_reservation d;
           (if cur_pr_type \<in> {TYPE_WRITE_EXCLUSIVE_REGONLY, TYPE_EXCLUSIVE_ACCESS_REGONLY,
                TYPE_WRITE_EXCLUSIVE_ALL_REG, TYPE_EXCLUSIVE_ACCESS_ALL_REG}
            then do {
              d \<leftarrow> scst_pr_send_ua_all (Some a) UNIT_ATTENTION 0x2A 0x04 d;
              Some (d, cmd) }
            else Some (d, cmd)) }) }) }"

definition scst_pr_clear :: "pr_dev \<Rightarrow> scst_cmd \<Rightarrow> nat \<Rightarrow> byte list \<Rightarrow> pr_result" where
  "scst_pr_clear d cmd td buffer = do {
     key \<leftarrow> get_unaligned_be64 buffer 0;
     (if length buffer \<noteq> 24 then fail_sense d cmd ILLEGAL_REQUEST 0x1A 0
      else do {
        (a, reg) \<leftarrow> cmd_registrant d td;
        (if reg_key reg \<noteq> key then conflict d cmd
         else do {
           d \<leftarrow> scst_pr_send_ua_all (Some a) UNIT_ATTENTION 0x2A 0x03 d;
           d \<leftarrow> remove_list (map fst (registrants d)) d;
           Some (d\<lparr>pr_generation := pr_generation d + 1\<rparr>, cmd) }) }) }"

section \<open>Preempt\<close>

text \<open>The loops over the list of registrants to preempt.  They differ in whether the preempting
  registrant itself is removed when it is on the list (\<open>self\<close>).\<close>

fun preempt_loop :: "nat \<Rightarrow> bool \<Rightarrow> nat \<Rightarrow> bool \<Rightarrow> nat list \<Rightarrow> pr_dev \<Rightarrow> pr_dev option" where
  "preempt_loop td abort reg self [] d = Some d"
| "preempt_loop td abort reg self (r # rs) d = do {
     d \<leftarrow> (if abort then scst_pr_abort_reg td r d else Some d);
     d \<leftarrow> (if r \<noteq> reg then scst_pr_send_ua_reg UNIT_ATTENTION 0x2A 0x05 r d else Some d);
     d \<leftarrow> (if r \<noteq> reg \<or> self then scst_pr_remove_registrant d r else Some d);
     preempt_loop td abort reg self rs d }"

definition preempt_done :: "scst_cmd \<Rightarrow> pr_dev \<Rightarrow> pr_result" where
  "preempt_done cmd d = Some (d\<lparr>pr_generation := pr_generation d + 1\<rparr>, cmd)"

text \<open>The part of \<^verbatim>\<open>scst_pr_do_preempt\<close> after the checks, for the registrant
  \<open>reg\<close> of the command's nexus.\<close>

definition preempt_with_key ::
  "pr_dev \<Rightarrow> scst_cmd \<Rightarrow> nat \<Rightarrow> nat \<Rightarrow> 64 word \<Rightarrow> byte \<Rightarrow> byte \<Rightarrow> bool \<Rightarrow> pr_result" where
  "preempt_with_key d cmd td reg action_key scope type abort = do {
     let existing_pr_type = pr_type d;
     let existing_pr_scope = pr_scope d;
     let by_key = scst_pr_find_registrants_list_key d action_key;
     (if \<not> pr_is_set d then
        if by_key = [] then conflict d cmd
        else do {
          d \<leftarrow> preempt_loop td abort reg False by_key d;
          preempt_done cmd d }
      else if all_reg (pr_type d) then
        if action_key = 0 then do {
          d \<leftarrow> preempt_loop td abort reg False (scst_pr_find_registrants_list_all d reg) d;
          preempt_done cmd (scst_pr_set_holder d reg scope type) }
        else if by_key = [] then conflict d cmd
        else do {
          d \<leftarrow> preempt_loop td abort reg False by_key d;
          preempt_done cmd d }
      else do {
        holder \<leftarrow> pr_holder d;
        h \<leftarrow> reg_at d holder;
        (if reg_key h \<noteq> action_key then
           if action_key = 0 then fail_parm d cmd 8 0
           else if by_key = [] then conflict d cmd
           else do {
             d \<leftarrow> preempt_loop td abort reg True by_key d;
             preempt_done cmd d }
         else do {
           d \<leftarrow> preempt_loop td abort reg False by_key d;
           let d = scst_pr_set_holder d reg scope type;
           d \<leftarrow> (if existing_pr_type \<noteq> type \<or> existing_pr_scope \<noteq> scope
                then scst_pr_send_ua_all (Some reg) UNIT_ATTENTION 0x2A 0x04 d else Some d);
           preempt_done cmd d }) }) }"

definition scst_pr_do_preempt :: "pr_dev \<Rightarrow> scst_cmd \<Rightarrow> nat \<Rightarrow> byte list \<Rightarrow> bool \<Rightarrow> pr_result" where
  "scst_pr_do_preempt d cmd td buffer abort =
     (if length buffer \<noteq> 24 then fail_sense d cmd ILLEGAL_REQUEST 0x1A 0
      else do {
        key \<leftarrow> get_unaligned_be64 buffer 0;
        action_key \<leftarrow> get_unaligned_be64 buffer 8;
        c2 \<leftarrow> rd (cdb cmd) 2;
        let scope = drop_bit 4 c2;
        let type = c2 AND 0x0f;
        (if \<not> scst_pr_type_valid type then fail_cdb d cmd 1 (BIT_OFFS 0)
         else do {
           (reg, r) \<leftarrow> cmd_registrant d td;
           (if reg_key r \<noteq> key then conflict d cmd
            else preempt_with_key d cmd td reg action_key scope type abort) }) })"

definition scst_pr_preempt :: "pr_dev \<Rightarrow> scst_cmd \<Rightarrow> nat \<Rightarrow> byte list \<Rightarrow> pr_result" where
  "scst_pr_preempt d cmd td buffer = scst_pr_do_preempt d cmd td buffer False"

definition set_busy :: "pr_dev \<Rightarrow> nat \<Rightarrow> scst_cmd \<Rightarrow> scst_cmd option" where
  "set_busy d td cmd = do {
     t \<leftarrow> rd (tgt_devs d) td;
     Some (scst_set_busy (sess_cmd_count t) (sess_ready t) cmd) }"

text \<open>The counter of the commands that are being aborted is allocated first; waiting for them to
  finish is left out.\<close>

definition scst_pr_preempt_and_abort :: "pr_dev \<Rightarrow> scst_cmd \<Rightarrow> nat \<Rightarrow> byte list \<Rightarrow> pr_result" where
  "scst_pr_preempt_and_abort d cmd td buffer =
     (let (ok, d) = alloc d
      in if \<not> ok then do { cmd \<leftarrow> set_busy d td cmd; Some (d, cmd) }
         else scst_pr_do_preempt d cmd td buffer True)"

section \<open>Register\<close>

text \<open>Registers one transport identifier, or gives its registrant a new key, and puts it on the
  list of what is to be undone if the command fails.\<close>

definition register_tid ::
  "64 word \<Rightarrow> 16 word \<Rightarrow> byte list \<Rightarrow> pr_dev \<Rightarrow> nat list \<Rightarrow> (int \<times> pr_dev \<times> nat list) option" where
  "register_tid action_key rel tid d rollback_list = do {
     r \<leftarrow> scst_pr_find_reg d (Some tid) rel;
     (case r of
        Some a \<Rightarrow> do {
          reg \<leftarrow> reg_at d a;
          (if reg_key reg = action_key then Some (0, d, rollback_list)
           else Some (0, upd_reg a (\<lambda>r. r\<lparr>rollback_key := reg_key r, reg_key := action_key\<rparr>) d,
                  rollback_list @ [a])) }
      | None \<Rightarrow> do {
          (r, d) \<leftarrow> scst_pr_add_registrant d tid rel action_key;
          (case r of None \<Rightarrow> Some (- ENOMEM, d, rollback_list)
           | Some a \<Rightarrow> Some (0, d, rollback_list @ [a])) }) }"

text \<open>An iSCSI identifier without a session registers every nexus of its port.\<close>

fun register_port ::
  "64 word \<Rightarrow> 16 word \<Rightarrow> byte list \<Rightarrow> scst_tgt_dev list \<Rightarrow> pr_dev \<Rightarrow> nat list \<Rightarrow>
   (int \<times> pr_dev \<times> nat list) option" where
  "register_port key rel tid [] d rb = Some (0, d, rb)"
| "register_port key rel tid (t # ts) d rb = do {
     eq \<leftarrow> tid_equal (sess_transport_id t) (Some tid);
     (if \<not> eq then register_port key rel tid ts d rb
      else do {
        st \<leftarrow> sess_transport_id t;
        (res, d, rb) \<leftarrow> register_tid key rel st d rb;
        if res \<noteq> 0 then Some (res, d, rb) else register_port key rel tid ts d rb }) }"

text \<open>The two passes over the list of identifiers in the parameter list, which starts at byte 28:
  the first checks their sizes and terminates the names, the second registers them.\<close>

function secure_tids :: "nat \<Rightarrow> nat \<Rightarrow> byte list \<Rightarrow> (bool \<times> byte list) option" where
  "secure_tids ext_size offset buffer =
     (if offset < ext_size then do {
        size \<leftarrow> scst_tid_size (drop (28 + offset) buffer);
        (if offset + size > ext_size then Some (False, buffer)
         else do {
           tid \<leftarrow> tid_secure (drop (28 + offset) buffer);
           secure_tids ext_size (offset + size) (take (28 + offset) buffer @ tid) }) }
      else Some (True, buffer))"
  by pat_completeness auto
termination
  by (relation "measure (\<lambda>(e, n, b). e - n)") (auto dest: tid_size_min)

declare secure_tids.simps [simp del]

function register_tids ::
  "64 word \<Rightarrow> 16 word \<Rightarrow> nat \<Rightarrow> nat \<Rightarrow> byte list \<Rightarrow> pr_dev \<Rightarrow> nat list \<Rightarrow> (int \<times> pr_dev \<times> nat list) option" where
  "register_tids key rel ext_size offset buffer d rb =
     (if offset < ext_size then do {
        let tid = drop (28 + offset) buffer;
        b \<leftarrow> rd tid 0;
        (res, d, rb) \<leftarrow>
          (if b AND 0x0f = SCSI_TRANSPORTID_PROTOCOLID_ISCSI \<and> b AND 0xc0 = 0
           then register_port key rel tid (tgt_devs d) d rb
           else register_tid key rel tid d rb);
        (if res \<noteq> 0 then Some (res, d, rb)
         else do {
           size \<leftarrow> scst_tid_size tid;
           register_tids key rel ext_size (offset + size) buffer d rb }) }
      else Some (0, d, rb))"
  by pat_completeness auto
termination
  by (relation "measure (\<lambda>(k, r, e, n, b, d, rb). e - n)") (auto dest: tid_size_min)

declare register_tids.simps [simp del]

text \<open>The results of the registration functions: the return value, the device, the command, the
  parameter list and the list of what is to be undone.\<close>

type_synonym reg_result = "(int \<times> pr_dev \<times> scst_cmd \<times> byte list \<times> nat list) option"

definition register_listed ::
  "pr_dev \<Rightarrow> scst_cmd \<Rightarrow> nat \<Rightarrow> 64 word \<Rightarrow> 16 word \<Rightarrow> nat \<Rightarrow> byte list \<Rightarrow> nat list \<Rightarrow> reg_result" where
  "register_listed d cmd td action_key rel ext_size buffer rb = do {
     (res, d, rb) \<leftarrow> register_tids action_key rel ext_size 0 buffer d rb;
     (if res \<noteq> 0 then do {
        cmd \<leftarrow> set_busy d td cmd;
        Some (res, d, cmd, buffer, rb) }
      else Some (0, d, cmd, buffer, rb)) }"

definition scst_pr_register_with_spec_i_pt ::
  "pr_dev \<Rightarrow> scst_cmd \<Rightarrow> nat \<Rightarrow> 16 word \<Rightarrow> byte list \<Rightarrow> nat list \<Rightarrow> reg_result" where
  "scst_pr_register_with_spec_i_pt d cmd td rel buffer rb = do {
     action_key \<leftarrow> get_unaligned_be64 buffer 8;
     ext_size \<leftarrow> get_unaligned_be32 buffer 24;
     (if ext_size + 28 > of_nat (length buffer) then do {
        (_, cmd) \<leftarrow> scst_set_cmd_error cmd ILLEGAL_REQUEST 0x1A 0;
        Some (- EINVAL, d, cmd, buffer, rb) }
      else do {
        (ok, buffer) \<leftarrow> secure_tids (unat ext_size) 0 buffer;
        (if \<not> ok then do {
           (_, cmd) \<leftarrow> scst_set_invalid_field_in_parm_list cmd 24 0;
           Some (- EINVAL, d, cmd, buffer, rb) }
         else register_listed d cmd td action_key rel (unat ext_size) buffer rb) }) }"

text \<open>The second half of \<^verbatim>\<open>scst_pr_register_on_tgt_id\<close>: the nexus of the
  command itself, when it is not among the identifiers registered before.\<close>

definition register_self ::
  "pr_dev \<Rightarrow> scst_cmd \<Rightarrow> nat \<Rightarrow> 16 word \<Rightarrow> byte list \<Rightarrow> nat list \<Rightarrow> reg_result" where
  "register_self d cmd td rel buffer rb = do {
     t \<leftarrow> rd (tgt_devs d) td;
     r \<leftarrow> scst_pr_find_reg d (sess_transport_id t) rel;
     (if r = None then do {
        action_key \<leftarrow> get_unaligned_be64 buffer 8;
        tid \<leftarrow> sess_transport_id t;
        (r, d) \<leftarrow> scst_pr_add_registrant d tid rel action_key;
        (case r of
           None \<Rightarrow> do {
             cmd \<leftarrow> set_busy d td cmd;
             Some (- ENOMEM, d, cmd, buffer, rb) }
         | Some a \<Rightarrow> Some (0, d, cmd, buffer, rb @ [a])) }
      else Some (0, d, cmd, buffer, rb)) }"

definition scst_pr_register_on_tgt_id ::
  "pr_dev \<Rightarrow> scst_cmd \<Rightarrow> nat \<Rightarrow> 16 word \<Rightarrow> byte list \<Rightarrow> bool \<Rightarrow> nat list \<Rightarrow> reg_result" where
  "scst_pr_register_on_tgt_id d cmd td rel buffer spec_i_pt rb = do {
     (res, d, cmd, buffer, rb) \<leftarrow>
       (if spec_i_pt then scst_pr_register_with_spec_i_pt d cmd td rel buffer rb
        else Some (0, d, cmd, buffer, rb));
     (if res \<noteq> 0 then Some (res, d, cmd, buffer, rb)
      else register_self d cmd td rel buffer rb) }"

fun register_tgts ::
  "byte \<Rightarrow> scst_tgt list \<Rightarrow> pr_dev \<Rightarrow> scst_cmd \<Rightarrow> nat \<Rightarrow> byte list \<Rightarrow> bool \<Rightarrow> nat list \<Rightarrow> reg_result" where
  "register_tgts proto_id [] d cmd td buffer spec_i_pt rb = Some (0, d, cmd, buffer, rb)"
| "register_tgts proto_id (t # ts) d cmd td buffer spec_i_pt rb =
     (if tgt_proto_id t \<noteq> proto_id \<or> tgt_rel_tgt_id t = 0 \<or> tgt_forwarding t
      then register_tgts proto_id ts d cmd td buffer spec_i_pt rb
      else do {
        (res, d, cmd, buffer, rb) \<leftarrow> scst_pr_register_on_tgt_id d cmd td (tgt_rel_tgt_id t) buffer spec_i_pt rb;
        (if res \<noteq> 0 then Some (res, d, cmd, buffer, rb)
         else register_tgts proto_id ts d cmd td buffer spec_i_pt rb) })"

definition scst_pr_register_all_tg_pt ::
  "pr_dev \<Rightarrow> scst_cmd \<Rightarrow> nat \<Rightarrow> byte list \<Rightarrow> bool \<Rightarrow> nat list \<Rightarrow> reg_result" where
  "scst_pr_register_all_tg_pt d cmd td buffer spec_i_pt rb = do {
     t \<leftarrow> rd (tgt_devs d) td;
     tid \<leftarrow> sess_transport_id t;
     b \<leftarrow> rd tid 0;
     register_tgts (b AND 0x0f) (tgts d) d cmd td buffer spec_i_pt rb }"

fun rollback :: "nat list \<Rightarrow> pr_dev \<Rightarrow> pr_dev option" where
  "rollback [] d = Some d"
| "rollback (a # as) d = do {
     r \<leftarrow> reg_at d a;
     d \<leftarrow> (if rollback_key r = 0 then scst_pr_remove_registrant d a
          else Some (upd_reg a (\<lambda>r. r\<lparr>reg_key := rollback_key r, rollback_key := 0\<rparr>) d));
     rollback as d }"

fun commit :: "nat list \<Rightarrow> pr_dev \<Rightarrow> pr_dev option" where
  "commit [] d = Some d"
| "commit (a # as) d = do {
     _ \<leftarrow> reg_at d a;
     commit as (upd_reg a (\<lambda>r. r\<lparr>rollback_key := 0\<rparr>) d) }"

definition do_pr_register ::
  "pr_dev \<Rightarrow> scst_cmd \<Rightarrow> nat \<Rightarrow> byte list \<Rightarrow> bool \<Rightarrow> bool \<Rightarrow> (int \<times> pr_dev \<times> scst_cmd) option" where
  "do_pr_register d cmd td buffer spec_i_pt all_tg_pt = do {
     (res, d, cmd, buffer, rb) \<leftarrow>
       (if all_tg_pt then scst_pr_register_all_tg_pt d cmd td buffer spec_i_pt []
        else do {
          t \<leftarrow> rd (tgt_devs d) td;
          scst_pr_register_on_tgt_id d cmd td (sess_rel_tgt_id t) buffer spec_i_pt [] });
     d \<leftarrow> (if res = 0 then commit rb d else rollback rb d);
     Some (res, d, cmd) }"

section \<open>The service actions that register\<close>

definition scst_pr_unregister :: "pr_dev \<Rightarrow> nat \<Rightarrow> pr_dev option" where
  "scst_pr_unregister d reg = do {
     let is_holder = scst_pr_is_holder d (Some reg);
     let type = pr_type d;
     d \<leftarrow> scst_pr_remove_registrant d reg;
     (if is_holder \<and> \<not> pr_is_set d \<and>
         type \<in> {TYPE_WRITE_EXCLUSIVE_REGONLY, TYPE_EXCLUSIVE_ACCESS_REGONLY}
      then scst_pr_send_ua_all None UNIT_ATTENTION 0x2A 0x04 d else Some d) }"

fun unregister_tgts :: "byte \<Rightarrow> byte list \<Rightarrow> scst_tgt list \<Rightarrow> pr_dev \<Rightarrow> pr_dev option" where
  "unregister_tgts proto_id tid [] d = Some d"
| "unregister_tgts proto_id tid (t # ts) d =
     (if tgt_proto_id t \<noteq> proto_id then unregister_tgts proto_id tid ts d
      else do {
        r \<leftarrow> scst_pr_find_reg d (Some tid) (tgt_rel_tgt_id t);
        d \<leftarrow> (case r of None \<Rightarrow> Some d | Some reg \<Rightarrow> scst_pr_unregister d reg);
        unregister_tgts proto_id tid ts d })"

definition scst_pr_unregister_all_tg_pt :: "pr_dev \<Rightarrow> byte list \<Rightarrow> pr_dev option" where
  "scst_pr_unregister_all_tg_pt d tid = do {
     b \<leftarrow> rd tid 0;
     unregister_tgts (b AND 0x0f) tid (tgts d) d }"

text \<open>What follows when a nexus that is registered registers again: its key is changed, or with
  the key zero it is unregistered.\<close>

definition reregister :: "pr_dev \<Rightarrow> nat \<Rightarrow> nat \<Rightarrow> 64 word \<Rightarrow> bool \<Rightarrow> pr_dev option" where
  "reregister d td reg action_key all_tg_pt =
     (if action_key = 0 then
        if all_tg_pt then do {
          t \<leftarrow> rd (tgt_devs d) td;
          tid \<leftarrow> sess_transport_id t;
          scst_pr_unregister_all_tg_pt d tid }
        else scst_pr_unregister d reg
      else do {
        _ \<leftarrow> reg_at d reg;
        Some (upd_reg reg (\<lambda>r. r\<lparr>reg_key := action_key\<rparr>) d) })"

definition register_done :: "scst_cmd \<Rightarrow> bool \<Rightarrow> pr_dev \<Rightarrow> pr_result" where
  "register_done cmd aptpl d =
     Some (d\<lparr>pr_generation := pr_generation d + 1, pr_aptpl := aptpl\<rparr>, cmd)"

definition scst_pr_register :: "pr_dev \<Rightarrow> scst_cmd \<Rightarrow> nat \<Rightarrow> byte list \<Rightarrow> pr_result" where
  "scst_pr_register d cmd td buffer = do {
     b \<leftarrow> rd buffer 20;
     let aptpl = bit b 0;
     let spec_i_pt = bit b 3;
     let all_tg_pt = bit b 2;
     key \<leftarrow> get_unaligned_be64 buffer 0;
     action_key \<leftarrow> get_unaligned_be64 buffer 8;
     (if \<not> spec_i_pt \<and> length buffer \<noteq> 24 then fail_sense d cmd ILLEGAL_REQUEST 0x1A 0
      else do {
        t \<leftarrow> rd (tgt_devs d) td;
        (case registrant t of
           None \<Rightarrow>
             if key \<noteq> 0 then conflict d cmd
             else if action_key \<noteq> 0 then do {
               (rc, d, cmd) \<leftarrow> do_pr_register d cmd td buffer spec_i_pt all_tg_pt;
               (if rc \<noteq> 0 then Some (d, cmd) else register_done cmd aptpl d) }
             else register_done cmd aptpl d
         | Some reg \<Rightarrow> do {
             r \<leftarrow> reg_at d reg;
             (if reg_key r \<noteq> key then conflict d cmd
              else if spec_i_pt then fail_parm d cmd 20 (BIT_OFFS 3)
              else do {
                d \<leftarrow> reregister d td reg action_key all_tg_pt;
                register_done cmd aptpl d }) }) }) }"

definition scst_pr_register_and_ignore :: "pr_dev \<Rightarrow> scst_cmd \<Rightarrow> nat \<Rightarrow> byte list \<Rightarrow> pr_result" where
  "scst_pr_register_and_ignore d cmd td buffer = do {
     b \<leftarrow> rd buffer 20;
     let aptpl = bit b 0;
     let all_tg_pt = bit b 2;
     action_key \<leftarrow> get_unaligned_be64 buffer 8;
     (if length buffer \<noteq> 24 then fail_sense d cmd ILLEGAL_REQUEST 0x1A 0
      else do {
        t \<leftarrow> rd (tgt_devs d) td;
        (case registrant t of
           None \<Rightarrow>
             if action_key \<noteq> 0 then do {
               (rc, d, cmd) \<leftarrow> do_pr_register d cmd td buffer False all_tg_pt;
               (if rc \<noteq> 0 then Some (d, cmd) else register_done cmd aptpl d) }
             else register_done cmd aptpl d
         | Some reg \<Rightarrow> do {
             d \<leftarrow> reregister d td reg action_key all_tg_pt;
             register_done cmd aptpl d }) }) }"

text \<open>The registrant that a reservation is moved to: the one of the given port, with the new key,
  or a new one.\<close>

definition move_target :: "pr_dev \<Rightarrow> byte list \<Rightarrow> 16 word \<Rightarrow> 64 word \<Rightarrow> (nat option \<times> pr_dev) option" where
  "move_target d tid rel action_key = do {
     r \<leftarrow> scst_pr_find_reg d (Some tid) rel;
     (case r of
        None \<Rightarrow> scst_pr_add_registrant d tid rel action_key
      | Some reg_move \<Rightarrow>
          Some (Some reg_move, upd_reg reg_move (\<lambda>r. r\<lparr>reg_key := action_key\<rparr>) d)) }"

definition move_reservation ::
  "pr_dev \<Rightarrow> scst_cmd \<Rightarrow> nat \<Rightarrow> nat \<Rightarrow> byte list \<Rightarrow> 16 word \<Rightarrow> 64 word \<Rightarrow> bool \<Rightarrow> bool \<Rightarrow> pr_result" where
  "move_reservation d cmd td reg tid rel action_key unreg aptpl = do {
     (m, d) \<leftarrow> move_target d tid rel action_key;
     (case m of
        None \<Rightarrow> do { cmd \<leftarrow> set_busy d td cmd; Some (d, cmd) }
      | Some reg_move \<Rightarrow> do {
          let d = scst_pr_set_holder d reg_move (pr_scope d) (pr_type d);
          d \<leftarrow> (if unreg then scst_pr_remove_registrant d reg else Some d);
          register_done cmd aptpl d }) }"

definition scst_pr_register_and_move :: "pr_dev \<Rightarrow> scst_cmd \<Rightarrow> nat \<Rightarrow> byte list \<Rightarrow> pr_result" where
  "scst_pr_register_and_move d cmd td buffer = do {
     b \<leftarrow> rd buffer 17;
     let aptpl = bit b 0;
     let unreg = bit b 1;
     key \<leftarrow> get_unaligned_be64 buffer 0;
     action_key \<leftarrow> get_unaligned_be64 buffer 8;
     tid_buffer_size \<leftarrow> get_unaligned_be32 buffer 20;
     (if tid_buffer_size + 24 > of_nat (length buffer) then fail_sense d cmd ILLEGAL_REQUEST 0x26 0
      else if tid_buffer_size < 24 then fail_parm d cmd 20 0
      else do {
        (reg, r) \<leftarrow> cmd_registrant d td;
        (if reg_key r \<noteq> key then conflict d cmd
         else if \<not> pr_is_set d then fail_sense d cmd ILLEGAL_REQUEST 0x24 0
         else if \<not> scst_pr_is_holder d (Some reg) then conflict d cmd
         else if action_key = 0 then fail_cdb d cmd 8 0
         else do {
           t \<leftarrow> rd (tgt_devs d) td;
           rel \<leftarrow> get_unaligned_be16 buffer 18;
           size \<leftarrow> scst_tid_size (drop 24 buffer);
           (if size + 24 > length buffer then fail_sense d cmd ILLEGAL_REQUEST 0x26 0
            else do {
              tid \<leftarrow> tid_secure (drop 24 buffer);
              (if all_reg (pr_type d) then conflict d cmd
               else do {
                 eq \<leftarrow> tid_equal (sess_transport_id t) (Some tid);
                 (if eq then fail_parm d cmd 24 0
                  else move_reservation d cmd td reg tid rel action_key unreg aptpl) }) }) }) }) }"

section \<open>PERSISTENT RESERVE OUT\<close>

definition PR_REGISTER :: byte where "PR_REGISTER = 0x00"
definition PR_RESERVE :: byte where "PR_RESERVE = 0x01"
definition PR_RELEASE :: byte where "PR_RELEASE = 0x02"
definition PR_CLEAR :: byte where "PR_CLEAR = 0x03"
definition PR_PREEMPT :: byte where "PR_PREEMPT = 0x04"
definition PR_PREEMPT_AND_ABORT :: byte where "PR_PREEMPT_AND_ABORT = 0x05"
definition PR_REGISTER_AND_IGNORE :: byte where "PR_REGISTER_AND_IGNORE = 0x06"
definition PR_REGISTER_AND_MOVE :: byte where "PR_REGISTER_AND_MOVE = 0x07"

lemmas pr_action_defs = PR_REGISTER_def PR_RESERVE_def PR_RELEASE_def PR_CLEAR_def PR_PREEMPT_def
  PR_PREEMPT_AND_ABORT_def PR_REGISTER_AND_IGNORE_def PR_REGISTER_AND_MOVE_def

definition scst_pr_out_checks :: "pr_dev \<Rightarrow> scst_cmd \<Rightarrow> nat \<Rightarrow> byte list \<Rightarrow> byte \<Rightarrow> (bool \<times> scst_cmd) option" where
  "scst_pr_out_checks d cmd td buffer action = do {
     t \<leftarrow> rd (tgt_devs d) td;
     c2 \<leftarrow> rd (cdb cmd) 2;
     (if action \<notin> {PR_REGISTER, PR_REGISTER_AND_IGNORE} \<and> registrant t = None
      then Some (False, snd (scst_set_cmd_error_status cmd SAM_STAT_RESERVATION_CONFLICT))
      else if action \<notin> {PR_REGISTER, PR_REGISTER_AND_IGNORE, PR_CLEAR} \<and> drop_bit 4 c2 \<noteq> SCOPE_LU
      then map_option (\<lambda>r. (False, snd r)) (scst_set_invalid_field_in_cdb cmd 2 (BIT_OFFS 4))
      else do {
        spec_i_pt \<leftarrow> (if action \<notin> {PR_REGISTER, PR_REGISTER_AND_MOVE}
                     then map_option (\<lambda>b. bit b 3) (rd buffer 20) else Some False);
        (if spec_i_pt
         then map_option (\<lambda>r. (False, snd r)) (scst_set_invalid_field_in_parm_list cmd 20 (BIT_OFFS 3))
         else do {
           all_tg_pt \<leftarrow> (if action \<notin> {PR_REGISTER, PR_REGISTER_AND_IGNORE, PR_REGISTER_AND_MOVE}
                        then map_option (\<lambda>b. bit b 2) (rd buffer 20) else Some False);
           (if all_tg_pt
            then map_option (\<lambda>r. (False, snd r)) (scst_set_invalid_field_in_parm_list cmd 20 (BIT_OFFS 2))
            else Some (True, cmd)) }) }) }"

text \<open>The switch over the service action; \<^term>\<open>False\<close> for one that is unknown.\<close>

definition scst_pr_out_action ::
  "pr_dev \<Rightarrow> scst_cmd \<Rightarrow> nat \<Rightarrow> byte list \<Rightarrow> byte \<Rightarrow> (bool \<times> pr_dev \<times> scst_cmd) option" where
  "scst_pr_out_action d cmd td buffer action =
     (if action = PR_REGISTER then map_option (Pair True) (scst_pr_register d cmd td buffer)
      else if action = PR_RESERVE then map_option (Pair True) (scst_pr_reserve d cmd td buffer)
      else if action = PR_RELEASE then map_option (Pair True) (scst_pr_release d cmd td buffer)
      else if action = PR_CLEAR then map_option (Pair True) (scst_pr_clear d cmd td buffer)
      else if action = PR_PREEMPT then map_option (Pair True) (scst_pr_preempt d cmd td buffer)
      else if action = PR_PREEMPT_AND_ABORT
        then map_option (Pair True) (scst_pr_preempt_and_abort d cmd td buffer)
      else if action = PR_REGISTER_AND_IGNORE
        then map_option (Pair True) (scst_pr_register_and_ignore d cmd td buffer)
      else if action = PR_REGISTER_AND_MOVE
        then map_option (Pair True) (scst_pr_register_and_move d cmd td buffer)
      else map_option (Pair False) (fail_cdb d cmd 1 (BIT_OFFS 0)))"

text \<open>What the handler does after the service action: it writes the state file and leaves a command that
  succeeded to the device handler, when that wants to be notified.\<close>

definition pr_out_finish :: "bool \<Rightarrow> bool \<times> pr_dev \<times> scst_cmd \<Rightarrow> bool \<times> pr_dev \<times> scst_cmd" where
  "pr_out_finish notify = (\<lambda>(known, d, cmd).
     if \<not> known then (True, d, cmd\<lparr>completed := True\<rparr>)
     else let d = (if cmd_status cmd = SAM_STAT_GOOD then log Ev_sync d else d)
          in if notify \<and> cmd_status cmd = SAM_STAT_GOOD then (False, d, cmd)
             else (True, d, cmd\<lparr>completed := True\<rparr>))"

text \<open>The handler of the command.  The result tells whether the command is completed here; the
  command has the flag \<open>aborted\<close> set when a task management function came first, and
  \<open>notify\<close> is the device handler's wish to see the commands that changed something.
  The parameter list is empty when there is no buffer to get.\<close>

definition scst_persistent_reserve_out_local ::
  "bool \<Rightarrow> bool \<Rightarrow> pr_dev \<Rightarrow> scst_cmd \<Rightarrow> nat \<Rightarrow> byte list \<Rightarrow> (bool \<times> pr_dev \<times> scst_cmd) option" where
  "scst_persistent_reserve_out_local aborted notify d cmd td buffer =
     (if not_pr_supporting d \<noteq> 0 then do {
        (_, cmd) \<leftarrow> scst_set_cmd_error cmd ILLEGAL_REQUEST 0x20 0;
        Some (True, d, cmd\<lparr>completed := True\<rparr>) }
      else do {
        c1 \<leftarrow> rd (cdb cmd) 1;
        let action = c1 AND 0x1f;
        (if dev_reserved d then
           Some (True, d, (snd (scst_set_cmd_error_status cmd SAM_STAT_RESERVATION_CONFLICT))\<lparr>completed := True\<rparr>)
         else if buffer = [] then Some (True, d, cmd\<lparr>completed := True\<rparr>)
         else do {
           (ok, cmd) \<leftarrow> scst_pr_out_checks d cmd td buffer action;
           (if \<not> ok then Some (True, d, cmd\<lparr>completed := True\<rparr>)
            else if aborted then Some (True, d, cmd)
            else map_option (pr_out_finish notify) (scst_pr_out_action d cmd td buffer action)) }) })"

section \<open>What a reservation allows\<close>

definition scst_pr_is_cmd_allowed :: "pr_dev \<Rightarrow> scst_cmd \<Rightarrow> nat \<Rightarrow> bool option" where
  "scst_pr_is_cmd_allowed d cmd td =
     (if \<not> pr_is_set d then Some True
      else do {
        t \<leftarrow> rd (tgt_devs d) td;
        let reg = registrant t;
        let type = pr_type d;
        let write_ok = op_flags cmd AND SCST_WRITE_EXCL_ALLOWED \<noteq> 0;
        let access_ok = op_flags cmd AND SCST_EXCL_ACCESS_ALLOWED \<noteq> 0;
        Some (
          if type = TYPE_WRITE_EXCLUSIVE then
            if reg \<noteq> None \<and> reg = pr_holder d then True else write_ok
          else if type = TYPE_EXCLUSIVE_ACCESS then
            if reg \<noteq> None \<and> reg = pr_holder d then True else access_ok
          else if type \<in> {TYPE_WRITE_EXCLUSIVE_REGONLY, TYPE_WRITE_EXCLUSIVE_ALL_REG} then
            if reg \<noteq> None then True else write_ok
          else if type \<in> {TYPE_EXCLUSIVE_ACCESS_REGONLY, TYPE_EXCLUSIVE_ACCESS_ALL_REG} then
            if reg \<noteq> None then True else access_ok
          else False) })"

definition scst_pr_crh_case :: "pr_dev \<Rightarrow> nat \<Rightarrow> bool option" where
  "scst_pr_crh_case d td =
     (if \<not> pr_is_set d then Some False
      else do {
        t \<leftarrow> rd (tgt_devs d) td;
        let reg = registrant t;
        let type = pr_type d;
        Some (
          if type \<in> {TYPE_WRITE_EXCLUSIVE, TYPE_EXCLUSIVE_ACCESS} then reg = pr_holder d
          else if type \<in> {TYPE_WRITE_EXCLUSIVE_REGONLY, TYPE_EXCLUSIVE_ACCESS_REGONLY,
                  TYPE_WRITE_EXCLUSIVE_ALL_REG, TYPE_EXCLUSIVE_ACCESS_ALL_REG} then reg \<noteq> None
          else False) })"

section \<open>Devices and nexuses that come and go\<close>

definition scst_pr_init :: "pr_dev \<Rightarrow> pr_dev" where
  "scst_pr_init d =
     d\<lparr>pr_generation := 0, pr_is_set := False, pr_holder := None, pr_scope := SCOPE_LU,
       pr_type := TYPE_UNSPECIFIED, registrants := []\<rparr>"

definition scst_pr_clear_dev :: "pr_dev \<Rightarrow> pr_dev option" where
  "scst_pr_clear_dev d = scst_pr_remove_registrants d"

definition scst_pr_init_tgt_dev :: "pr_dev \<Rightarrow> nat \<Rightarrow> pr_dev option" where
  "scst_pr_init_tgt_dev d td = do {
     t \<leftarrow> rd (tgt_devs d) td;
     (if sess_transport_id t = None then Some d
      else do {
        r \<leftarrow> scst_pr_find_reg d (sess_transport_id t) (sess_rel_tgt_id t);
        (case r of
           None \<Rightarrow> Some d
         | Some a \<Rightarrow> do {
             reg \<leftarrow> reg_at d a;
             (if reg_tgt_dev reg = None
              then Some (upd_reg a (\<lambda>r. r\<lparr>reg_tgt_dev := Some td\<rparr>) (set_registrant td (Some a) d))
              else Some d) }) }) }"

text \<open>The first other nexus of the registrant that loses its nexus.\<close>

fun find_other :: "nat \<Rightarrow> scst_tgt_dev list \<Rightarrow> nat \<Rightarrow> scst_dev_registrant \<Rightarrow> nat option option" where
  "find_other i [] td reg = Some None"
| "find_other i (t # ts) td reg =
     (if i = td \<or> sess_rel_tgt_id t \<noteq> rel_tgt_id reg then find_other (i + 1) ts td reg
      else do {
        eq \<leftarrow> tid_equal (sess_transport_id t) (Some (transport_id reg));
        if eq then Some (Some i) else find_other (i + 1) ts td reg })"

definition scst_pr_clear_tgt_dev :: "pr_dev \<Rightarrow> nat \<Rightarrow> pr_dev option" where
  "scst_pr_clear_tgt_dev d td = do {
     t \<leftarrow> rd (tgt_devs d) td;
     (case registrant t of
        None \<Rightarrow> Some d
      | Some a \<Rightarrow> do {
          reg \<leftarrow> reg_at d a;
          let d = upd_reg a (\<lambda>r. r\<lparr>reg_tgt_dev := None\<rparr>) (set_registrant td None d);
          other \<leftarrow> find_other 0 (tgt_devs d) td reg;
          Some (case other of
             None \<Rightarrow> d
           | Some i \<Rightarrow> upd_reg a (\<lambda>r. r\<lparr>reg_tgt_dev := Some i\<rparr>) (set_registrant i (Some a) d)) }) }"

end
