(* ===== verification/Pres_Inv.thy ===== *)
theory Pres_Inv
  imports Pres
begin

text \<open>
  The invariant of the persistent reservations of a device, and that the operations on
  registrants and on the holder keep it.

  The lemmas are stated with \<open>returns s m P\<close>: a result of \<open>m\<close> satisfies
  \<open>P\<close>, and when \<open>s\<close> holds there is one, that is, no memory outside of an
  object is read or written, no freed registrant is used and no null pointer followed.
\<close>

section \<open>Results\<close>

definition returns :: "bool \<Rightarrow> 'a option \<Rightarrow> ('a \<Rightarrow> bool) \<Rightarrow> bool" where
  "returns s m P = (case m of None \<Rightarrow> \<not> s | Some x \<Rightarrow> P x)"

lemma returns_Some [simp]: "returns s (Some x) P = P x"
  by (simp add: returns_def)

lemma returns_None [simp]: "returns s None P = (\<not> s)"
  by (simp add: returns_def)

lemma returns_bind: "returns s (Option.bind m f) P = returns s m (\<lambda>x. returns s (f x) P)"
  by (cases m) auto

lemma returns_map: "returns s (map_option f m) P = returns s m (\<lambda>x. P (f x))"
  by (cases m) auto

lemma returns_if: "returns s (if c then x else y) P = ((c \<longrightarrow> returns s x P) \<and> (\<not> c \<longrightarrow> returns s y P))"
  by auto

lemma returns_mono: "returns s m P \<Longrightarrow> (\<And>x. m = Some x \<Longrightarrow> P x \<Longrightarrow> Q x) \<Longrightarrow> returns s m Q"
  by (cases m) auto

lemma returnsD: "returns s m P \<Longrightarrow> m = Some x \<Longrightarrow> P x"
  by simp

lemma returns_ex: "returns True m P \<longleftrightarrow> (\<exists>x. m = Some x \<and> P x)"
  by (cases m) auto

lemma returns_any: "(\<And>s. returns s m P) \<Longrightarrow> \<exists>x. m = Some x \<and> P x"
  using returns_ex by metis

lemma returns_rd: "returns s (rd xs i) P = (if i < length xs then P (xs ! i) else \<not> s)"
  by (simp add: rd_def)

lemma returns_be:
  "returns s (get_unaligned_be16 p off) P = (if off + 2 \<le> length p then P (of_nat (be_val (take 2 (drop off p)))) else \<not> s)"
  "returns s (get_unaligned_be32 p off) Q = (if off + 4 \<le> length p then Q (of_nat (be_val (take 4 (drop off p)))) else \<not> s)"
  "returns s (get_unaligned_be64 p off) R = (if off + 8 \<le> length p then R (of_nat (be_val (take 8 (drop off p)))) else \<not> s)"
  by (auto simp: get_unaligned_be16_def get_unaligned_be32_def get_unaligned_be64_def rd_range_def)

section \<open>Invariant\<close>

definition pr_regs_ok :: "pr_dev \<Rightarrow> bool" where
  "pr_regs_ok d = (distinct (map fst (registrants d)) \<and>
     list_all (\<lambda>(a, r). a < next_reg d \<and> tid_ok (transport_id r) \<and> reg_key r \<noteq> 0) (registrants d))"

text \<open>A registrant and its nexus point to each other.\<close>

definition pr_links_ok :: "pr_dev \<Rightarrow> bool" where
  "pr_links_ok d =
     (list_all (\<lambda>(a, r). case reg_tgt_dev r of None \<Rightarrow> True
        | Some i \<Rightarrow> i < length (tgt_devs d) \<and> registrant (tgt_devs d ! i) = Some a) (registrants d) \<and>
      list_all (\<lambda>i. case registrant (tgt_devs d ! i) of None \<Rightarrow> True
        | Some a \<Rightarrow> (case reg_at d a of None \<Rightarrow> False | Some r \<Rightarrow> reg_tgt_dev r = Some i))
        [0..<length (tgt_devs d)])"

definition pr_holder_ok :: "pr_dev \<Rightarrow> bool" where
  "pr_holder_ok d =
     (if pr_is_set d
      then scst_pr_type_valid (pr_type d) \<and> pr_scope d = SCOPE_LU \<and> registrants d \<noteq> [] \<and>
           (case pr_holder d of None \<Rightarrow> all_reg (pr_type d) | Some a \<Rightarrow> reg_at d a \<noteq> None)
      else pr_holder d = None)"

definition pr_sess_ok :: "pr_dev \<Rightarrow> bool" where
  "pr_sess_ok d = list_all (\<lambda>t. case sess_transport_id t of None \<Rightarrow> True | Some tid \<Rightarrow> tid_ok tid) (tgt_devs d)"

text \<open>What holds at every point of a command, and what holds between commands.\<close>

definition pr_core :: "pr_dev \<Rightarrow> bool" where
  "pr_core d = (pr_regs_ok d \<and> pr_links_ok d \<and> pr_holder_ok d \<and> pr_sess_ok d)"

definition pr_inv :: "pr_dev \<Rightarrow> bool" where
  "pr_inv d = (pr_core d \<and> list_all (\<lambda>(a, r). rollback_key r = 0) (registrants d))"

text \<open>What no operation changes: the sessions of the nexuses and the targets.\<close>

definition pr_static :: "pr_dev \<Rightarrow> byte list option list \<times> 16 word list \<times> scst_tgt list" where
  "pr_static d = (map sess_transport_id (tgt_devs d), map sess_rel_tgt_id (tgt_devs d), tgts d)"

lemmas core_defs = pr_core_def pr_regs_ok_def pr_links_ok_def pr_holder_ok_def pr_sess_ok_def

section \<open>Registrants in memory\<close>

lemma reg_at_mem: "reg_at d a = Some r \<Longrightarrow> (a, r) \<in> set (registrants d)"
  by (simp add: reg_at_def map_of_SomeD)

lemma reg_at_iff: "pr_regs_ok d \<Longrightarrow> reg_at d a = Some r \<longleftrightarrow> (a, r) \<in> set (registrants d)"
  by (simp add: reg_at_def pr_regs_ok_def)

lemma reg_at_dom: "reg_at d a \<noteq> None \<longleftrightarrow> a \<in> fst ` set (registrants d)"
  by (simp add: reg_at_def map_of_eq_None_iff)

lemma map_of_upd:
  "map_of (map (\<lambda>(b, r). (b, if b = a then f r else r)) xs) b =
     (if b = a then map_option f (map_of xs a) else map_of xs b)"
  by (induction xs) auto

lemma reg_at_upd_reg [simp]:
  "reg_at (upd_reg a f d) b = (if b = a then map_option f (reg_at d a) else reg_at d b)"
  by (simp add: reg_at_def upd_reg_def map_of_upd)

lemma upd_reg_simps [simp]:
  "map fst (registrants (upd_reg a f d)) = map fst (registrants d)"
  "registrants (upd_reg a f d) = [] \<longleftrightarrow> registrants d = []"
  "pr_is_set (upd_reg a f d) = pr_is_set d" "pr_scope (upd_reg a f d) = pr_scope d"
  "pr_type (upd_reg a f d) = pr_type d" "pr_holder (upd_reg a f d) = pr_holder d"
  "next_reg (upd_reg a f d) = next_reg d" "tgt_devs (upd_reg a f d) = tgt_devs d"
  "tgts (upd_reg a f d) = tgts d" "pr_static (upd_reg a f d) = pr_static d"
  "pr_log (upd_reg a f d) = pr_log d"
  by (simp_all add: upd_reg_def pr_static_def comp_def case_prod_unfold)

lemma core_fields:
  assumes "registrants d' = registrants d" "next_reg d' = next_reg d" "tgt_devs d' = tgt_devs d"
    "pr_is_set d' = pr_is_set d" "pr_scope d' = pr_scope d" "pr_type d' = pr_type d"
    "pr_holder d' = pr_holder d"
  shows "pr_core d' = pr_core d"
  unfolding core_defs reg_at_def assms ..

lemma core_log [simp]:
  "pr_core (log e d) = pr_core d" "pr_static (log e d) = pr_static d" "reg_at (log e d) a = reg_at d a"
  "registrants (log e d) = registrants d" "tgt_devs (log e d) = tgt_devs d"
  by (rule core_fields, simp_all add: log_def pr_static_def reg_at_def)

lemma core_upds [simp]:
  "pr_core (d\<lparr>pr_generation := g\<rparr>) = pr_core d" "pr_core (d\<lparr>env_mem := m\<rparr>) = pr_core d"
  "pr_core (d\<lparr>pr_aptpl := p\<rparr>) = pr_core d"
  by (rule core_fields, simp_all)+

text \<open>The parts of the invariant in terms of the registrant at an address.\<close>

lemma regs_okI:
  assumes "distinct (map fst (registrants d))"
    "\<And>a r. reg_at d a = Some r \<Longrightarrow> a < next_reg d \<and> tid_ok (transport_id r) \<and> reg_key r \<noteq> 0"
  shows "pr_regs_ok d"
  using assms by (auto simp: pr_regs_ok_def list_all_iff reg_at_def)

lemma regs_okD:
  assumes "pr_regs_ok d" "reg_at d a = Some r"
  shows "a < next_reg d" "tid_ok (transport_id r)" "reg_key r \<noteq> 0"
  using assms reg_at_mem[OF assms(2)] by (auto simp: pr_regs_ok_def list_all_iff)

lemma links_okI:
  assumes "distinct (map fst (registrants d))"
    "\<And>a r i. reg_at d a = Some r \<Longrightarrow> reg_tgt_dev r = Some i \<Longrightarrow>
       i < length (tgt_devs d) \<and> registrant (tgt_devs d ! i) = Some a"
    "\<And>a i. i < length (tgt_devs d) \<Longrightarrow> registrant (tgt_devs d ! i) = Some a \<Longrightarrow>
       \<exists>r. reg_at d a = Some r \<and> reg_tgt_dev r = Some i"
  shows "pr_links_ok d"
proof -
  have "case reg_tgt_dev r of None \<Rightarrow> True
      | Some i \<Rightarrow> i < length (tgt_devs d) \<and> registrant (tgt_devs d ! i) = Some a"
    if "(a, r) \<in> set (registrants d)" for a r
    using assms(1) that assms(2)[of a r] by (simp add: reg_at_def split: option.splits)
  moreover have "case registrant (tgt_devs d ! i) of None \<Rightarrow> True
      | Some a \<Rightarrow> (case reg_at d a of None \<Rightarrow> False | Some r \<Rightarrow> reg_tgt_dev r = Some i)"
    if "i < length (tgt_devs d)" for i
    using assms(3)[OF that] by (cases "registrant (tgt_devs d ! i)") auto
  ultimately show ?thesis
    by (simp add: pr_links_ok_def list_all_iff Ball_def split: prod.splits)
qed

lemma links_okD:
  assumes "pr_links_ok d" "reg_at d a = Some r" "reg_tgt_dev r = Some i"
  shows "i < length (tgt_devs d)" "registrant (tgt_devs d ! i) = Some a"
  using assms(1,3) reg_at_mem[OF assms(2)] by (auto simp: pr_links_ok_def list_all_iff)

lemma links_okE:
  assumes "pr_links_ok d" "i < length (tgt_devs d)" "registrant (tgt_devs d ! i) = Some a"
  obtains r where "reg_at d a = Some r" "reg_tgt_dev r = Some i"
  using assms unfolding pr_links_ok_def list_all_iff by (fastforce split: option.splits)

lemma core_upd_reg:
  assumes c: "pr_core d"
    and f: "\<And>r. transport_id (f r) = transport_id r \<and> reg_tgt_dev (f r) = reg_tgt_dev r"
    and k: "\<And>r. reg_at d a = Some r \<Longrightarrow> reg_key (f r) \<noteq> 0"
  shows "pr_core (upd_reg a f d)"
proof -
  have r: "pr_regs_ok d" and l: "pr_links_ok d" using c by (auto simp: pr_core_def)
  then have dist: "distinct (map fst (registrants (upd_reg a f d)))" by (simp add: pr_regs_ok_def)
  have "pr_regs_ok (upd_reg a f d)"
    using regs_okD[OF r] f k dist by (intro regs_okI) (auto split: if_splits)
  moreover have "pr_links_ok (upd_reg a f d)"
    using dist links_okD[OF l] f
    by (intro links_okI) (auto split: if_splits elim!: links_okE[OF l])
  moreover have "pr_holder_ok (upd_reg a f d)"
    using c by (auto simp: pr_core_def pr_holder_ok_def split: option.splits if_splits)
  ultimately show ?thesis using c by (simp add: pr_core_def pr_sess_ok_def)
qed

section \<open>The holder\<close>

lemma set_holder_simps [simp]:
  "registrants (scst_pr_set_holder d a sc ty) = registrants d"
  "tgt_devs (scst_pr_set_holder d a sc ty) = tgt_devs d"
  "next_reg (scst_pr_set_holder d a sc ty) = next_reg d"
  "reg_at (scst_pr_set_holder d a sc ty) b = reg_at d b"
  "pr_static (scst_pr_set_holder d a sc ty) = pr_static d"
  by (simp_all add: scst_pr_set_holder_def reg_at_def pr_static_def)

lemma clear_reservation_simps [simp]:
  "registrants (scst_pr_clear_reservation d) = registrants d"
  "tgt_devs (scst_pr_clear_reservation d) = tgt_devs d" "tgts (scst_pr_clear_reservation d) = tgts d"
  "next_reg (scst_pr_clear_reservation d) = next_reg d"
  "reg_at (scst_pr_clear_reservation d) b = reg_at d b"
  "pr_static (scst_pr_clear_reservation d) = pr_static d"
  "pr_is_set (scst_pr_clear_reservation d) = False"
  "pr_holder (scst_pr_clear_reservation d) = None"
  by (simp_all add: scst_pr_clear_reservation_def reg_at_def pr_static_def)

lemma clear_holder_simps [simp]:
  "registrants (scst_pr_clear_holder d) = registrants d"
  "tgt_devs (scst_pr_clear_holder d) = tgt_devs d"
  "next_reg (scst_pr_clear_holder d) = next_reg d"
  "reg_at (scst_pr_clear_holder d) b = reg_at d b"
  "pr_static (scst_pr_clear_holder d) = pr_static d"
  "pr_holder (scst_pr_clear_holder d) = None"
  "pr_is_set (scst_pr_clear_holder d) =
     (pr_is_set d \<and> all_reg (pr_type d) \<and> registrants d \<noteq> [])"
  by (simp_all add: scst_pr_clear_holder_def reg_at_def pr_static_def Let_def)

lemma core_same_regs:
  assumes "pr_core d" "registrants d' = registrants d" "next_reg d' = next_reg d"
    "tgt_devs d' = tgt_devs d" "pr_holder_ok d'"
  shows "pr_core d'"
proof -
  have "pr_regs_ok d' \<and> pr_links_ok d' \<and> pr_sess_ok d'"
    using assms(1) unfolding pr_core_def pr_regs_ok_def pr_links_ok_def pr_sess_ok_def reg_at_def assms(2-4)
    by blast
  then show ?thesis using assms(5) by (simp add: pr_core_def)
qed

lemma core_set_holder:
  assumes "pr_core d" "reg_at d a \<noteq> None" "scst_pr_type_valid ty" "sc = SCOPE_LU"
  shows "pr_core (scst_pr_set_holder d a sc ty)"
proof (rule core_same_regs[OF assms(1)])
  have "registrants d \<noteq> []" using assms(2) by (auto simp: reg_at_def)
  then show "pr_holder_ok (scst_pr_set_holder d a sc ty)"
    using assms by (auto simp: pr_holder_ok_def pr_core_def scst_pr_set_holder_def reg_at_def
      split: option.splits if_splits)
qed simp_all

lemma core_clear_reservation:
  assumes "pr_core d"
  shows "pr_core (scst_pr_clear_reservation d)"
  by (rule core_same_regs[OF assms]) (simp_all add: pr_holder_ok_def)

lemma core_holder:
  assumes "pr_core d" "pr_is_set d" "\<not> all_reg (pr_type d)"
  obtains h r where "pr_holder d = Some h" "reg_at d h = Some r"
  using assms by (auto simp: pr_core_def pr_holder_ok_def split: option.splits)

section \<open>Removing registrants\<close>

lemma map_of_filter_ne: "map_of (filter (\<lambda>(b, r). b \<noteq> a) xs) b = (if b = a then None else map_of xs b)"
  by (induction xs) auto

lemma set_registrant_simps [simp]:
  "registrants (set_registrant i r d) = registrants d" "next_reg (set_registrant i r d) = next_reg d"
  "reg_at (set_registrant i r d) b = reg_at d b" "length (tgt_devs (set_registrant i r d)) = length (tgt_devs d)"
  "pr_is_set (set_registrant i r d) = pr_is_set d" "pr_scope (set_registrant i r d) = pr_scope d"
  "pr_type (set_registrant i r d) = pr_type d" "pr_holder (set_registrant i r d) = pr_holder d"
  by (simp_all add: set_registrant_def reg_at_def)

lemma registrant_set_registrant:
  "j < length (tgt_devs d) \<Longrightarrow> registrant (tgt_devs (set_registrant i r d) ! j) =
     (if j = i then r else registrant (tgt_devs d ! j))"
  by (simp add: set_registrant_def nth_list_update)

lemma map_list_update_same: "f y = f (xs ! i) \<Longrightarrow> map f (xs[i := y]) = map f xs"
  by (cases "i < length xs") (simp_all add: map_update list_update_same_conv list_update_beyond not_less)

lemma sess_set_registrant [simp]:
  "map sess_transport_id (tgt_devs (set_registrant i r d)) = map sess_transport_id (tgt_devs d)"
  "map sess_rel_tgt_id (tgt_devs (set_registrant i r d)) = map sess_rel_tgt_id (tgt_devs d)"
  "pr_static (set_registrant i r d) = pr_static d"
  by (simp_all add: set_registrant_def pr_static_def map_list_update_same)

lemma sess_ok_static: "pr_static d' = pr_static d \<Longrightarrow> pr_sess_ok d' = pr_sess_ok d"
proof -
  have "pr_sess_ok d = list_all (\<lambda>x. case x of None \<Rightarrow> True | Some tid \<Rightarrow> tid_ok tid) (fst (pr_static d))" for d
    by (simp add: pr_sess_ok_def pr_static_def list_all_iff)
  then show "pr_static d' = pr_static d \<Longrightarrow> pr_sess_ok d' = pr_sess_ok d" by simp
qed

text \<open>The device without a registrant, before its nexus is told.\<close>

definition without :: "nat \<Rightarrow> pr_dev \<Rightarrow> pr_dev" where
  "without a d =
     (let d' = d\<lparr>registrants := filter (\<lambda>(b, r). b \<noteq> a) (registrants d)\<rparr>
      in if scst_pr_is_holder d (Some a) then scst_pr_clear_holder d' else d')"

lemma without_simps [simp]:
  "registrants (without a d) = filter (\<lambda>(b, r). b \<noteq> a) (registrants d)"
  "reg_at (without a d) b = (if b = a then None else reg_at d b)"
  "tgt_devs (without a d) = tgt_devs d" "next_reg (without a d) = next_reg d"
  "pr_static (without a d) = pr_static d"
  by (simp_all add: without_def Let_def reg_at_def map_of_filter_ne pr_static_def[of "d\<lparr>registrants := x\<rparr>" for x])
    (simp_all add: pr_static_def)

lemma remove_registrant_eq:
  assumes "reg_at d a = Some r" "pr_links_ok d"
  shows "scst_pr_remove_registrant d a =
     Some (case reg_tgt_dev r of None \<Rightarrow> without a d | Some i \<Rightarrow> set_registrant i None (without a d))"
proof -
  have h: "scst_pr_is_holder (d\<lparr>registrants := x\<rparr>) y = scst_pr_is_holder d y" for x y
    by (simp add: scst_pr_is_holder_def)
  show ?thesis
    using assms links_okD(1)[OF assms(2,1)]
    by (auto simp: scst_pr_remove_registrant_def without_def h Let_def split: option.splits)
qed

lemma holder_ok_without:
  assumes "pr_holder_ok d"
  shows "pr_holder_ok (without a d)"
proof (cases "pr_is_set d")
  case False
  then show ?thesis using assms by (simp add: pr_holder_ok_def without_def scst_pr_is_holder_def)
next
  case True
  show ?thesis
  proof (cases "scst_pr_is_holder d (Some a)")
    case True
    then show ?thesis using assms
      by (auto simp: pr_holder_ok_def without_def Let_def scst_pr_clear_holder_def)
  next
    case False
    then have "\<not> all_reg (pr_type d)" "pr_holder d \<noteq> Some a"
      using \<open>pr_is_set d\<close> by (auto simp: scst_pr_is_holder_def split: if_splits)
    moreover from this obtain b r where "pr_holder d = Some b" "reg_at d b = Some r" "b \<noteq> a"
      using assms \<open>pr_is_set d\<close> by (auto simp: pr_holder_ok_def split: option.splits)
    moreover have "filter (\<lambda>(b, r). b \<noteq> a) (registrants d) \<noteq> []"
      using reg_at_mem[OF \<open>reg_at d b = Some r\<close>] \<open>b \<noteq> a\<close> by (auto simp: filter_empty_conv)
    ultimately show ?thesis
      using assms False \<open>pr_is_set d\<close>
      by (simp add: pr_holder_ok_def without_def Let_def reg_at_def map_of_filter_ne)
  qed
qed

lemma core_remove:
  assumes c: "pr_core d" and r: "reg_at d a = Some r"
  shows "pr_core (case reg_tgt_dev r of None \<Rightarrow> without a d | Some i \<Rightarrow> set_registrant i None (without a d))"
    (is "pr_core ?d'")
proof -
  have R: "pr_regs_ok d" and L: "pr_links_ok d" and H: "pr_holder_ok d" and S: "pr_sess_ok d"
    using c by (auto simp: pr_core_def)
  have regs: "registrants ?d' = filter (\<lambda>(b, r). b \<noteq> a) (registrants d)"
    and at: "\<And>b. reg_at ?d' b = (if b = a then None else reg_at d b)"
    and n: "next_reg ?d' = next_reg d" and len: "length (tgt_devs ?d') = length (tgt_devs d)"
    and st: "pr_static ?d' = pr_static d"
    by (auto split: option.splits)
  have td: "registrant (tgt_devs ?d' ! i) =
      (if registrant (tgt_devs d ! i) = Some a then None else registrant (tgt_devs d ! i))"
    if "i < length (tgt_devs d)" for i
  proof (cases "reg_tgt_dev r")
    case None
    then have "registrant (tgt_devs d ! i) \<noteq> Some a"
      using links_okE[OF L that, of a] r by fastforce
    then show ?thesis using None by simp
  next
    case (Some j)
    then have "registrant (tgt_devs d ! i) = Some a \<longleftrightarrow> i = j"
      using links_okE[OF L that, of a] links_okD[OF L r Some] r by fastforce
    then show ?thesis
      using Some that by (simp add: registrant_set_registrant)
  qed
  have dist: "distinct (map fst (registrants ?d'))"
    using R unfolding regs by (simp add: pr_regs_ok_def distinct_map_filter)
  have "pr_regs_ok ?d'"
    using regs_okD[OF R] dist by (intro regs_okI) (auto simp: at n split: if_splits)
  moreover have "pr_links_ok ?d'"
  proof (rule links_okI[OF dist])
    fix b q i
    assume "reg_at ?d' b = Some q" "reg_tgt_dev q = Some i"
    then show "i < length (tgt_devs ?d') \<and> registrant (tgt_devs ?d' ! i) = Some b"
      using links_okD[OF L, of b q i] td[of i] by (auto simp: at len split: if_splits)
  next
    fix b i
    assume "i < length (tgt_devs ?d')" "registrant (tgt_devs ?d' ! i) = Some b"
    then show "\<exists>q. reg_at ?d' b = Some q \<and> reg_tgt_dev q = Some i"
      using td[of i] links_okE[OF L, of i b] by (auto simp: at len split: if_splits)
  qed
  moreover have "pr_holder_ok ?d'"
    using holder_ok_without[OF H, of a] by (auto simp: pr_holder_ok_def split: option.splits)
  moreover have "pr_sess_ok ?d'" using S sess_ok_static[OF st] by simp
  ultimately show ?thesis by (simp add: pr_core_def)
qed

lemma remove_registrant_ok:
  assumes "pr_core d" "reg_at d a = Some r"
  shows "returns s (scst_pr_remove_registrant d a) (\<lambda>d'. pr_core d' \<and> pr_static d' = pr_static d \<and>
     registrants d' = filter (\<lambda>(b, r). b \<noteq> a) (registrants d) \<and>
     (\<forall>b. reg_at d' b = (if b = a then None else reg_at d b)))"
  using remove_registrant_eq[OF assms(2)] core_remove[OF assms] assms(1)
  by (auto simp: pr_core_def split: option.splits)

lemma remove_list_ok:
  assumes "pr_core d" "distinct as" "\<forall>a \<in> set as. reg_at d a \<noteq> None"
  shows "returns s (remove_list as d) (\<lambda>d'. pr_core d' \<and> pr_static d' = pr_static d \<and>
     registrants d' = filter (\<lambda>(b, r). b \<notin> set as) (registrants d))"
  using assms
proof (induction as arbitrary: d)
  case (Cons a as)
  then obtain r where r: "reg_at d a = Some r" by auto
  show ?case
  proof (simp add: returns_bind, rule returns_mono[OF remove_registrant_ok[OF Cons.prems(1) r]], elim conjE)
    fix d'
    assume d': "pr_core d'" "pr_static d' = pr_static d" "registrants d' = filter (\<lambda>(b, r). b \<noteq> a) (registrants d)"
      "\<forall>b. reg_at d' b = (if b = a then None else reg_at d b)"
    have "\<forall>b \<in> set as. reg_at d' b \<noteq> None" using Cons.prems(2,3) d'(4) by auto
    from Cons.IH[OF d'(1) _ this] Cons.prems(2)
    show "returns s (remove_list as d') (\<lambda>d'. pr_core d' \<and> pr_static d' = pr_static d \<and>
        registrants d' = filter (\<lambda>(b, r). b \<noteq> a \<and> b \<notin> set as) (registrants d))"
      using d'(2,3) by (auto elim!: returns_mono simp: case_prod_unfold conj_commute)
  qed
qed (simp add: case_prod_unfold)

section \<open>Telling the initiators\<close>

text \<open>The operations that only send something.\<close>

definition only_log :: "pr_dev \<Rightarrow> pr_dev \<Rightarrow> bool" where
  "only_log d d' = (\<exists>l. d' = d\<lparr>pr_log := l\<rparr>)"

lemma only_log_simps:
  assumes "only_log d d'"
  shows "pr_core d' = pr_core d" "pr_static d' = pr_static d" "reg_at d' a = reg_at d a"
    "registrants d' = registrants d" "tgt_devs d' = tgt_devs d" "pr_is_set d' = pr_is_set d"
    "pr_scope d' = pr_scope d" "pr_type d' = pr_type d" "pr_holder d' = pr_holder d"
    "next_reg d' = next_reg d"
proof -
  obtain l where l: "d' = d\<lparr>pr_log := l\<rparr>" using assms by (auto simp: only_log_def)
  show "pr_core d' = pr_core d" by (rule core_fields) (simp_all add: l)
qed (use assms in \<open>auto simp: only_log_def pr_static_def reg_at_def\<close>)

lemma only_log_refl [simp]: "only_log d d" "only_log d (log e d)"
  by (auto simp: only_log_def log_def intro: exI[of _ "pr_log d"])

lemma only_log_log [simp]: "only_log d d' \<Longrightarrow> only_log d (log e d')"
  by (auto simp: only_log_def log_def)

lemma only_log_trans [trans]: "only_log a b \<Longrightarrow> only_log b c \<Longrightarrow> only_log a c"
  by (auto simp: only_log_def)

lemma send_ua_reg_ok: "reg_at d a \<noteq> None \<Longrightarrow> returns s (scst_pr_send_ua_reg k x y a d) (only_log d)"
  by (auto simp: scst_pr_send_ua_reg_def split: option.splits)

lemma abort_reg_ok: "reg_at d a \<noteq> None \<Longrightarrow> returns s (scst_pr_abort_reg td a d) (only_log d)"
  by (auto simp: scst_pr_abort_reg_def Let_def split: option.splits)

lemma send_ua_list_ok:
  "\<forall>a \<in> set as. reg_at d a \<noteq> None \<Longrightarrow> returns s (send_ua_list k x y as d) (only_log d)"
proof (induction as arbitrary: d)
  case (Cons a as)
  show ?case
  proof (simp add: returns_bind, rule returns_mono[OF send_ua_reg_ok])
    show "reg_at d a \<noteq> None" using Cons.prems by simp
  next
    fix d'
    assume "only_log d d'"
    then show "returns s (send_ua_list k x y as d') (only_log d)"
      using Cons.prems Cons.IH[of d'] by (auto simp: only_log_simps elim!: returns_mono intro: only_log_trans)
  qed
qed simp

lemma send_ua_all_ok: "returns s (scst_pr_send_ua_all ex k x y d) (only_log d)"
  unfolding scst_pr_send_ua_all_def by (rule send_ua_list_ok) (unfold reg_at_dom, auto)

section \<open>Preempting\<close>

lemma preempt_loop_ok:
  assumes "pr_core d" "distinct rs" "\<forall>a \<in> set rs. reg_at d a \<noteq> None"
  shows "returns s (preempt_loop td ab reg self rs d) (\<lambda>d'. pr_core d' \<and> pr_static d' = pr_static d \<and>
     registrants d' = filter (\<lambda>(b, r). b \<notin> set rs \<or> b = reg \<and> \<not> self) (registrants d))"
  using assms
proof (induction rs arbitrary: d)
  case (Cons a rs)
  have a: "reg_at d a \<noteq> None" using Cons.prems(3) by simp
  let ?P = "\<lambda>d'. pr_core d' \<and> pr_static d' = pr_static d \<and>
     registrants d' = filter (\<lambda>(b, r). b \<notin> set (a # rs) \<or> b = reg \<and> \<not> self) (registrants d)"
  have last: "returns s (preempt_loop td ab reg self rs d2) ?P"
    if "pr_core d2" "pr_static d2 = pr_static d"
      "registrants d2 = filter (\<lambda>(b, r). b \<noteq> a \<or> a = reg \<and> \<not> self) (registrants d)" for d2
  proof -
    have "\<forall>b \<in> set rs. reg_at d2 b \<noteq> None"
      using Cons.prems(2,3) that(3) unfolding reg_at_dom by fastforce
    from Cons.IH[OF that(1) _ this] Cons.prems(2) show ?thesis
      using that(2,3) by (auto elim!: returns_mono intro!: filter_cong)
  qed
  have mid: "returns s (if a \<noteq> reg \<or> self then scst_pr_remove_registrant d1 a else Some d1)
      (\<lambda>d2. returns s (preempt_loop td ab reg self rs d2) ?P)" if "only_log d d1" for d1
  proof (cases "a \<noteq> reg \<or> self")
    case True
    have "reg_at d1 a \<noteq> None" using a that by (simp add: only_log_simps)
    then obtain r where "reg_at d1 a = Some r" by auto
    moreover have "pr_core d1" using Cons.prems(1) that by (simp add: only_log_simps)
    ultimately have "returns s (scst_pr_remove_registrant d1 a)
        (\<lambda>d2. returns s (preempt_loop td ab reg self rs d2) ?P)"
      using True last only_log_simps[OF that]
      by (intro returns_mono[OF remove_registrant_ok]) auto
    then show ?thesis using True by simp
  next
    case False
    then show ?thesis using last[of d1] that Cons.prems(1) by (simp add: only_log_simps)
  qed
  have ua: "returns s (if a \<noteq> reg then scst_pr_send_ua_reg UNIT_ATTENTION 0x2A 0x05 a d1 else Some d1)
      (\<lambda>d1. only_log d d1)" if "only_log d d1" for d1
  proof -
    have "reg_at d1 a \<noteq> None" using a that by (simp add: only_log_simps)
    then have "returns s (scst_pr_send_ua_reg UNIT_ATTENTION 0x2A 0x05 a d1) (only_log d)"
      by (rule returns_mono[OF send_ua_reg_ok]) (rule only_log_trans[OF that])
    then show ?thesis using that by simp
  qed
  have ab: "returns s (if ab then scst_pr_abort_reg td a d else Some d) (only_log d)"
    using abort_reg_ok[OF a] by simp
  show ?case
    unfolding preempt_loop.simps returns_bind
    by (rule returns_mono[OF ab], rule returns_mono[OF ua], assumption, rule mid)
qed (simp add: case_prod_unfold)

section \<open>Finding and adding registrants\<close>

lemma tid_equal_ok: "(s \<Longrightarrow> tid_ok a \<and> tid_ok b) \<Longrightarrow> returns s (tid_equal (Some a) (Some b)) (\<lambda>r. r = tid_eq a b)"
  using tid_equal_total[of a b] by (cases "tid_equal (Some a) (Some b)") (auto simp: tid_eq_def)

lemma tid_equal_None [simp]: "tid_equal None b = Some False" "tid_equal a None = Some False"
  by (auto simp: tid_equal_def split: option.splits)

text \<open>What finding a registrant means: it is the first one of the target port whose identifier
  is equal.\<close>

definition reg_matches :: "byte list \<Rightarrow> 16 word \<Rightarrow> scst_dev_registrant \<Rightarrow> bool" where
  "reg_matches tid rel r = (rel_tgt_id r = rel \<and> tid_eq (transport_id r) tid)"

lemma find_reg_list_ok:
  assumes "\<forall>(a, r) \<in> set rs. tid_ok (transport_id r)" "s \<Longrightarrow> tid_ok tid"
  shows "returns s (find_reg rs (Some tid) rel)
     (\<lambda>x. x = map_option fst (find (\<lambda>(a, r). reg_matches tid rel r) rs))"
  using assms(1)
proof (induction rs)
  case (Cons p rs)
  obtain a r where p: "p = (a, r)" by (cases p)
  have eq: "returns s (tid_equal (Some (transport_id r)) (Some tid)) (\<lambda>x. x = tid_eq (transport_id r) tid)"
    by (rule tid_equal_ok) (use Cons.prems assms(2) p in auto)
  show ?case
  proof (cases "rel_tgt_id r = rel")
    case True
    then show ?thesis
      using Cons.IH Cons.prems
      by (auto simp: p returns_bind reg_matches_def intro!: returns_mono[OF eq])
  next
    case False
    then show ?thesis using Cons.IH Cons.prems by (auto simp: p reg_matches_def)
  qed
qed simp

definition reg_for :: "pr_dev \<Rightarrow> byte list \<Rightarrow> 16 word \<Rightarrow> nat option" where
  "reg_for d tid rel = map_option fst (find (\<lambda>(a, r). reg_matches tid rel r) (registrants d))"

lemma find_reg_ok:
  assumes "pr_core d" "s \<Longrightarrow> tid_ok tid"
  shows "returns s (scst_pr_find_reg d (Some tid) rel) (\<lambda>x. x = reg_for d tid rel)"
  unfolding scst_pr_find_reg_def reg_for_def
  using assms by (intro find_reg_list_ok) (auto simp: pr_core_def pr_regs_ok_def list_all_iff)

lemma reg_for_Some:
  assumes "pr_core d" "reg_for d tid rel = Some a"
  obtains r where "reg_at d a = Some r" "reg_matches tid rel r"
proof -
  obtain p where "find (\<lambda>(a, r). reg_matches tid rel r) (registrants d) = Some p" "fst p = a"
    using assms(2) by (auto simp: reg_for_def)
  then have "p \<in> set (registrants d)" "reg_matches tid rel (snd p)" "fst p = a"
    by (auto simp: find_Some_iff) (metis nth_mem)
  then show ?thesis
    using that[of "snd p"] assms(1) reg_at_iff[of d a "snd p"] by (auto simp: pr_core_def)
qed

lemma find_tgt_dev_ok:
  assumes "list_all (\<lambda>t. case sess_transport_id t of None \<Rightarrow> True | Some tid \<Rightarrow> tid_ok tid) ts" "s \<Longrightarrow> tid_ok tid"
  shows "returns s (find_tgt_dev n ts tid rel) (\<lambda>x. \<forall>i. x = Some i \<longrightarrow>
     n \<le> i \<and> i < n + length ts \<and> registrant (ts ! (i - n)) = None \<and> sess_rel_tgt_id (ts ! (i - n)) = rel)"
  using assms(1)
proof (induction ts arbitrary: n)
  case (Cons t ts)
  have eq: "returns s (tid_equal (sess_transport_id t) (Some tid)) (\<lambda>_. True)"
    using Cons.prems assms(2) by (cases "sess_transport_id t") (auto intro!: returns_mono[OF tid_equal_ok])
  have tl: "returns s (find_tgt_dev (n + 1) ts tid rel) (\<lambda>x. \<forall>i. x = Some i \<longrightarrow>
     n \<le> i \<and> i < n + length (t # ts) \<and> registrant ((t # ts) ! (i - n)) = None \<and>
     sess_rel_tgt_id ((t # ts) ! (i - n)) = rel)"
    using Cons.IH[of "n + 1"] Cons.prems by (auto elim!: returns_mono simp: nth_Cons')
  show ?case
    unfolding find_tgt_dev.simps returns_bind
    by (rule returns_mono[OF eq]) (use tl in \<open>auto simp: returns_if\<close>)
qed simp

text \<open>The device with a new registrant.\<close>

definition linked :: "nat option \<Rightarrow> nat \<Rightarrow> pr_dev \<Rightarrow> pr_dev" where
  "linked t a d = (case t of None \<Rightarrow> d | Some i \<Rightarrow> set_registrant i (Some a) d)"

definition added :: "scst_dev_registrant \<Rightarrow> pr_dev \<Rightarrow> pr_dev" where
  "added r d = (linked (reg_tgt_dev r) (next_reg d) d)
     \<lparr>next_reg := next_reg d + 1, registrants := registrants d @ [(next_reg d, r)]\<rparr>"

lemma linked_simps [simp]:
  "registrants (linked t a d) = registrants d" "next_reg (linked t a d) = next_reg d"
  "pr_is_set (linked t a d) = pr_is_set d" "pr_scope (linked t a d) = pr_scope d"
  "pr_type (linked t a d) = pr_type d" "pr_holder (linked t a d) = pr_holder d"
  "length (tgt_devs (linked t a d)) = length (tgt_devs d)" "pr_static (linked t a d) = pr_static d"
  by (simp_all add: linked_def split: option.splits)

lemma added_simps [simp]:
  "registrants (added r d) = registrants d @ [(next_reg d, r)]" "next_reg (added r d) = next_reg d + 1"
  "pr_is_set (added r d) = pr_is_set d" "pr_scope (added r d) = pr_scope d"
  "pr_type (added r d) = pr_type d" "pr_holder (added r d) = pr_holder d"
  "tgt_devs (added r d) = tgt_devs (linked (reg_tgt_dev r) (next_reg d) d)"
  "pr_static (added r d) = pr_static d"
  using linked_simps(8)[of "reg_tgt_dev r" "next_reg d" d]
  by (simp_all add: added_def pr_static_def del: linked_simps(8))

lemma registrant_linked:
  "i < length (tgt_devs d) \<Longrightarrow> registrant (tgt_devs (linked t a d) ! i) =
     (if t = Some i then Some a else registrant (tgt_devs d ! i))"
  by (cases t) (simp_all add: linked_def registrant_set_registrant)

lemma regs_ok_fresh: "pr_regs_ok d \<Longrightarrow> reg_at d (next_reg d) = None"
  using regs_okD(1)[of d "next_reg d"] by (cases "reg_at d (next_reg d)") auto

lemma reg_at_added:
  "pr_regs_ok d \<Longrightarrow> reg_at (added r d) b = (if b = next_reg d then Some r else reg_at d b)"
  using regs_ok_fresh[of d] by (auto simp: reg_at_def map_add_def split: option.splits)

text \<open>A registrant that may be added: its nexus has none.\<close>

definition new_ok :: "scst_dev_registrant \<Rightarrow> pr_dev \<Rightarrow> bool" where
  "new_ok r d = (tid_ok (transport_id r) \<and> reg_key r \<noteq> 0 \<and> rollback_key r = 0 \<and>
     (\<forall>i. reg_tgt_dev r = Some i \<longrightarrow> i < length (tgt_devs d) \<and> registrant (tgt_devs d ! i) = None))"

lemma core_added:
  assumes c: "pr_core d" and r: "new_ok r d"
  shows "pr_core (added r d)"
proof -
  have R: "pr_regs_ok d" and L: "pr_links_ok d" and H: "pr_holder_ok d" and S: "pr_sess_ok d"
    using c by (auto simp: pr_core_def)
  note at = reg_at_added[OF R] and fresh = regs_ok_fresh[OF R]
  have dist: "distinct (map fst (registrants (added r d)))"
    using R fresh by (auto simp: pr_regs_ok_def reg_at_def map_of_eq_None_iff)
  have "pr_regs_ok (added r d)"
    using dist
  proof (rule regs_okI)
    fix b q
    assume "reg_at (added r d) b = Some q"
    then show "b < next_reg (added r d) \<and> tid_ok (transport_id q) \<and> reg_key q \<noteq> 0"
      using regs_okD[OF R, of b q] r by (auto simp: at new_ok_def split: if_splits)
  qed
  moreover have "pr_links_ok (added r d)"
  proof (rule links_okI[OF dist])
    fix b q i
    assume "reg_at (added r d) b = Some q" "reg_tgt_dev q = Some i"
    then consider "b = next_reg d" "reg_tgt_dev r = Some i" | "reg_at d b = Some q" "reg_tgt_dev q = Some i"
      by (auto simp: at split: if_splits)
    then show "i < length (tgt_devs (added r d)) \<and> registrant (tgt_devs (added r d) ! i) = Some b"
    proof cases
      case 1
      then show ?thesis using r by (simp add: new_ok_def registrant_linked)
    next
      case 2
      then have "reg_tgt_dev r \<noteq> Some i" using r links_okD[OF L] by (fastforce simp: new_ok_def)
      then show ?thesis using links_okD[OF L 2] by (simp add: registrant_linked)
    qed
  next
    fix b i
    assume "i < length (tgt_devs (added r d))" "registrant (tgt_devs (added r d) ! i) = Some b"
    then have "reg_tgt_dev r = Some i \<and> b = next_reg d \<or>
        i < length (tgt_devs d) \<and> registrant (tgt_devs d ! i) = Some b"
      by (auto simp: registrant_linked split: if_splits)
    then show "\<exists>q. reg_at (added r d) b = Some q \<and> reg_tgt_dev q = Some i"
      using fresh links_okE[OF L, of i b] by (elim disjE) (simp_all add: at, metis option.distinct(1))
  qed
  moreover have "pr_holder_ok (added r d)"
    using H by (auto simp: pr_holder_ok_def at split: option.splits if_splits)
  ultimately show ?thesis using S sess_ok_static[of "added r d" d] by (simp add: pr_core_def)
qed

lemma alloc_cases: "\<exists>ok m. alloc d = (ok, d\<lparr>env_mem := m\<rparr>)"
  by (cases "env_mem d") (auto simp: alloc_def intro: exI[of _ "env_mem d"])

lemma new_ok_env [simp]: "new_ok r (d\<lparr>env_mem := m\<rparr>) = new_ok r d"
  by (simp add: new_ok_def)

text \<open>The result of adding a registrant: the memory for it ran out or there is one already, or
  it is the last one of the list.\<close>

definition add_result :: "pr_dev \<Rightarrow> byte list \<Rightarrow> 16 word \<Rightarrow> 64 word \<Rightarrow> nat option \<times> pr_dev \<Rightarrow> bool" where
  "add_result d tid rel key x =
     ((\<exists>m. x = (None, d\<lparr>env_mem := m\<rparr>)) \<or>
      (\<exists>m r n. x = (Some (next_reg d), added r (d\<lparr>env_mem := m\<rparr>)) \<and> new_ok r d \<and> reg_key r = key \<and>
         rel_tgt_id r = rel \<and> scst_tid_size tid = Some n \<and> transport_id r = take n tid \<and>
         reg_for d tid rel = None))"

lemma add_result_None [simp]: "add_result d tid rel key (None, d\<lparr>env_mem := m\<rparr>)" "add_result d tid rel key (None, d)"
  by (auto simp: add_result_def intro: exI[of _ "env_mem d"])

lemma add_result_Some:
  assumes "scst_tid_size tid = Some n" "n \<le> length tid" "key \<noteq> 0" "reg_for d tid rel = None"
    "\<forall>i. x = Some i \<longrightarrow> i < length (tgt_devs d) \<and> registrant (tgt_devs d ! i) = None"
  shows "add_result d tid rel key (Some (next_reg d), added \<lparr>transport_id = take n tid, rel_tgt_id = rel,
     reg_key = key, reg_tgt_dev = x, rollback_key = 0\<rparr> (d\<lparr>env_mem := m\<rparr>))"
proof -
  let ?r = "\<lparr>transport_id = take n tid, rel_tgt_id = rel, reg_key = key, reg_tgt_dev = x, rollback_key = 0\<rparr>"
  have "new_ok ?r d" using assms tid_ok_take[of tid n] by (simp add: new_ok_def)
  then show ?thesis
    unfolding add_result_def
    by (intro disjI2 exI[of _ m] exI[of _ ?r] exI[of _ n]) (simp add: assms)
qed

lemma add_registrant_ok:
  assumes c: "pr_core d" and t: "s \<Longrightarrow> tid_ok tid" and k: "key \<noteq> 0"
  shows "returns s (scst_pr_add_registrant d tid rel key) (add_result d tid rel key)"
  unfolding scst_pr_add_registrant_def returns_bind
proof (rule returns_mono[OF find_reg_ok[OF c t]], assumption)
  fix x
  assume x: "x = reg_for d tid rel"
  obtain ok1 m1 where a1: "alloc d = (ok1, d\<lparr>env_mem := m1\<rparr>)" using alloc_cases by blast
  obtain ok2 m2 where a2: "alloc (d\<lparr>env_mem := m1\<rparr>) = (ok2, d\<lparr>env_mem := m2\<rparr>)"
    using alloc_cases[of "d\<lparr>env_mem := m1\<rparr>"] by auto
  have td: "returns s (find_tgt_dev 0 (tgt_devs d) tid rel) (\<lambda>x. \<forall>i. x = Some i \<longrightarrow>
      i < length (tgt_devs d) \<and> registrant (tgt_devs d ! i) = None)"
    using c by (intro returns_mono[OF find_tgt_dev_ok[OF _ t]]) (simp_all add: pr_core_def pr_sess_ok_def)
  have sz: "s \<Longrightarrow> \<exists>n. scst_tid_size tid = Some n \<and> n \<le> length tid"
    using t by (auto elim: tid_okE)
  have "x = None \<longrightarrow> ok1 \<longrightarrow> returns s (scst_tid_size tid) (\<lambda>n. returns s (rd_range tid 0 n) (\<lambda>copy.
      ok2 \<longrightarrow> returns s (find_tgt_dev 0 (tgt_devs d) tid rel) (\<lambda>x. add_result d tid rel key
        (Some (next_reg d), added \<lparr>transport_id = copy, rel_tgt_id = rel, reg_key = key,
           reg_tgt_dev = x, rollback_key = 0\<rparr> (d\<lparr>env_mem := m2\<rparr>)))))"
    using sz x k
    by (cases "scst_tid_size tid")
      (auto simp: rd_range_def intro!: returns_mono[OF td] add_result_Some)
  then show "returns s (if x \<noteq> None then Some (None, d)
      else let (ok, d) = alloc d
           in if \<not> ok then Some (None, d)
              else do {
                size \<leftarrow> scst_tid_size tid;
                copy \<leftarrow> rd_range tid 0 size;
                (let (ok, d) = alloc d
                 in if \<not> ok then Some (None, d)
                    else do {
                      t \<leftarrow> find_tgt_dev 0 (tgt_devs d) tid rel;
                      let a = next_reg d;
                      let d = (case t of None \<Rightarrow> d | Some i \<Rightarrow> set_registrant i (Some a) d);
                      Some (Some a, d\<lparr>next_reg := a + 1, registrants := registrants d @
                        [(a, \<lparr>transport_id = copy, rel_tgt_id = rel, reg_key = key, reg_tgt_dev = t,
                              rollback_key = 0\<rparr>)]\<rparr>) }) }) (add_result d tid rel key)"
    by (simp add: a1 a2 returns_bind returns_if linked_def[symmetric] added_def Let_def)
qed

end
