(* ===== verification/Pres_Reg.thy ===== *)
theory Pres_Reg
  imports Pres_Inv
begin

text \<open>
  Registering: what a command has registered up to a point can be undone, so that a command that
  fails leaves the registrants and the nexuses as they were.
\<close>

section \<open>Undoing\<close>

text \<open>A registrant before the command: absent when it is a new one of the command, with its former
  key when it was given a new one.\<close>

definition undo1 :: "nat list \<Rightarrow> nat \<times> scst_dev_registrant \<Rightarrow> (nat \<times> scst_dev_registrant) list" where
  "undo1 rb p =
     (if fst p \<in> set rb then
        if rollback_key (snd p) = 0 then []
        else [(fst p, (snd p)\<lparr>reg_key := rollback_key (snd p), rollback_key := 0\<rparr>)]
      else [p])"

definition undo_regs :: "nat list \<Rightarrow> pr_dev \<Rightarrow> (nat \<times> scst_dev_registrant) list" where
  "undo_regs rb d = concat (map (undo1 rb) (registrants d))"

definition is_new :: "nat list \<Rightarrow> pr_dev \<Rightarrow> nat option \<Rightarrow> bool" where
  "is_new rb d x = (\<exists>a \<in> set rb. x = Some a \<and> (\<exists>r. reg_at d a = Some r \<and> rollback_key r = 0))"

definition undo_tds :: "nat list \<Rightarrow> pr_dev \<Rightarrow> scst_tgt_dev list" where
  "undo_tds rb d = map (\<lambda>t. if is_new rb d (registrant t) then t\<lparr>registrant := None\<rparr> else t) (tgt_devs d)"

definition reservation :: "pr_dev \<Rightarrow> bool \<times> byte \<times> byte \<times> nat option" where
  "reservation d = (pr_is_set d, pr_scope d, pr_type d, pr_holder d)"

definition pr_rest :: "pr_dev \<Rightarrow> 32 word \<times> bool \<times> pr_event list" where
  "pr_rest d = (pr_generation d, pr_aptpl d, pr_log d)"

text \<open>The state \<open>d\<close> of a registration with the key \<open>K\<close> that began in the state
  \<open>d0\<close> and has \<open>rb\<close> to be undone.\<close>

definition reg_state :: "64 word \<Rightarrow> pr_dev \<Rightarrow> nat list \<Rightarrow> pr_dev \<Rightarrow> bool" where
  "reg_state K d0 rb d = (pr_core d \<and> pr_static d = pr_static d0 \<and> distinct rb \<and>
     (\<forall>a \<in> set rb. \<exists>r. reg_at d a = Some r \<and> reg_key r = K) \<and>
     (\<forall>a r. reg_at d a = Some r \<longrightarrow> a \<notin> set rb \<longrightarrow> rollback_key r = 0) \<and>
     undo_regs rb d = registrants d0 \<and> undo_tds rb d = tgt_devs d0 \<and> reservation d = reservation d0 \<and> pr_rest d = pr_rest d0)"

lemma pr_rest_simps [simp]:
  "pr_rest (upd_reg a f d) = pr_rest d" "pr_rest (added r d) = pr_rest d" "pr_rest (without a d) = pr_rest d"
  "pr_rest (set_registrant i x d) = pr_rest d"
  by (simp_all add: pr_rest_def upd_reg_def added_def linked_def set_registrant_def without_def
    scst_pr_clear_holder_def scst_pr_clear_reservation_def Let_def split: option.splits)

lemma undo_Nil [simp]: "undo_regs [] d = registrants d" "undo_tds [] d = tgt_devs d"
proof -
  have "undo1 [] = (\<lambda>p. [p])" by (simp add: undo1_def fun_eq_iff)
  then show "undo_regs [] d = registrants d" by (simp add: undo_regs_def)
qed (simp add: undo_tds_def is_new_def)

lemma reg_state_start:
  assumes "pr_inv d"
  shows "reg_state K d [] d"
  using assms reg_at_mem by (fastforce simp: reg_state_def pr_inv_def list_all_iff)

lemma reg_state_env: "reg_state K d0 rb (d\<lparr>env_mem := m\<rparr>) = reg_state K d0 rb d"
  by (simp add: reg_state_def undo_regs_def undo_tds_def is_new_def reservation_def pr_rest_def reg_at_def pr_static_def)

lemma reg_state_rekey:
  assumes st: "reg_state K d0 rb d" and r: "reg_at d a = Some r" "reg_key r \<noteq> K" and K: "K \<noteq> 0"
  shows "reg_state K d0 (rb @ [a]) (upd_reg a (\<lambda>r. r\<lparr>rollback_key := reg_key r, reg_key := K\<rparr>) d)"
    (is "reg_state K d0 _ (upd_reg a ?f d)")
proof -
  have c: "pr_core d" and R: "pr_regs_ok d" using st by (auto simp: reg_state_def pr_core_def)
  have a: "a \<notin> set rb" using st r by (auto simp: reg_state_def)
  have z: "rollback_key r = 0" using st r(1) a by (auto simp: reg_state_def)
  have nz: "reg_key r \<noteq> 0" using regs_okD(3)[OF R r(1)] .
  have "pr_core (upd_reg a ?f d)" by (rule core_upd_reg[OF c]) (simp_all add: K)
  moreover have "undo_regs (rb @ [a]) (upd_reg a ?f d) = undo_regs rb d"
  proof -
    have "undo1 (rb @ [a]) ((\<lambda>(b, r). (b, if b = a then ?f r else r)) p) = undo1 rb p"
      if "p \<in> set (registrants d)" for p
    proof -
      obtain b q where p: "p = (b, q)" by (cases p)
      have "q = r" if "b = a" using \<open>p \<in> set (registrants d)\<close> that r(1) reg_at_iff[OF R, of a q] p by simp
      then show ?thesis using a z nz by (cases r) (auto simp: undo1_def p)
    qed
    then show ?thesis
      unfolding undo_regs_def upd_reg_def by (auto intro!: arg_cong[where f = concat] simp: comp_def)
  qed
  moreover have "is_new (rb @ [a]) (upd_reg a ?f d) = is_new rb d"
    using a nz r(1) by (auto simp: is_new_def fun_eq_iff split: if_splits)
  ultimately show ?thesis
    using st a r by (auto simp: reg_state_def undo_tds_def reservation_def split: if_splits)
qed

lemma reg_state_added:
  assumes st: "reg_state K d0 rb d" and r: "new_ok r d" "reg_key r = K"
  shows "reg_state K d0 (rb @ [next_reg d]) (added r d)"
proof -
  have c: "pr_core d" and R: "pr_regs_ok d" and L: "pr_links_ok d"
    using st by (auto simp: reg_state_def pr_core_def)
  have fresh: "reg_at d (next_reg d) = None" by (rule regs_ok_fresh[OF R])
  then have a: "next_reg d \<notin> set rb" using st by (fastforce simp: reg_state_def)
  note at = reg_at_added[OF R, of r]
  have "undo_regs (rb @ [next_reg d]) (added r d) = undo_regs rb d"
  proof -
    have "undo1 (rb @ [next_reg d]) p = undo1 rb p" if "p \<in> set (registrants d)" for p
    proof -
      have "fst p \<noteq> next_reg d" using that fresh by (metis map_of_eq_None_iff reg_at_def imageI)
      then show ?thesis by (simp add: undo1_def)
    qed
    then show ?thesis
      using r(1) by (simp add: undo_regs_def undo1_def[of _ "(next_reg d, r)"] new_ok_def cong: map_cong)
  qed
  moreover have "undo_tds (rb @ [next_reg d]) (added r d) = undo_tds rb d"
  proof (rule nth_equalityI)
    fix i
    assume "i < length (undo_tds (rb @ [next_reg d]) (added r d))"
    then have i: "i < length (tgt_devs d)" by (simp add: undo_tds_def)
    have ne: "registrant (tgt_devs d ! i) \<noteq> Some (next_reg d)"
      using links_okE[OF L i] fresh by (metis option.distinct(1))
    have new: "is_new (rb @ [next_reg d]) (added r d) x = (is_new rb d x \<or> x = Some (next_reg d))" for x
      using r(1) a by (auto simp: is_new_def at new_ok_def)
    show "undo_tds (rb @ [next_reg d]) (added r d) ! i = undo_tds rb d ! i"
    proof (cases "reg_tgt_dev r = Some i")
      case True
      then have "registrant (tgt_devs d ! i) = None" using r(1) by (simp add: new_ok_def)
      moreover have "\<not> is_new rb d None" by (simp add: is_new_def)
      ultimately show ?thesis
        using i True by (cases "tgt_devs d ! i") (simp add: undo_tds_def new linked_def set_registrant_def)
    next
      case False
      then have "tgt_devs (linked (reg_tgt_dev r) (next_reg d) d) ! i = tgt_devs d ! i"
        using i by (cases "reg_tgt_dev r") (auto simp: linked_def set_registrant_def)
      then show ?thesis using i ne by (simp add: undo_tds_def new)
    qed
  qed (simp add: undo_tds_def)
  moreover have "pr_core (added r d)" by (rule core_added[OF c r(1)])
  ultimately show ?thesis
    using st a r at by (auto simp: reg_state_def reservation_def new_ok_def split: if_splits)
qed

section \<open>The registration functions\<close>

lemma register_tid_ok:
  assumes st: "reg_state K d0 rb d" and t: "s \<Longrightarrow> tid_ok tid" and K: "K \<noteq> 0"
  shows "returns s (register_tid K rel tid d rb) (\<lambda>(res, d', rb'). reg_state K d0 rb' d')"
proof -
  have c: "pr_core d" using st by (simp add: reg_state_def)
  have add: "returns s (scst_pr_add_registrant d tid rel K) (\<lambda>(x, d'). case x of
      None \<Rightarrow> reg_state K d0 rb d' | Some a \<Rightarrow> reg_state K d0 (rb @ [a]) d')"
  proof (rule returns_mono[OF add_registrant_ok[OF c t K]])
    fix x
    assume "add_result d tid rel K x"
    then show "case x of (y, d') \<Rightarrow> case y of
        None \<Rightarrow> reg_state K d0 rb d' | Some a \<Rightarrow> reg_state K d0 (rb @ [a]) d'"
      using st reg_state_added[of K d0 rb "d\<lparr>env_mem := m\<rparr>" for m]
      by (auto simp: add_result_def reg_state_env)
  qed
  show ?thesis
    unfolding register_tid_def returns_bind
  proof (rule returns_mono[OF find_reg_ok[OF c t]], assumption)
    fix x
    assume x: "x = reg_for d tid rel"
    show "returns s (case x of
        None \<Rightarrow> do {
          (r, d) \<leftarrow> scst_pr_add_registrant d tid rel K;
          (case r of None \<Rightarrow> Some (- ENOMEM, d, rb) | Some a \<Rightarrow> Some (0, d, rb @ [a])) }
      | Some a \<Rightarrow> do {
          reg \<leftarrow> reg_at d a;
          (if reg_key reg = K then Some (0, d, rb)
           else Some (0, upd_reg a (\<lambda>r. r\<lparr>rollback_key := reg_key r, reg_key := K\<rparr>) d, rb @ [a])) })
      (\<lambda>(res, d', rb'). reg_state K d0 rb' d')"
    proof (cases x)
      case None
      then show ?thesis
        by (auto simp: returns_bind intro!: returns_mono[OF add] split: option.splits)
    next
      case (Some a)
      then obtain r where "reg_at d a = Some r" using reg_for_Some[OF c] x by metis
      then show ?thesis using Some st reg_state_rekey[OF st _ _ K] by simp
    qed
  qed
qed

lemma sess_tid_ok:
  assumes "pr_sess_ok d" "t \<in> set (tgt_devs d)" "sess_transport_id t = Some tid"
  shows "tid_ok tid"
  using assms by (auto simp: pr_sess_ok_def list_all_iff)

lemma register_port_ok:
  assumes "reg_state K d0 rb d" "s \<Longrightarrow> tid_ok tid" "K \<noteq> 0"
    "\<forall>t \<in> set ts. \<forall>x. sess_transport_id t = Some x \<longrightarrow> tid_ok x"
  shows "returns s (register_port K rel tid ts d rb) (\<lambda>(res, d', rb'). reg_state K d0 rb' d')"
  using assms(1,4)
proof (induction ts arbitrary: d rb)
  case (Cons t ts)
  show ?case
  proof (cases "sess_transport_id t")
    case None
    then show ?thesis using Cons by simp
  next
    case (Some x)
    then have x: "tid_ok x" using Cons.prems(2) by simp
    have eq: "returns s (tid_equal (Some x) (Some tid)) (\<lambda>_. True)"
      using x assms(2) by (auto intro!: returns_mono[OF tid_equal_ok])
    have step: "returns s (register_tid K rel x d rb) (\<lambda>(res, d', rb').
        returns s (if res \<noteq> 0 then Some (res, d', rb') else register_port K rel tid ts d' rb')
          (\<lambda>(res, d', rb'). reg_state K d0 rb' d'))"
      using Cons.IH Cons.prems(2)
      by (intro returns_mono[OF register_tid_ok[OF Cons.prems(1) _ assms(3)]]) (auto simp: x)
    show ?thesis
      using step Cons
      by (auto simp: Some returns_bind returns_if case_prod_unfold intro!: returns_mono[OF eq])
  qed
qed simp

text \<open>In a parameter list the walk over the identifiers can read the header of every one.\<close>

function parm_tids_ok :: "nat \<Rightarrow> nat \<Rightarrow> byte list \<Rightarrow> bool" where
  "parm_tids_ok ext_size offset buffer =
     (offset < ext_size \<longrightarrow>
       (case scst_tid_size (drop (28 + offset) buffer) of
          None \<Rightarrow> False
        | Some n \<Rightarrow> offset + n \<le> ext_size \<longrightarrow> parm_tids_ok ext_size (offset + n) buffer))"
  by pat_completeness auto
termination
  by (relation "measure (\<lambda>(e, n, b). e - n)") (auto dest: tid_size_min)

declare parm_tids_ok.simps [simp del]

lemma parm_tids_ok_cong:
  "drop (28 + off) a = drop (28 + off) b \<Longrightarrow> parm_tids_ok ext off a = parm_tids_ok ext off b"
proof (induction ext off a rule: parm_tids_ok.induct)
  case (1 ext off a)
  have "parm_tids_ok ext (off + n) a = parm_tids_ok ext (off + n) b"
    if "off < ext" "scst_tid_size (drop (28 + off) a) = Some n" "off + n \<le> ext" for n
    using "1.IH"[OF that] arg_cong[OF "1.prems", of "drop n"] by (simp add: add_ac)
  then show ?case
    unfolding parm_tids_ok.simps[of ext off a] parm_tids_ok.simps[of ext off b] "1.prems"
    by (auto simp: "1.prems" split: option.splits)
qed

lemma be_val_2: "length xs = 2 \<Longrightarrow> be_val xs = unat (xs ! 0) * 256 + unat (xs ! 1)"
  by (cases xs; cases "tl xs") auto

lemma tid_size_cong:
  assumes "rd a 0 = rd b 0" "rd_range a 2 2 = rd_range b 2 2"
  shows "scst_tid_size a = scst_tid_size b"
  unfolding scst_tid_size_def get_unaligned_be16_def assms ..

lemma tid_size_header:
  assumes "take 4 a = take 4 b"
  shows "scst_tid_size a = scst_tid_size b"
proof -
  have l: "length a < 4 \<and> a = b \<or> 4 \<le> length a \<and> 4 \<le> length b"
    using assms arg_cong[OF assms, of length] by (auto simp: min_def split: if_splits)
  have n: "a ! i = b ! i" if "i < 4" for i
    using arg_cong[OF assms, of "\<lambda>x. x ! i"] that by simp
  have "take 2 (drop 2 a) = take 2 (drop 2 b)"
    using arg_cong[OF assms, of "drop 2"] by (simp add: take_drop)
  then show ?thesis
    using l n[of 0] by (intro tid_size_cong) (auto simp: rd_def rd_range_def)
qed

lemma tid_size_4:
  assumes "scst_tid_size tid = Some 4" "4 \<le> length tid"
  shows "tid ! 3 = 0"
proof -
  have "get_unaligned_be16 tid 2 = Some (of_nat (be_val (take 2 (drop 2 tid))))"
    using assms(2) by (simp add: get_unaligned_be16_def rd_range_def)
  moreover have "be_val (take 2 (drop 2 tid)) = unat (tid ! 2) * 256 + unat (tid ! 3)"
    using assms(2) by (subst be_val_2) auto
  moreover have "unat (tid ! 2) * 256 + unat (tid ! 3) < 65536"
    using unat_byte_less[of "tid ! 2"] unat_byte_less[of "tid ! 3"] by linarith
  moreover have "\<exists>w. get_unaligned_be16 tid 2 = Some w \<and> unat w = 0"
    using assms(1) by (auto simp: scst_tid_size_def bind_eq_Some_conv TID_COMMON_SIZE_def split: if_splits)
  ultimately have "unat (of_nat (unat (tid ! 2) * 256 + unat (tid ! 3)) :: 16 word) = 0" by simp
  then have "unat (tid ! 2) * 256 + unat (tid ! 3) = 0"
    using \<open>_ < 65536\<close> unfolding unat_of_nat by simp
  then show ?thesis by (simp add: unat_eq_zero)
qed

lemma tid_secure_ok:
  assumes n: "scst_tid_size tid = Some n" and s: "s \<Longrightarrow> n \<le> length tid"
  shows "returns s (tid_secure tid) (\<lambda>tid'. length tid' = length tid \<and> scst_tid_size tid' = Some n \<and>
     drop n tid' = drop n tid)"
proof -
  have 4: "4 \<le> n" by (rule tid_size_min[OF n])
  have *: "scst_tid_size (overwrite (n - 1) [0] tid) = Some n" if "n \<le> length tid"
  proof (cases "n = 4")
    case True
    then have "overwrite (n - 1) [0] tid = tid"
      using tid_size_4[of tid] n that
      by (intro nth_equalityI) (auto simp: mem_simps le_less_Suc_eq[of 3, simplified])
    then show ?thesis using n by simp
  next
    case False
    then have "take 4 (overwrite (n - 1) [0] tid) = take 4 tid"
      using 4 that by (intro take_overwrite) auto
    then show ?thesis using tid_size_header n by metis
  qed
  have "wr_range (n - 1) [0] tid = (if n \<le> length tid then Some (overwrite (n - 1) [0] tid) else None)"
    using 4 by (auto simp: wr_range_def)
  moreover obtain b where "rd tid 0 = Some b" using n by (auto simp: scst_tid_size_def bind_eq_Some_conv)
  ultimately show ?thesis
    using 4 n s * by (auto simp: tid_secure_def drop_overwrite)
qed

text \<open>A list of complete identifiers.\<close>

inductive tid_list :: "nat \<Rightarrow> byte list \<Rightarrow> nat \<Rightarrow> bool" for ext buffer where
  tid_list_end: "ext \<le> off \<Longrightarrow> tid_list ext buffer off"
| tid_list_step: "off < ext \<Longrightarrow> scst_tid_size (drop (28 + off) buffer) = Some n \<Longrightarrow> off + n \<le> ext \<Longrightarrow>
    tid_list ext buffer (off + n) \<Longrightarrow> tid_list ext buffer off"

inductive_cases tid_listE: "tid_list ext buffer off"

lemma tid_after_secure:
  assumes t: "take (28 + (off + n)) b' = take (28 + (off + n)) b" and n: "4 \<le> n"
  shows "take (28 + off) b' = take (28 + off) b"
    "scst_tid_size (drop (28 + off) b') = scst_tid_size (drop (28 + off) b)"
proof -
  show "take (28 + off) b' = take (28 + off) b"
    using arg_cong[OF t, of "take (28 + off)"] by (simp add: min_absorb1)
  have "take 4 (drop (28 + off) b') = take 4 (drop (28 + off) b)"
    using arg_cong[OF t, of "\<lambda>z. take 4 (drop (28 + off) z)"] n by (simp add: drop_take min_absorb1)
  then show "scst_tid_size (drop (28 + off) b') = scst_tid_size (drop (28 + off) b)"
    by (rule tid_size_header)
qed

lemma secure_tids_ok:
  assumes "s \<Longrightarrow> parm_tids_ok ext off buffer \<and> 28 + ext \<le> length buffer"
  shows "returns s (secure_tids ext off buffer) (\<lambda>(ok, b'). length b' = length buffer \<and>
     take (28 + off) b' = take (28 + off) buffer \<and> (ok \<longrightarrow> tid_list ext b' off))"
  using assms
proof (induction ext off buffer rule: secure_tids.induct)
  case (1 ext off buffer)
  let ?P = "\<lambda>(ok, b'). length b' = length buffer \<and> take (28 + off) b' = take (28 + off) buffer \<and>
     (ok \<longrightarrow> tid_list ext b' off)"
  show ?case
  proof (cases "off < ext")
    case False
    then show ?thesis by (simp add: secure_tids.simps[of ext off] tid_list_end)
  next
    case True
    show ?thesis
    proof (cases "scst_tid_size (drop (28 + off) buffer)")
      case None
      then have "\<not> s" using "1.prems" True parm_tids_ok.simps[of ext off buffer] by auto
      then show ?thesis using True None by (simp add: secure_tids.simps[of ext off])
    next
      case (Some n)
      have 4: "4 \<le> n" by (rule tid_size_min[OF Some])
      have rec: "returns s (secure_tids ext (off + n) (take (28 + off) buffer @ tid)) ?P"
        if "off + n \<le> ext" and sec: "tid_secure (drop (28 + off) buffer) = Some tid" and l: "length tid = length (drop (28 + off) buffer)"
          and sz: "scst_tid_size tid = Some n" and d: "drop n tid = drop n (drop (28 + off) buffer)" for tid
      proof -
        let ?b = "take (28 + off) buffer @ tid"
        have "tid \<noteq> []" using sz by (auto simp: scst_tid_size_def rd_def)
        then have k: "28 + off \<le> length buffer" using l by (cases tid) auto
        then have b: "take (28 + off) ?b = take (28 + off) buffer" "drop (28 + off) ?b = tid"
          "length ?b = length buffer" using l by auto
        have "drop (28 + (off + n)) ?b = drop (28 + (off + n)) buffer"
          using d k by (simp add: add_ac)
        then have pre: "s \<Longrightarrow> parm_tids_ok ext (off + n) ?b \<and> 28 + ext \<le> length ?b"
          using "1.prems" True Some that(1) b(3) parm_tids_ok.simps[of ext off buffer]
            parm_tids_ok_cong[of "off + n" ?b buffer ext] by simp
        show ?thesis
        proof (rule returns_mono[OF "1.IH"[OF True Some _ _ pre]])
          fix x
          assume x: "case x of (ok, b') \<Rightarrow> length b' = length ?b \<and>
            take (28 + (off + n)) b' = take (28 + (off + n)) ?b \<and> (ok \<longrightarrow> tid_list ext b' (off + n))"
          obtain ok b' where x': "x = (ok, b')" by (cases x)
          have t: "take (28 + (off + n)) b' = take (28 + (off + n)) ?b" using x x' by simp
          note tid_after_secure[OF t 4, unfolded b(1,2) sz]
          then show "?P x"
            using x x' b(3) tid_list_step[OF True _ that(1)] by auto
        qed (use that(1) sec in auto)
      qed
      have "returns s (tid_secure (drop (28 + off) buffer))
          (\<lambda>tid. returns s (secure_tids ext (off + n) (take (28 + off) buffer @ tid)) ?P)" if "off + n \<le> ext"
      proof (rule returns_mono[OF tid_secure_ok[OF Some]])
        show "s \<Longrightarrow> n \<le> length (drop (28 + off) buffer)" using "1.prems" that by fastforce
      next
        fix tid
        assume "tid_secure (drop (28 + off) buffer) = Some tid" "length tid = length (drop (28 + off) buffer) \<and> scst_tid_size tid = Some n \<and>
          drop n tid = drop n (drop (28 + off) buffer)"
        then show "returns s (secure_tids ext (off + n) (take (28 + off) buffer @ tid)) ?P"
          using rec[OF that] by blast
      qed
      then have "returns s (if off + n > ext then Some (False, buffer)
          else do { tid \<leftarrow> tid_secure (drop (28 + off) buffer);
            secure_tids ext (off + n) (take (28 + off) buffer @ tid) }) ?P"
        by (simp add: returns_bind)
      then show ?thesis
        using True Some by (subst secure_tids.simps) simp
    qed
  qed
qed

lemma tid_list_tid_ok:
  assumes "tid_list ext buffer off" "28 + ext \<le> length buffer" "off < ext"
  shows "tid_ok (drop (28 + off) buffer)"
    "\<exists>n. scst_tid_size (drop (28 + off) buffer) = Some n \<and> tid_list ext buffer (off + n)"
  using assms(2,3) by (cases rule: tid_listE[OF assms(1)]; simp add: tid_ok_def)+

lemma register_tids_ok:
  assumes "reg_state K d0 rb d" "s \<Longrightarrow> tid_list ext buffer off \<and> 28 + ext \<le> length buffer" "K \<noteq> 0"
  shows "returns s (register_tids K rel ext off buffer d rb) (\<lambda>(res, d', rb'). reg_state K d0 rb' d')"
  using assms(1,2)
proof (induction "ext - off" arbitrary: off d rb rule: less_induct)
  case (less off d rb)
  let ?tid = "drop (28 + off) buffer"
  let ?P = "\<lambda>(res, d', rb'). reg_state K d0 rb' d'"
  show ?case
  proof (cases "off < ext")
    case False
    then show ?thesis using less.prems(1) by (simp add: register_tids.simps[of K rel ext off])
  next
    case off: True
    have t: "s \<Longrightarrow> tid_ok ?tid" and n: "s \<Longrightarrow> \<exists>n. scst_tid_size ?tid = Some n \<and> tid_list ext buffer (off + n)"
      using tid_list_tid_ok[OF _ _ off] less.prems(2) by auto
    have "\<forall>t \<in> set (tgt_devs d). \<forall>x. sess_transport_id t = Some x \<longrightarrow> tid_ok x"
      using less.prems(1) sess_tid_ok[of d] by (auto simp: reg_state_def pr_core_def)
    then have body: "returns s (if c then register_port K rel ?tid (tgt_devs d) d rb
        else register_tid K rel ?tid d rb) ?P" for c
      using register_port_ok[OF less.prems(1) t assms(3)] register_tid_ok[OF less.prems(1) t assms(3)] by simp
    have rest: "returns s (scst_tid_size ?tid) (\<lambda>n. returns s (register_tids K rel ext (off + n) buffer d' rb') ?P)"
      if "reg_state K d0 rb' d'" for d' rb'
    proof (cases "scst_tid_size ?tid")
      case (Some k)
      then have "ext - (off + k) < ext - off" using off tid_size_min[OF Some] by simp
      from less.hyps[OF this that] show ?thesis using Some n less.prems(2) by auto
    qed (use n in auto)
    have step: "returns s (case x of (res, d, rb) \<Rightarrow>
        if res \<noteq> 0 then Some (res, d, rb)
        else do { size \<leftarrow> scst_tid_size ?tid; register_tids K rel ext (off + size) buffer d rb }) ?P"
      if "?P x" for x
      using that rest by (cases x) (simp add: returns_bind)
    have rd: "returns s (rd ?tid 0) (\<lambda>_. True)"
      using t by (cases "rd ?tid 0") (auto simp: tid_ok_def scst_tid_size_def)
    show ?thesis
      unfolding register_tids.simps[of K rel ext off] if_P[OF off] Let_def returns_bind
      by (rule returns_mono[OF rd], rule returns_mono[OF body], rule step)
  qed
qed

section \<open>Commands\<close>

text \<open>What the error reports of the service actions do to the command.\<close>

definition failed :: "scst_cmd \<Rightarrow> scst_cmd \<Rightarrow> bool" where
  "failed cmd cmd' = (cmd_frame cmd cmd' \<and> cmd_status cmd' \<noteq> 0)"

lemma failed_reports:
  assumes "cmd_sense_ok cmd"
  shows "returns s (scst_set_invalid_field_in_cdb cmd f b) (\<lambda>(_, cmd'). failed cmd cmd')"
    and "returns s (scst_set_invalid_field_in_parm_list cmd f b) (\<lambda>(_, cmd'). failed cmd cmd')"
    and "asc \<noteq> 0x25 \<Longrightarrow> returns s (scst_set_cmd_error cmd key asc ascq) (\<lambda>(_, cmd'). failed cmd cmd')"
  using error_reports(1)[OF assms, of f b] error_reports(2)[OF assms, of f b]
    error_reports(3)[OF assms, of asc key ascq] by (auto simp: failed_def)

lemma failed_status:
  assumes "st \<noteq> 0"
  shows "failed cmd (snd (scst_set_cmd_error_status cmd st))"
proof -
  obtain r c where 1: "scst_set_cmd_error_status cmd st = (r, c)" by fastforce
  show ?thesis
    by (rule scst_set_cmd_error_status_cases[OF 1]) (use assms 1 in \<open>auto simp: failed_def cmd_frame_def\<close>)
qed

lemma failed_busy: "failed cmd (scst_set_busy n r cmd)"
  by (simp add: scst_set_busy_def failed_status SAM_STAT_BUSY_def SAM_STAT_TASK_SET_FULL_def)

lemma failed_conflict: "failed cmd (snd (scst_set_cmd_error_status cmd SAM_STAT_RESERVATION_CONFLICT))"
  by (simp add: failed_status SAM_STAT_RESERVATION_CONFLICT_def)

text \<open>The parameter list of a REGISTER with SPEC_I_PT.  The code does not check any of it.\<close>

definition ext_size :: "byte list \<Rightarrow> nat" where
  "ext_size buffer = be_val (take 4 (drop 24 buffer))"

definition spec_ok :: "byte list \<Rightarrow> bool" where
  "spec_ok buffer = (28 \<le> length buffer \<and> length buffer < 2 ^ 31 \<and> ext_size buffer + 28 < 2 ^ 32 \<and>
     (ext_size buffer + 28 \<le> length buffer \<longrightarrow> parm_tids_ok (ext_size buffer) 0 buffer))"

lemma tid_list_parm_ok: "tid_list ext buffer off \<Longrightarrow> parm_tids_ok ext off buffer"
proof (induction rule: tid_list.induct)
  case (tid_list_end off)
  then show ?case by (simp add: parm_tids_ok.simps[of ext off])
next
  case (tid_list_step off n)
  then show ?case by (simp add: parm_tids_ok.simps[of ext off])
qed

lemma ext_size_cong:
  assumes "take 28 b' = take 28 b"
  shows "ext_size b' = ext_size b"
  using arg_cong[OF assms, of "drop 24"] by (simp add: ext_size_def drop_take)

lemma be64_cong:
  assumes "take 28 b' = take 28 b" "length b' = length b"
  shows "get_unaligned_be64 b' 8 = get_unaligned_be64 b 8"
  using arg_cong[OF assms(1), of "\<lambda>x. take 8 (drop 8 x)"] assms(2)
  by (simp add: get_unaligned_be64_def rd_range_def drop_take)

definition reg_post :: "64 word \<Rightarrow> pr_dev \<Rightarrow> scst_cmd \<Rightarrow> byte list \<Rightarrow>
    int \<times> pr_dev \<times> scst_cmd \<times> byte list \<times> nat list \<Rightarrow> bool" where
  "reg_post K d0 cmd buffer = (\<lambda>(res, d', cmd', b', rb'). reg_state K d0 rb' d' \<and>
     (if res = 0 then cmd' = cmd else failed cmd cmd') \<and> length b' = length buffer \<and>
     take 28 b' = take 28 buffer \<and> (res = 0 \<longrightarrow> spec_ok buffer \<longrightarrow> spec_ok b'))"

lemma set_busy_ok: "td < length (tgt_devs d) \<Longrightarrow> returns s (set_busy d td cmd) (failed cmd)"
  by (simp add: set_busy_def rd_def failed_busy)

lemma static_length: "pr_static d' = pr_static d \<Longrightarrow> length (tgt_devs d') = length (tgt_devs d)"
  by (auto simp: pr_static_def dest: map_eq_imp_length_eq)

lemma static_sess:
  assumes "pr_static d' = pr_static d" "i < length (tgt_devs d)"
  shows "sess_transport_id (tgt_devs d' ! i) = sess_transport_id (tgt_devs d ! i)"
    "sess_rel_tgt_id (tgt_devs d' ! i) = sess_rel_tgt_id (tgt_devs d ! i)"
  using arg_cong[OF assms(1), of "\<lambda>x. fst x ! i"] arg_cong[OF assms(1), of "\<lambda>x. fst (snd x) ! i"]
    assms(2) static_length[OF assms(1)] by (simp_all add: pr_static_def)

lemma unat_ext: "get_unaligned_be32 b 24 = Some e \<Longrightarrow> unat e = ext_size b"
proof -
  have "ext_size b < 256 ^ length (take 4 (drop 24 b))" unfolding ext_size_def by (rule be_val_less)
  also have "\<dots> \<le> 256 ^ 4" by (intro power_increasing) auto
  finally have "ext_size b < 2 ^ 32" by simp
  then show "get_unaligned_be32 b 24 = Some e \<Longrightarrow> unat e = ext_size b"
    by (auto simp: get_unaligned_be32_def rd_range_def ext_size_def unat_of_nat split: if_splits)
qed

lemma ext_check:
  assumes "get_unaligned_be32 b 24 = Some e" "spec_ok b"
  shows "e + 28 > of_nat (length b) \<longleftrightarrow> ext_size b + 28 > length b"
proof -
  have "unat (e + 28) = ext_size b + 28"
    using assms unat_ext[OF assms(1)] by (simp add: unat_add_lem[THEN iffD1] spec_ok_def)
  moreover have "unat (of_nat (length b) :: 32 word) = length b"
    using assms(2) by (simp add: unat_of_nat spec_ok_def)
  ultimately show ?thesis by (simp add: word_less_nat_alt)
qed

lemma register_listed_ok:
  assumes st: "reg_state K d0 rb d" and K: "K \<noteq> 0" and td: "td < length (tgt_devs d0)"
    and b: "length b = length buffer" "take 28 b = take 28 buffer" "tid_list (ext_size buffer) b 0"
    and s: "s \<Longrightarrow> 28 + ext_size buffer \<le> length buffer"
  shows "returns s (register_listed d cmd td K rel (ext_size buffer) b rb) (reg_post K d0 cmd buffer)"
proof -
  have "spec_ok buffer \<longrightarrow> spec_ok b"
    using b ext_size_cong[OF b(2)] tid_list_parm_ok[OF b(3)] by (auto simp: spec_ok_def)
  moreover have "td < length (tgt_devs d')" if "reg_state K d0 rb' d'" for rb' d'
    using td that static_length[of d' d0] by (simp add: reg_state_def)
  ultimately show ?thesis
    unfolding register_listed_def returns_bind using b
    by (intro returns_mono[OF register_tids_ok[OF st _ K]])
      (use s in \<open>auto simp: reg_post_def returns_bind intro!: returns_mono[OF set_busy_ok]\<close>)
qed

lemma spec_i_pt_ok:
  assumes st: "reg_state K d0 rb d" and K: "get_unaligned_be64 buffer 8 = Some K" "K \<noteq> 0"
    and cmd: "cmd_sense_ok cmd" and td: "td < length (tgt_devs d0)" and s: "s \<Longrightarrow> spec_ok buffer"
  shows "returns s (scst_pr_register_with_spec_i_pt d cmd td rel buffer rb) (reg_post K d0 cmd buffer)"
proof (cases "get_unaligned_be32 buffer 24")
  case None
  then have "\<not> s" using s by (auto simp: get_unaligned_be32_def rd_range_def spec_ok_def)
  then show ?thesis using K(1) None by (simp add: scst_pr_register_with_spec_i_pt_def)
next
  case (Some e)
  note ext = unat_ext[OF Some]
  let ?post = "reg_post K d0 cmd buffer"
  have pre: "s \<Longrightarrow> parm_tids_ok (ext_size buffer) 0 buffer \<and> 28 + ext_size buffer \<le> length buffer"
    if "\<not> of_nat (length buffer) < e + 28"
    using that s ext_check[OF Some] by (auto simp: spec_ok_def not_less)
  have bad: "returns s (do { (_, cmd) \<leftarrow> scst_set_invalid_field_in_parm_list cmd 24 0;
       Some (- EINVAL, d, cmd, b, rb) }) ?post" if "length b = length buffer" "take 28 b = take 28 buffer" for b
    unfolding returns_bind
    by (rule returns_mono[OF failed_reports(2)[OF cmd]]) (use st that in \<open>auto simp: reg_post_def\<close>)
  have list: "returns s (secure_tids (ext_size buffer) 0 buffer) (\<lambda>(ok, b). returns s
      (if \<not> ok then do { (_, cmd) \<leftarrow> scst_set_invalid_field_in_parm_list cmd 24 0; Some (- EINVAL, d, cmd, b, rb) }
       else register_listed d cmd td K rel (ext_size buffer) b rb) ?post)"
    if le: "\<not> of_nat (length buffer) < e + 28"
    using bad register_listed_ok[OF st K(2) td] pre[OF le]
    by (intro returns_mono[OF secure_tids_ok[OF pre[OF le]]]) auto
  have too_long: "returns s (do { (_, cmd) \<leftarrow> scst_set_cmd_error cmd ILLEGAL_REQUEST 0x1A 0;
        Some (- EINVAL, d, cmd, buffer, rb) }) ?post"
    unfolding returns_bind
    by (rule returns_mono[OF failed_reports(3)[OF cmd]]) (use st in \<open>auto simp: reg_post_def\<close>)
  show ?thesis
    using list too_long
    by (simp add: scst_pr_register_with_spec_i_pt_def K(1) Some ext returns_if returns_bind case_prod_unfold)
qed

lemma reg_post_refl: "reg_state K d0 rb d \<Longrightarrow> reg_post K d0 cmd buffer (0, d, cmd, buffer, rb)"
  by (simp add: reg_post_def)

lemma reg_post_trans:
  assumes "reg_post K d0 cmd buffer (0, d, cmd', b, rb)" "reg_post K d0 cmd b x"
  shows "reg_post K d0 cmd buffer x"
  using assms by (auto simp: reg_post_def split: if_splits)

lemma reg_post_lift:
  assumes "reg_post K d0 cmd buffer (0, d, cmd', b, rb)" "returns s m (reg_post K d0 cmd b)"
  shows "returns s m (reg_post K d0 cmd buffer)"
  by (rule returns_mono[OF assms(2)]) (rule reg_post_trans[OF assms(1)])

lemma find_reg_no_tid: "scst_pr_find_reg d None rel = Some None"
proof -
  have "find_reg rs None rel = Some None" for rs
    by (induction rs) auto
  then show ?thesis by (simp add: scst_pr_find_reg_def)
qed

lemma register_self_ok:
  assumes st: "reg_state K d0 rb d" and K: "get_unaligned_be64 buffer 8 = Some K" "K \<noteq> 0"
    and td: "td < length (tgt_devs d0)" and t: "s \<Longrightarrow> sess_transport_id (tgt_devs d0 ! td) \<noteq> None"
  shows "returns s (register_self d cmd td rel buffer rb) (reg_post K d0 cmd buffer)"
proof -
  have c: "pr_core d" and stat: "pr_static d = pr_static d0" using st by (auto simp: reg_state_def)
  have td': "td < length (tgt_devs d)" using td static_length[OF stat] by simp
  show ?thesis
  proof (cases "sess_transport_id (tgt_devs d ! td)")
    case None
    then have "\<not> s" using t static_sess(1)[OF stat td] by auto
    then show ?thesis using td' K(1) None by (simp add: register_self_def rd_def find_reg_no_tid)
  next
    case (Some tid)
    have tid: "tid_ok tid" using c Some td' sess_tid_ok[of d "tgt_devs d ! td" tid] by (simp add: pr_core_def)
    have add: "returns s (scst_pr_add_registrant d tid rel K) (\<lambda>(r, d). returns s (case r of
              None \<Rightarrow> do {
                cmd \<leftarrow> set_busy d td cmd;
                Some (- ENOMEM, d, cmd, buffer, rb) }
            | Some a \<Rightarrow> Some (0, d, cmd, buffer, rb @ [a])) (reg_post K d0 cmd buffer))"
    proof (rule returns_mono[OF add_registrant_ok[OF c tid K(2)]])
      fix x
      assume "add_result d tid rel K x"
      then show "case x of (r, d) \<Rightarrow> returns s (case r of
              None \<Rightarrow> do {
                cmd \<leftarrow> set_busy d td cmd;
                Some (- ENOMEM, d, cmd, buffer, rb) }
            | Some a \<Rightarrow> Some (0, d, cmd, buffer, rb @ [a])) (reg_post K d0 cmd buffer)"
        using st td' reg_state_added[of K d0 rb "d\<lparr>env_mem := m\<rparr>" for m]
        by (auto simp: add_result_def reg_state_env returns_bind reg_post_def intro!: returns_mono[OF set_busy_ok])
    qed
    have "returns s (scst_pr_find_reg d (Some tid) rel) (\<lambda>_. True)"
      by (rule returns_mono[OF find_reg_ok[OF c tid]]) simp
    then show ?thesis
      using add reg_post_refl[OF st] td' K(1) Some
      by (auto simp: register_self_def rd_def returns_bind case_prod_unfold elim!: returns_mono)
  qed
qed

lemma on_tgt_id_ok:
  assumes st: "reg_state K d0 rb d" and K: "get_unaligned_be64 buffer 8 = Some K" "K \<noteq> 0"
    and cmd: "cmd_sense_ok cmd" and td: "td < length (tgt_devs d0)"
    and t: "s \<Longrightarrow> sess_transport_id (tgt_devs d0 ! td) \<noteq> None" and s: "s \<Longrightarrow> spec \<Longrightarrow> spec_ok buffer"
  shows "returns s (scst_pr_register_on_tgt_id d cmd td rel buffer spec rb) (reg_post K d0 cmd buffer)"
proof -
  have 1: "returns s (if spec then scst_pr_register_with_spec_i_pt d cmd td rel buffer rb
      else Some (0, d, cmd, buffer, rb)) (reg_post K d0 cmd buffer)"
    using spec_i_pt_ok[OF st K cmd td] s reg_post_refl[OF st] by simp
  show ?thesis
    unfolding scst_pr_register_on_tgt_id_def returns_bind
  proof (rule returns_mono[OF 1], clarify)
    fix res d1 cmd1 b1 rb1
    assume p: "reg_post K d0 cmd buffer (res, d1, cmd1, b1, rb1)"
    show "returns s (if res \<noteq> 0 then Some (res, d1, cmd1, b1, rb1)
      else register_self d1 cmd1 td rel b1 rb1) (reg_post K d0 cmd buffer)"
    proof (cases "res = 0")
      case True
      then have p': "reg_state K d0 rb1 d1" "cmd1 = cmd" "get_unaligned_be64 b1 8 = Some K"
        using p be64_cong[of b1 buffer] K(1) by (auto simp: reg_post_def)
      have "\<not> res \<noteq> 0" using True by simp
      then show ?thesis
        using reg_post_lift[OF p[unfolded True] register_self_ok[OF p'(1,3) K(2) td t]]
        unfolding p'(2) by simp
    next
      case False
      then show ?thesis using p by simp
    qed
  qed
qed

lemma register_tgts_ok:
  assumes "reg_state K d0 rb d" "get_unaligned_be64 buffer 8 = Some K" "K \<noteq> 0"
    and "cmd_sense_ok cmd" "td < length (tgt_devs d0)"
    and "s \<Longrightarrow> sess_transport_id (tgt_devs d0 ! td) \<noteq> None" and "s \<Longrightarrow> spec \<Longrightarrow> spec_ok buffer"
  shows "returns s (register_tgts p ts d cmd td buffer spec rb) (reg_post K d0 cmd buffer)"
  using assms(1,2,7)
proof (induction ts arbitrary: d buffer rb)
  case (Cons t ts)
  have step: "returns s (if res \<noteq> 0 then Some (res, d1, cmd1, b1, rb1)
         else register_tgts p ts d1 cmd1 td b1 spec rb1) (reg_post K d0 cmd buffer)"
    if p: "reg_post K d0 cmd buffer (res, d1, cmd1, b1, rb1)" for res d1 cmd1 b1 rb1
  proof (cases "res = 0")
    case True
    then have p': "reg_state K d0 rb1 d1" "cmd1 = cmd" "get_unaligned_be64 b1 8 = Some K"
        "s \<Longrightarrow> spec \<Longrightarrow> spec_ok b1"
      using p be64_cong[of b1 buffer] Cons.prems by (auto simp: reg_post_def)
    show ?thesis
      using reg_post_lift[OF p[unfolded True] Cons.IH[OF p'(1,3,4)]] True unfolding p'(2) by simp
  qed (use p in simp)
  have "returns s (scst_pr_register_on_tgt_id d cmd td (tgt_rel_tgt_id t) buffer spec rb)
      (\<lambda>(res, d1, cmd1, b1, rb1). returns s (if res \<noteq> 0 then Some (res, d1, cmd1, b1, rb1)
         else register_tgts p ts d1 cmd1 td b1 spec rb1) (reg_post K d0 cmd buffer))"
    by (rule returns_mono[OF on_tgt_id_ok[OF Cons.prems(1,2) assms(3,4,5,6) Cons.prems(3)]])
      (assumption+, clarify, rule step)
  then show ?case
    using Cons.IH[OF Cons.prems] by (simp add: returns_bind case_prod_unfold)
qed (simp add: reg_post_refl)

section \<open>Undoing and keeping a registration\<close>

text \<open>The reservation is the same, but for the pointer to the holder, which has no meaning and may
  have been cleared when all registrants hold it.\<close>

definition same_reservation :: "pr_dev \<Rightarrow> pr_dev \<Rightarrow> bool" where
  "same_reservation d d' = (pr_is_set d' = pr_is_set d \<and> pr_scope d' = pr_scope d \<and> pr_type d' = pr_type d \<and>
     (pr_holder d' = pr_holder d \<or> all_reg (pr_type d) \<and> pr_holder d' = None))"

definition unchanged :: "pr_dev \<Rightarrow> pr_dev \<Rightarrow> bool" where
  "unchanged d d' = (registrants d' = registrants d \<and> tgt_devs d' = tgt_devs d \<and>
     same_reservation d d' \<and> pr_rest d' = pr_rest d \<and> pr_static d' = pr_static d)"

definition rb_state :: "pr_dev \<Rightarrow> nat list \<Rightarrow> pr_dev \<Rightarrow> bool" where
  "rb_state d0 rb d = (pr_core d \<and> pr_static d = pr_static d0 \<and> distinct rb \<and>
     (\<forall>a \<in> set rb. reg_at d a \<noteq> None) \<and>
     (\<forall>a r. reg_at d a = Some r \<longrightarrow> a \<notin> set rb \<longrightarrow> rollback_key r = 0) \<and>
     undo_regs rb d = registrants d0 \<and> undo_tds rb d = tgt_devs d0 \<and> same_reservation d0 d \<and>
     pr_rest d = pr_rest d0)"

lemma reg_state_rb: "reg_state K d0 rb d \<Longrightarrow> rb_state d0 rb d"
  by (auto simp: reg_state_def rb_state_def reservation_def same_reservation_def)

lemma rb_state_restore:
  assumes st: "rb_state d0 (a # as) d" and r: "reg_at d a = Some r" "rollback_key r \<noteq> 0"
  shows "rb_state d0 as (upd_reg a (\<lambda>r. r\<lparr>reg_key := rollback_key r, rollback_key := 0\<rparr>) d)"
    (is "rb_state d0 as (upd_reg a ?f d)")
proof -
  have c: "pr_core d" and R: "pr_regs_ok d" and a: "a \<notin> set as"
    using st by (auto simp: rb_state_def pr_core_def)
  have "pr_core (upd_reg a ?f d)" by (rule core_upd_reg[OF c]) (use r in auto)
  moreover have "undo_regs as (upd_reg a ?f d) = undo_regs (a # as) d"
  proof -
    have "undo1 as ((\<lambda>(b, r). (b, if b = a then ?f r else r)) p) = undo1 (a # as) p"
      if "p \<in> set (registrants d)" for p
    proof -
      obtain b q where p: "p = (b, q)" by (cases p)
      have "q = r" if "b = a" using \<open>p \<in> set (registrants d)\<close> that r(1) reg_at_iff[OF R, of a q] p by simp
      then show ?thesis using a r(2) by (auto simp: undo1_def p)
    qed
    then show ?thesis
      unfolding undo_regs_def upd_reg_def by (auto intro!: arg_cong[where f = concat] simp: comp_def)
  qed
  moreover have "is_new as (upd_reg a ?f d) = is_new (a # as) d"
    using a r by (auto simp: is_new_def fun_eq_iff split: if_splits)
  ultimately show ?thesis
    using st a r by (auto simp: rb_state_def undo_tds_def same_reservation_def split: if_splits)
qed

lemma tgt_devs_remove:
  assumes L: "pr_links_ok d" and r: "reg_at d a = Some r" and i: "i < length (tgt_devs d)"
    and d': "scst_pr_remove_registrant d a = Some d'"
  shows "tgt_devs d' ! i = (if registrant (tgt_devs d ! i) = Some a
     then (tgt_devs d ! i)\<lparr>registrant := None\<rparr> else tgt_devs d ! i)"
proof (cases "reg_tgt_dev r")
  case None
  then have "registrant (tgt_devs d ! i) \<noteq> Some a"
    using links_okE[OF L i, of a] r by fastforce
  then show ?thesis using None d' remove_registrant_eq[OF r L] by auto
next
  case (Some j)
  then have "registrant (tgt_devs d ! i) = Some a \<longleftrightarrow> i = j"
    using links_okE[OF L i, of a] links_okD[OF L r Some] r by fastforce
  then show ?thesis
    using Some i d' remove_registrant_eq[OF r L] by (auto simp: set_registrant_def)
qed

lemma length_tgt_devs_remove:
  assumes "pr_links_ok d" "reg_at d a = Some r" "scst_pr_remove_registrant d a = Some d'"
  shows "length (tgt_devs d') = length (tgt_devs d)"
  using remove_registrant_eq[OF assms(2,1)] assms(3) by (auto split: option.splits)

lemma undo_remove:
  assumes c: "pr_core d" and r: "reg_at d a = Some r" "rollback_key r = 0" and a: "a \<notin> set as"
    and d': "scst_pr_remove_registrant d a = Some d'" "registrants d' = filter (\<lambda>(b, r). b \<noteq> a) (registrants d)"
      "\<forall>b. reg_at d' b = (if b = a then None else reg_at d b)"
  shows "undo_regs as d' = undo_regs (a # as) d" "undo_tds as d' = undo_tds (a # as) d"
proof -
  have R: "pr_regs_ok d" and L: "pr_links_ok d" using c by (auto simp: pr_core_def)
  have "concat (map (undo1 as) (filter (\<lambda>(b, r). b \<noteq> a) xs)) = concat (map (undo1 (a # as)) xs)"
    if "\<forall>q. (a, q) \<in> set xs \<longrightarrow> q = r" for xs
    using that
  proof (induction xs)
    case (Cons p xs)
    obtain b q where p: "p = (b, q)" by (cases p)
    then have "undo1 (a # as) p = (if b = a then [] else undo1 as p)"
      using Cons.prems r(2) by (auto simp: undo1_def)
    then show ?case using Cons p by simp
  qed simp
  moreover have "\<forall>q. (a, q) \<in> set (registrants d) \<longrightarrow> q = r" using reg_at_iff[OF R, of a] r(1) by (metis option.inject)
  ultimately show "undo_regs as d' = undo_regs (a # as) d"
    unfolding undo_regs_def d'(2) by blast
  show "undo_tds as d' = undo_tds (a # as) d"
  proof (rule nth_equalityI)
    fix i
    assume "i < length (undo_tds as d')"
    then have i: "i < length (tgt_devs d)" "i < length (tgt_devs d')"
      using length_tgt_devs_remove[OF L r(1) d'(1)] by (auto simp: undo_tds_def)
    have "is_new (a # as) d x = (x = Some a \<or> is_new as d' x)" for x
      using d'(3) r a unfolding is_new_def by (cases x) auto
    moreover have "\<not> is_new as d' None" by (simp add: is_new_def)
    ultimately show "undo_tds as d' ! i = undo_tds (a # as) d ! i"
      using i tgt_devs_remove[OF L r(1) i(1) d'(1)] by (simp add: undo_tds_def)
  qed (use length_tgt_devs_remove[OF L r(1) d'(1)] in \<open>simp add: undo_tds_def\<close>)
qed

lemma reservation_remove:
  assumes L: "pr_links_ok d" and r: "reg_at d a = Some r" and d': "scst_pr_remove_registrant d a = Some d'"
    and "pr_is_set d \<Longrightarrow> \<not> all_reg (pr_type d) \<Longrightarrow> pr_holder d \<noteq> Some a"
    and "pr_is_set d \<Longrightarrow> registrants d' \<noteq> []"
  shows "same_reservation d d'" "pr_rest d' = pr_rest d"
proof -
  have *: "same_reservation d (without a d)"
  proof (cases "scst_pr_is_holder d (Some a)")
    case True
    then have "pr_is_set d" "all_reg (pr_type d)" using assms(4) by (auto simp: scst_pr_is_holder_def split: if_splits)
    moreover have "registrants (without a d) \<noteq> []"
      using assms(5)[OF \<open>pr_is_set d\<close>] d' remove_registrant_eq[OF r L] by (auto split: option.splits)
    ultimately show ?thesis
      using True by (auto simp: same_reservation_def without_def scst_pr_clear_holder_def Let_def)
  next
    case False
    then show ?thesis by (simp add: same_reservation_def without_def Let_def)
  qed
  show "same_reservation d d'" "pr_rest d' = pr_rest d"
    using * d' remove_registrant_eq[OF r L] by (auto simp: same_reservation_def split: option.splits)
qed

lemma same_reservation_trans: "same_reservation a b \<Longrightarrow> same_reservation b c \<Longrightarrow> same_reservation a c"
  by (auto simp: same_reservation_def)

lemma rb_state_remove:
  assumes inv: "pr_inv d0" and st: "rb_state d0 (a # as) d" and r: "reg_at d a = Some r" "rollback_key r = 0"
  shows "returns s (scst_pr_remove_registrant d a) (rb_state d0 as)"
proof -
  have c: "pr_core d" and L: "pr_links_ok d" and a: "a \<notin> set as" "distinct as"
    using st by (auto simp: rb_state_def pr_core_def)
  have new: "(a, q) \<notin> set (registrants d0)" for q
  proof
    have "registrants d0 = concat (map (undo1 (a # as)) (registrants d))"
      using st by (simp add: rb_state_def undo_regs_def)
    moreover assume "(a, q) \<in> set (registrants d0)"
    ultimately obtain p where "p \<in> set (registrants d)" "(a, q) \<in> set (undo1 (a # as) p)"
      by auto
    moreover from this have "fst p = a" by (auto simp: undo1_def split: if_splits)
    moreover from calculation have "snd p = r"
      using reg_at_iff[of d a "snd p"] c r(1) by (cases p) (auto simp: pr_core_def)
    ultimately show False using r(2) by (auto simp: undo1_def)
  qed
  have H0: "pr_holder_ok d0" and R0: "pr_regs_ok d0" using inv by (auto simp: pr_inv_def pr_core_def)
  have same: "same_reservation d0 d" using st by (simp add: rb_state_def)
  show ?thesis
  proof (rule returns_mono[OF remove_registrant_ok[OF c r(1)]], elim conjE)
    fix d'
    assume d': "scst_pr_remove_registrant d a = Some d'" "pr_core d'" "pr_static d' = pr_static d"
      "registrants d' = filter (\<lambda>(b, r). b \<noteq> a) (registrants d)"
      "\<forall>b. reg_at d' b = (if b = a then None else reg_at d b)"
    note u = undo_remove[OF c r a(1) d'(1,4,5)]
    have "pr_holder d \<noteq> Some a" if "pr_is_set d" "\<not> all_reg (pr_type d)"
    proof
      assume "pr_holder d = Some a"
      then have "reg_at d0 a \<noteq> None"
        using that same H0 by (auto simp: same_reservation_def pr_holder_ok_def split: option.splits)
      then show False using new reg_at_mem by blast
    qed
    moreover have "registrants d' \<noteq> []" if "pr_is_set d"
    proof
      assume "registrants d' = []"
      then have "undo_regs (a # as) d = []" using u(1) by (simp add: undo_regs_def[of as])
      then have "registrants d0 = []" using st by (simp add: rb_state_def)
      then show False using that same H0 by (simp add: same_reservation_def pr_holder_ok_def)
    qed
    ultimately have "same_reservation d0 d'" "pr_rest d' = pr_rest d"
      using reservation_remove[OF L r(1) d'(1)] same_reservation_trans[OF same] by auto
    then show "rb_state d0 as d'"
      using st d' u a by (auto simp: rb_state_def)
  qed
qed

lemma inv_restored:
  assumes "pr_inv d0" "rb_state d0 [] d"
  shows "pr_inv d \<and> unchanged d0 d"
  using assms by (auto simp: rb_state_def unchanged_def pr_inv_def)

lemma rollback_ok:
  assumes "pr_inv d0" "rb_state d0 rb d"
  shows "returns s (rollback rb d) (\<lambda>d'. pr_inv d' \<and> unchanged d0 d')"
  using assms(2)
proof (induction rb arbitrary: d)
  case (Cons a as)
  then obtain r where r: "reg_at d a = Some r" by (auto simp: rb_state_def)
  show ?case
  proof (cases "rollback_key r = 0")
    case True
    then show ?thesis
      using Cons.IH r returns_mono[OF rb_state_remove[OF assms(1) Cons.prems r True]]
      by (simp add: returns_bind)
  next
    case False
    then show ?thesis using Cons.IH[OF rb_state_restore[OF Cons.prems r False]] r by simp
  qed
qed (simp add: inv_restored[OF assms(1)])

text \<open>Two states with the same nexuses and reservation, whose registrants differ in the keys to
  roll back.\<close>

definition committed :: "pr_dev \<Rightarrow> pr_dev \<Rightarrow> bool" where
  "committed d d' = (map (\<lambda>(a, r). (a, r\<lparr>rollback_key := 0\<rparr>)) (registrants d') =
     map (\<lambda>(a, r). (a, r\<lparr>rollback_key := 0\<rparr>)) (registrants d) \<and> tgt_devs d' = tgt_devs d \<and>
     reservation d' = reservation d \<and> pr_rest d' = pr_rest d \<and> pr_static d' = pr_static d)"

lemma commit_ok:
  assumes "pr_core d" "\<forall>a \<in> set rb. reg_at d a \<noteq> None"
    "\<forall>a r. reg_at d a = Some r \<longrightarrow> a \<notin> set rb \<longrightarrow> rollback_key r = 0"
  shows "returns s (commit rb d) (\<lambda>d'. pr_inv d' \<and> committed d d')"
  using assms
proof (induction rb arbitrary: d)
  case Nil
  then have "\<forall>(a, r) \<in> set (registrants d). rollback_key r = 0"
    using reg_at_iff[of d] by (auto simp: pr_core_def)
  then show ?case using Nil(1) by (simp add: pr_inv_def list_all_iff committed_def)
next
  case (Cons a as)
  then obtain r where r: "reg_at d a = Some r" by auto
  let ?d = "upd_reg a (\<lambda>r. r\<lparr>rollback_key := 0\<rparr>) d"
  have "pr_core ?d"
    using Cons.prems(1) r by (intro core_upd_reg) (auto simp: pr_core_def dest: regs_okD(3))
  moreover have "committed d ?d"
    by (simp add: committed_def reservation_def) (simp add: upd_reg_def case_prod_unfold comp_def)
  ultimately show ?case
    using r Cons.IH[of ?d] Cons.prems(2,3) by (auto simp: committed_def elim!: returns_mono split: if_splits)
qed

section \<open>A registration as a whole\<close>

lemma committed_imp:
  assumes "committed d d'"
  shows "reservation d' = reservation d" "pr_static d' = pr_static d" "pr_rest d' = pr_rest d"
    "tgt_devs d' = tgt_devs d"
  using assms by (auto simp: committed_def)

text \<open>A registration ends in a state between commands.  When it fails, the command has a status
  and the device is as it was; otherwise the command is untouched.\<close>

definition reg_done :: "pr_dev \<Rightarrow> scst_cmd \<Rightarrow> int \<times> pr_dev \<times> scst_cmd \<Rightarrow> bool" where
  "reg_done d cmd = (\<lambda>(res, d', cmd'). pr_inv d' \<and> pr_static d' = pr_static d \<and> pr_rest d' = pr_rest d \<and>
     (if res = 0 then cmd' = cmd \<and> reservation d' = reservation d else failed cmd cmd' \<and> unchanged d d'))"

lemma reg_finish_ok:
  assumes inv: "pr_inv d0" and p: "reg_post K d0 cmd buffer (res, d, cmd', b, rb)"
  shows "returns s (do { d \<leftarrow> (if res = 0 then commit rb d else rollback rb d); Some (res, d, cmd') })
     (reg_done d0 cmd)"
proof -
  have st: "reg_state K d0 rb d" using p by (simp add: reg_post_def)
  have "returns s (commit rb d) (\<lambda>d'. pr_inv d' \<and> committed d d')"
    by (rule commit_ok) (use st in \<open>auto simp: reg_state_def\<close>)
  then have "returns s (commit rb d) (\<lambda>d'. reg_done d0 cmd (res, d', cmd'))" if "res = 0"
    by (rule returns_mono) (use that p st in \<open>auto simp: reg_done_def reg_post_def reg_state_def dest: committed_imp\<close>)
  moreover have "returns s (rollback rb d) (\<lambda>d'. reg_done d0 cmd (res, d', cmd'))" if "res \<noteq> 0"
    by (rule returns_mono[OF rollback_ok[OF inv reg_state_rb[OF st]]])
      (use that p in \<open>auto simp: reg_done_def reg_post_def unchanged_def\<close>)
  ultimately show ?thesis by (simp add: returns_bind)
qed

lemma do_pr_register_ok:
  assumes inv: "pr_inv d" and K: "get_unaligned_be64 buffer 8 = Some K" "K \<noteq> 0"
    and cmd: "cmd_sense_ok cmd" and td: "td < length (tgt_devs d)"
    and t: "s \<Longrightarrow> sess_transport_id (tgt_devs d ! td) \<noteq> None" and s: "s \<Longrightarrow> spec \<Longrightarrow> spec_ok buffer"
  shows "returns s (do_pr_register d cmd td buffer spec all_tg_pt) (reg_done d cmd)"
proof -
  note st = reg_state_start[OF inv, of K]
  have "returns s (if all_tg_pt then scst_pr_register_all_tg_pt d cmd td buffer spec []
        else do {
          t \<leftarrow> rd (tgt_devs d) td;
          scst_pr_register_on_tgt_id d cmd td (sess_rel_tgt_id t) buffer spec [] }) (reg_post K d cmd buffer)"
  proof (cases all_tg_pt)
    case True
    have "tid_ok tid" if "sess_transport_id (tgt_devs d ! td) = Some tid" for tid
      using that td inv sess_tid_ok[of d "tgt_devs d ! td" tid] by (simp add: pr_inv_def pr_core_def)
    then show ?thesis
      using True td t register_tgts_ok[OF st K cmd td t s]
      by (cases "sess_transport_id (tgt_devs d ! td)")
        (auto simp: scst_pr_register_all_tg_pt_def rd_def returns_bind tid_ok_def scst_tid_size_def
          split: option.splits if_splits)
  next
    case False
    then show ?thesis using td on_tgt_id_ok[OF st K cmd td t s] by (simp add: rd_def)
  qed
  then show ?thesis
    unfolding do_pr_register_def returns_bind[of s _ "\<lambda>x. case x of (res, d, cmd, buffer, rb) \<Rightarrow> f res d cmd buffer rb" for f]
    by (rule returns_mono) (clarify, rule reg_finish_ok[OF inv])
qed

end
