(* ===== verification/Pres_Out.thy ===== *)
theory Pres_Out
  imports Pres_Reg
begin

text \<open>
  The service actions of PERSISTENT RESERVE OUT and its handler: they keep the invariant, they
  do not leave memory, and a command that reports an error has changed nothing.
\<close>

section \<open>Outcomes\<close>

text \<open>A command either succeeds and its effect is \<open>Q\<close>, or it has reported an error and the
  device is as it was.\<close>

definition outcome :: "(pr_dev \<Rightarrow> bool) \<Rightarrow> pr_dev \<Rightarrow> scst_cmd \<Rightarrow> pr_dev \<times> scst_cmd \<Rightarrow> bool" where
  "outcome Q d cmd = (\<lambda>(d', cmd'). pr_inv d' \<and> pr_static d' = pr_static d \<and>
     (cmd' = cmd \<and> Q d' \<or> failed cmd cmd' \<and> unchanged d d'))"

lemma unchanged_refl [simp]: "unchanged d d"
  by (simp add: unchanged_def same_reservation_def)

lemma unchanged_env [simp]: "unchanged d (d\<lparr>env_mem := m\<rparr>)"
  by (simp add: unchanged_def same_reservation_def pr_rest_def pr_static_def)

lemma inv_env [simp]: "pr_inv (d\<lparr>env_mem := m\<rparr>) = pr_inv d"
  by (simp add: pr_inv_def)

lemma static_env [simp]: "pr_static (d\<lparr>env_mem := m\<rparr>) = pr_static d"
  by (simp add: pr_static_def)

lemma outcome_failed: "pr_inv d \<Longrightarrow> failed cmd cmd' \<Longrightarrow> outcome Q d cmd (d, cmd')"
  by (simp add: outcome_def)

lemma outcome_ok: "pr_inv d' \<Longrightarrow> pr_static d' = pr_static d \<Longrightarrow> Q d' \<Longrightarrow> outcome Q d cmd (d', cmd)"
  by (simp add: outcome_def)

lemma outcome_mono: "outcome Q d cmd x \<Longrightarrow> (\<And>d'. Q d' \<Longrightarrow> Q' d') \<Longrightarrow> outcome Q' d cmd x"
  by (auto simp: outcome_def)

lemma fails:
  assumes "pr_inv d" "cmd_sense_ok cmd"
  shows "asc \<noteq> 0x25 \<Longrightarrow> returns s (fail_sense d cmd key asc ascq) (outcome Q d cmd)"
    and "returns s (fail_cdb d cmd f b) (outcome Q d cmd)"
    and "returns s (fail_parm d cmd f b) (outcome Q d cmd)"
    and "returns s (conflict d cmd) (outcome Q d cmd)"
proof -
  show "returns s (fail_sense d cmd key asc ascq) (outcome Q d cmd)" if "asc \<noteq> 0x25"
    unfolding fail_sense_def returns_bind
    by (rule returns_mono[OF failed_reports(3)[OF assms(2) that]]) (auto simp: outcome_failed[OF assms(1)])
  show "returns s (fail_cdb d cmd f b) (outcome Q d cmd)"
    unfolding fail_cdb_def returns_bind
    by (rule returns_mono[OF failed_reports(1)[OF assms(2)]]) (auto simp: outcome_failed[OF assms(1)])
  show "returns s (fail_parm d cmd f b) (outcome Q d cmd)"
    unfolding fail_parm_def returns_bind
    by (rule returns_mono[OF failed_reports(2)[OF assms(2)]]) (auto simp: outcome_failed[OF assms(1)])
qed (simp add: conflict_def outcome_failed[OF assms(1) failed_conflict])

lemma inv_only_log:
  assumes "only_log d d'" "pr_inv d"
  shows "pr_inv d'" "pr_static d' = pr_static d"
  using assms only_log_simps[OF assms(1)] by (auto simp: pr_inv_def)

lemma inv_filter:
  assumes "pr_inv d" "pr_core d'" "registrants d' = filter P (registrants d)"
  shows "pr_inv d'"
  using assms by (auto simp: pr_inv_def list_all_iff)

lemma inv_upds [simp]:
  "pr_inv (d\<lparr>pr_generation := g\<rparr>) = pr_inv d" "pr_inv (d\<lparr>pr_aptpl := p\<rparr>) = pr_inv d"
  "pr_static (d\<lparr>pr_generation := g\<rparr>) = pr_static d" "pr_static (d\<lparr>pr_aptpl := p\<rparr>) = pr_static d"
  by (simp_all add: pr_inv_def pr_static_def)

lemma inv_log [simp]: "pr_inv (log e d) = pr_inv d"
  by (simp add: pr_inv_def)

lemma inv_core: "pr_inv d \<Longrightarrow> pr_core d"
  by (simp add: pr_inv_def)

lemma inv_set_holder:
  assumes "pr_inv d" "reg_at d a \<noteq> None" "scst_pr_type_valid ty" "sc = SCOPE_LU"
  shows "pr_inv (scst_pr_set_holder d a sc ty)"
  using core_set_holder[OF inv_core[OF assms(1)] assms(2-4)] assms(1) by (simp add: pr_inv_def)

lemma cmd_registrant_ok:
  assumes "pr_inv d" "td < length (tgt_devs d)" "s \<Longrightarrow> registrant (tgt_devs d ! td) \<noteq> None"
  shows "returns s (cmd_registrant d td) (\<lambda>(a, r). registrant (tgt_devs d ! td) = Some a \<and> reg_at d a = Some r)"
proof (cases "registrant (tgt_devs d ! td)")
  case None
  then show ?thesis using assms(2,3) by (auto simp: cmd_registrant_def rd_def)
next
  case (Some a)
  have "pr_links_ok d" using assms(1) by (simp add: pr_inv_def pr_core_def)
  then obtain r where "reg_at d a = Some r" using links_okE[OF _ assms(2) Some] by blast
  then show ?thesis using assms(2) Some by (simp add: cmd_registrant_def rd_def)
qed

section \<open>Reserve, release, clear\<close>

lemma reserve_ok:
  assumes inv: "pr_inv d" and cmd: "cmd_sense_ok cmd" and td: "td < length (tgt_devs d)"
    and reg: "s \<Longrightarrow> registrant (tgt_devs d ! td) \<noteq> None"
    and s: "s \<Longrightarrow> 24 \<le> length buffer \<and> 2 < length (cdb cmd)"
  shows "returns s (scst_pr_reserve d cmd td buffer) (outcome (\<lambda>d'. pr_is_set d' \<and>
     pr_type d' = cdb cmd ! 2 AND 0x0f \<and> scst_pr_is_holder d' (registrant (tgt_devs d ! td)) \<and>
     registrants d' = registrants d \<and> tgt_devs d' = tgt_devs d) d cmd)"
proof -
  note fail = fails[OF inv cmd]
  let ?Q = "\<lambda>a d'. pr_is_set d' \<and> pr_type d' = cdb cmd ! 2 AND 0x0f \<and> scst_pr_is_holder d' (Some a) \<and>
     registrants d' = registrants d \<and> tgt_devs d' = tgt_devs d"
  have set: "outcome (?Q a) d cmd (scst_pr_set_holder d a SCOPE_LU (cdb cmd ! 2 AND 0x0f), cmd)"
    if "reg_at d a = Some r" "scst_pr_type_valid (cdb cmd ! 2 AND 0x0f)" for a r
  proof (rule outcome_ok)
    show "pr_inv (scst_pr_set_holder d a SCOPE_LU (cdb cmd ! 2 AND 0x0f))"
      using that inv by (intro inv_set_holder) auto
  qed (simp, simp add: scst_pr_is_holder_def scst_pr_set_holder_def)
  have same: "outcome (?Q a) d cmd (d, cmd)"
    if "pr_is_set d" "pr_type d = cdb cmd ! 2 AND 0x0f" "scst_pr_is_holder d (Some a)" for a
    using that by (simp add: outcome_ok[OF inv])
  show ?thesis
    unfolding scst_pr_reserve_def returns_bind returns_be returns_rd Let_def
    using s set same
    by (auto simp: returns_if returns_bind fail intro!: returns_mono[OF cmd_registrant_ok[OF inv td reg]])
qed

lemma inv_clear_reservation:
  assumes "pr_inv d"
  shows "pr_inv (scst_pr_clear_reservation d)"
  using core_clear_reservation[OF inv_core[OF assms]] assms by (simp add: pr_inv_def)

lemma not_set_not_holder: "\<not> pr_is_set d \<Longrightarrow> \<not> scst_pr_is_holder d x"
  by (simp add: scst_pr_is_holder_def)

lemma release_ok:
  assumes inv: "pr_inv d" and cmd: "cmd_sense_ok cmd" and td: "td < length (tgt_devs d)"
    and reg: "s \<Longrightarrow> registrant (tgt_devs d ! td) \<noteq> None"
    and s: "s \<Longrightarrow> 24 \<le> length buffer \<and> 2 < length (cdb cmd)"
  shows "returns s (scst_pr_release d cmd td buffer) (outcome (\<lambda>d'. registrants d' = registrants d \<and>
     tgt_devs d' = tgt_devs d \<and> (if scst_pr_is_holder d (registrant (tgt_devs d ! td)) then \<not> pr_is_set d'
       else reservation d' = reservation d)) d cmd)"
proof -
  note fail = fails[OF inv cmd]
  note inv' = inv_clear_reservation[OF inv]
  let ?Q = "\<lambda>x d'. registrants d' = registrants d \<and> tgt_devs d' = tgt_devs d \<and>
     (if scst_pr_is_holder d x then \<not> pr_is_set d' else reservation d' = reservation d)"
  have same: "outcome (?Q x) d cmd (d, cmd)" if "\<not> scst_pr_is_holder d x" for x
    using that by (simp add: outcome_ok[OF inv])
  have clear: "outcome (?Q x) d cmd (scst_pr_clear_reservation d, cmd)" if "scst_pr_is_holder d x" for x
    using that by (intro outcome_ok[OF inv']) auto
  have "returns s (scst_pr_send_ua_all x k y z (scst_pr_clear_reservation d)) (\<lambda>d'. outcome (?Q v) d cmd (d', cmd))"
    if "scst_pr_is_holder d v" for v x k y z
  proof (rule returns_mono[OF send_ua_all_ok])
    fix d'
    assume l: "only_log (scst_pr_clear_reservation d) d'"
    show "outcome (?Q v) d cmd (d', cmd)"
      by (rule outcome_ok[OF inv_only_log(1)[OF l inv']]) (use that only_log_simps[OF l] in auto)
  qed
  then show ?thesis
    unfolding scst_pr_release_def returns_bind returns_be returns_rd Let_def
    using s same clear
    by (auto simp: returns_if returns_bind fail not_set_not_holder
      intro!: returns_mono[OF cmd_registrant_ok[OF inv td reg]])
qed

lemma remove_list_inv:
  assumes "pr_inv d" "distinct as" "\<forall>a \<in> set as. reg_at d a \<noteq> None"
  shows "returns s (remove_list as d) (\<lambda>d'. pr_inv d' \<and> pr_static d' = pr_static d \<and>
     registrants d' = filter (\<lambda>(b, r). b \<notin> set as) (registrants d))"
  by (rule returns_mono[OF remove_list_ok[OF inv_core[OF assms(1)] assms(2,3)]])
    (use assms(1) in \<open>auto intro: inv_filter\<close>)

lemma distinct_regs: "pr_inv d \<Longrightarrow> distinct (map fst (registrants d))"
  by (simp add: pr_inv_def pr_core_def pr_regs_ok_def)

lemma remove_all_ok:
  assumes "pr_inv d"
  shows "returns s (remove_list (map fst (registrants d)) d) (\<lambda>d'. pr_inv d' \<and> pr_static d' = pr_static d \<and>
     registrants d' = [])"
proof (rule returns_mono[OF remove_list_inv[OF assms distinct_regs[OF assms]]])
  show "\<forall>a \<in> set (map fst (registrants d)). reg_at d a \<noteq> None" unfolding reg_at_dom by simp
qed (auto simp: filter_empty_conv intro: rev_image_eqI)

text \<open>Without registrants there is no reservation and no nexus is registered.\<close>

lemma inv_no_regs:
  assumes "pr_inv d" "registrants d = []"
  shows "\<not> pr_is_set d" "pr_holder d = None" "i < length (tgt_devs d) \<Longrightarrow> registrant (tgt_devs d ! i) = None"
proof -
  show "\<not> pr_is_set d" "pr_holder d = None"
    using assms by (auto simp: pr_inv_def pr_core_def pr_holder_ok_def split: if_splits)
  show "registrant (tgt_devs d ! i) = None" if "i < length (tgt_devs d)"
    using assms links_okE[OF _ that] by (cases "registrant (tgt_devs d ! i)") (auto simp: pr_inv_def pr_core_def reg_at_def)
qed

lemma clear_all_ok:
  assumes "pr_inv d"
  shows "returns s (do {
       d \<leftarrow> scst_pr_send_ua_all x UNIT_ATTENTION 0x2A 0x03 d;
       d \<leftarrow> remove_list (map fst (registrants d)) d;
       Some (d\<lparr>pr_generation := pr_generation d + 1\<rparr>, cmd) }) (outcome (\<lambda>d'. registrants d' = []) d cmd)"
  unfolding returns_bind
proof (rule returns_mono[OF send_ua_all_ok])
  fix d1
  assume l: "only_log d d1"
  show "returns s (remove_list (map fst (registrants d1)) d1)
      (\<lambda>d'. returns s (Some (d'\<lparr>pr_generation := pr_generation d' + 1\<rparr>, cmd)) (outcome (\<lambda>d'. registrants d' = []) d cmd))"
    by (rule returns_mono[OF remove_all_ok[OF inv_only_log(1)[OF l assms]]])
      (use only_log_simps(2)[OF l] in \<open>auto simp: outcome_ok\<close>)
qed

lemma clear_ok:
  assumes inv: "pr_inv d" and cmd: "cmd_sense_ok cmd" and td: "td < length (tgt_devs d)"
    and reg: "s \<Longrightarrow> registrant (tgt_devs d ! td) \<noteq> None" and s: "s \<Longrightarrow> 24 \<le> length buffer"
  shows "returns s (scst_pr_clear d cmd td buffer) (outcome (\<lambda>d'. registrants d' = []) d cmd)"
  unfolding scst_pr_clear_def returns_bind[of _ _ "\<lambda>k. if _ k then _ k else _ k"]
  using s clear_all_ok[OF inv]
  by (auto simp: returns_be returns_if returns_bind[of _ "cmd_registrant d td"] fails[OF inv cmd]
    intro!: returns_mono[OF cmd_registrant_ok[OF inv td reg]])

section \<open>Preempt\<close>

lemma same_reservation_log: "only_log d d' \<Longrightarrow> same_reservation d d'"
  by (simp add: same_reservation_def only_log_simps)

text \<open>Preempting keeps the reservation when it does not remove the holder.\<close>

lemma preempt_loop_reservation:
  assumes "pr_core d" "distinct rs" "\<forall>a \<in> set rs. reg_at d a \<noteq> None"
    "pr_is_set d \<Longrightarrow> \<not> all_reg (pr_type d) \<Longrightarrow> \<forall>b \<in> set rs. b \<noteq> reg \<or> self \<longrightarrow> pr_holder d \<noteq> Some b"
    "pr_is_set d \<Longrightarrow> filter (\<lambda>(b, r). b \<notin> set rs \<or> b = reg \<and> \<not> self) (registrants d) \<noteq> []"
    "preempt_loop td ab reg self rs d = Some d'"
  shows "same_reservation d d'"
  using assms
proof (induction rs arbitrary: d)
  case Nil
  then show ?case by (simp add: same_reservation_def)
next
  case (Cons a rs)
  obtain d1 d2 d3 where
      1: "(if ab then scst_pr_abort_reg td a d else Some d) = Some d1"
    and 2: "(if a \<noteq> reg then scst_pr_send_ua_reg UNIT_ATTENTION 0x2A 0x05 a d1 else Some d1) = Some d2"
    and 3: "(if a \<noteq> reg \<or> self then scst_pr_remove_registrant d2 a else Some d2) = Some d3"
    and 4: "preempt_loop td ab reg self rs d3 = Some d'"
    using Cons.prems(6) by (auto simp: bind_eq_Some_conv)
  have a: "reg_at d a \<noteq> None" using Cons.prems(3) by simp
  have l1: "only_log d d1" using 1 abort_reg_ok[OF a, of True td] by (auto split: if_splits)
  then have "reg_at d1 a \<noteq> None" using a by (simp add: only_log_simps)
  then have l2: "only_log d d2"
    using 2 l1 only_log_trans[OF l1 returnsD[OF send_ua_reg_ok]] by (cases "a \<noteq> reg") auto
  have c2: "pr_core d2" using Cons.prems(1) l2 by (simp add: only_log_simps)
  obtain r where r: "reg_at d2 a = Some r" using a l2 by (auto simp: only_log_simps)
  have step: "same_reservation d2 d3 \<and> pr_core d3 \<and>
      registrants d3 = filter (\<lambda>(b, r). b \<noteq> a \<or> a = reg \<and> \<not> self) (registrants d)"
  proof (cases "a \<noteq> reg \<or> self")
    case False
    then show ?thesis using 3 c2 l2 by (auto simp: same_reservation_def only_log_simps)
  next
    case True
    then have d3: "scst_pr_remove_registrant d2 a = Some d3" using 3 by simp
    have c3: "pr_core d3" "registrants d3 = filter (\<lambda>(b, r). b \<noteq> a) (registrants d2)"
      using remove_registrant_ok[OF c2 r, of True] d3 by auto
    have "registrants d3 \<noteq> []" if "pr_is_set d2"
    proof -
      have "pr_is_set d" using that l2 by (simp add: only_log_simps)
      from Cons.prems(5)[OF this] obtain b q where "(b, q) \<in> set (registrants d)"
          "b \<notin> set (a # rs) \<or> b = reg \<and> \<not> self"
        by (auto simp: filter_empty_conv)
      then have "(b, q) \<in> set (registrants d3)" using True c3(2) only_log_simps(4)[OF l2] by auto
      then show ?thesis by auto
    qed
    then have "same_reservation d2 d3"
      using reservation_remove(1)[OF _ r d3] c2 Cons.prems(4) True l2 by (auto simp: pr_core_def only_log_simps)
    then show ?thesis using c3 l2 True by (auto simp: only_log_simps)
  qed
  have "same_reservation d3 d'"
  proof (rule Cons.IH[OF _ _ _ _ _ 4])
    show "\<forall>b \<in> set rs. reg_at d3 b \<noteq> None"
      using Cons.prems(2,3) step unfolding reg_at_dom by fastforce
    show "filter (\<lambda>(b, r). b \<notin> set rs \<or> b = reg \<and> \<not> self) (registrants d3) \<noteq> []" if "pr_is_set d3"
      using Cons.prems(5) that step l2 by (fastforce simp: same_reservation_def only_log_simps filter_empty_conv)
    show "\<forall>b \<in> set rs. b \<noteq> reg \<or> self \<longrightarrow> pr_holder d3 \<noteq> Some b" if "pr_is_set d3" "\<not> all_reg (pr_type d3)"
      using Cons.prems(4) that step l2 by (auto simp: same_reservation_def only_log_simps)
  qed (use step Cons.prems(2) in auto)
  then show ?case using step same_reservation_log[OF l2] same_reservation_trans by blast
qed

text \<open>What PREEMPT with the key \<open>K\<close> of the registrant at \<open>a\<close> does: it takes the
  reservation over when \<open>K\<close> is the key of the holder, or zero and all registrants hold it,
  and it removes the registrants with the key.\<close>

definition takes_over :: "pr_dev \<Rightarrow> 64 word \<Rightarrow> bool" where
  "takes_over d K = (pr_is_set d \<and>
     (if all_reg (pr_type d) then K = 0
      else \<exists>h r. pr_holder d = Some h \<and> reg_at d h = Some r \<and> reg_key r = K))"

definition survivors :: "pr_dev \<Rightarrow> nat \<Rightarrow> 64 word \<Rightarrow> (nat \<times> scst_dev_registrant) list" where
  "survivors d a K =
     (if takes_over d K \<and> all_reg (pr_type d) then filter (\<lambda>(b, r). b = a) (registrants d)
      else if pr_is_set d \<and> \<not> all_reg (pr_type d) \<and> \<not> takes_over d K
      then filter (\<lambda>(b, r). reg_key r \<noteq> K) (registrants d)
      else filter (\<lambda>(b, r). reg_key r \<noteq> K \<or> b = a) (registrants d))"

definition preempt_effect :: "pr_dev \<Rightarrow> nat \<Rightarrow> 64 word \<Rightarrow> byte \<Rightarrow> pr_dev \<Rightarrow> bool" where
  "preempt_effect d a K type d' = (registrants d' = survivors d a K \<and>
     (if takes_over d K then pr_is_set d' \<and> pr_type d' = type \<and> scst_pr_is_holder d' (Some a)
      else same_reservation d d'))"

lemma by_key_mem:
  assumes "pr_inv d"
  shows "distinct (scst_pr_find_registrants_list_key d K)"
    "\<forall>b \<in> set (scst_pr_find_registrants_list_key d K). reg_at d b \<noteq> None"
    "b \<in> set (scst_pr_find_registrants_list_key d K) \<longleftrightarrow> (\<exists>r. reg_at d b = Some r \<and> reg_key r = K)"
proof -
  have R: "pr_regs_ok d" using assms by (simp add: pr_inv_def pr_core_def)
  show "distinct (scst_pr_find_registrants_list_key d K)"
    using R by (simp add: scst_pr_find_registrants_list_key_def pr_regs_ok_def distinct_map_filter)
  show b: "b \<in> set (scst_pr_find_registrants_list_key d K) \<longleftrightarrow> (\<exists>r. reg_at d b = Some r \<and> reg_key r = K)" for b
    using reg_at_iff[OF R] by (force simp: scst_pr_find_registrants_list_key_def)
  show "\<forall>b \<in> set (scst_pr_find_registrants_list_key d K). reg_at d b \<noteq> None"
    using b by auto
qed

lemma others_mem:
  assumes "pr_inv d"
  shows "distinct (scst_pr_find_registrants_list_all d a)"
    "\<forall>b \<in> set (scst_pr_find_registrants_list_all d a). reg_at d b \<noteq> None"
    "b \<in> set (scst_pr_find_registrants_list_all d a) \<longleftrightarrow> reg_at d b \<noteq> None \<and> b \<noteq> a"
  using distinct_regs[OF assms] unfolding reg_at_dom
  by (auto simp: scst_pr_find_registrants_list_all_def)

lemma filter_by_key:
  assumes "pr_inv d"
  shows "filter (\<lambda>(b, r). b \<notin> set (scst_pr_find_registrants_list_key d K) \<or> P b) (registrants d) =
     filter (\<lambda>(b, r). reg_key r \<noteq> K \<or> P b) (registrants d)"
proof (rule filter_cong[OF refl])
  fix p
  assume "p \<in> set (registrants d)"
  then have "reg_at d (fst p) = Some (snd p)"
    using assms reg_at_iff[of d "fst p" "snd p"] by (simp add: pr_inv_def pr_core_def)
  then show "(case p of (b, r) \<Rightarrow> b \<notin> set (scst_pr_find_registrants_list_key d K) \<or> P b) =
      (case p of (b, r) \<Rightarrow> reg_key r \<noteq> K \<or> P b)"
    by (auto simp: by_key_mem(3)[OF assms] split: prod.splits)
qed

lemma preempt_loop_inv:
  assumes inv: "pr_inv d" and l: "distinct rs" "\<forall>a \<in> set rs. reg_at d a \<noteq> None"
  shows "returns s (preempt_loop td ab reg self rs d) (\<lambda>d'. pr_inv d' \<and> pr_static d' = pr_static d \<and>
     registrants d' = filter (\<lambda>(b, r). b \<notin> set rs \<or> b = reg \<and> \<not> self) (registrants d))"
  by (rule returns_mono[OF preempt_loop_ok[OF inv_core[OF inv] l]]) (use inv in \<open>auto intro: inv_filter\<close>)

text \<open>Preempting that leaves the reservation alone.\<close>

lemma preempt_keys_ok:
  assumes inv: "pr_inv d" and a: "reg_at d a = Some r" and t: "\<not> takes_over d K"
    and self: "self = (pr_is_set d \<and> \<not> all_reg (pr_type d))"
  shows "returns s (do {
       d \<leftarrow> preempt_loop td ab a self (scst_pr_find_registrants_list_key d K) d;
       preempt_done cmd d }) (outcome (preempt_effect d a K ty) d cmd)"
  unfolding returns_bind
proof (rule returns_mono[OF preempt_loop_inv[OF inv by_key_mem(1,2)[OF inv]]], elim conjE)
  let ?l = "scst_pr_find_registrants_list_key d K"
  fix d'
  assume run: "preempt_loop td ab a self ?l d = Some d'" and d': "pr_inv d'" "pr_static d' = pr_static d"
    and regs: "registrants d' = filter (\<lambda>(b, r). b \<notin> set ?l \<or> b = a \<and> \<not> self) (registrants d)"
  have surv: "registrants d' = survivors d a K"
    unfolding regs survivors_def using t self filter_by_key[OF inv, of K "\<lambda>b. b = a \<and> \<not> self"] by simp
  have hold: "\<forall>b \<in> set ?l. b \<noteq> a \<or> self \<longrightarrow> pr_holder d \<noteq> Some b" if "pr_is_set d" "\<not> all_reg (pr_type d)"
    using that t by (auto simp: by_key_mem(3)[OF inv] takes_over_def)
  have "filter (\<lambda>(b, r). b \<notin> set ?l \<or> b = a \<and> \<not> self) (registrants d) \<noteq> []" if set: "pr_is_set d"
  proof (cases "all_reg (pr_type d)")
    case True
    then show ?thesis using reg_at_mem[OF a] self by (auto simp: filter_empty_conv)
  next
    case False
    then obtain h q where "pr_holder d = Some h" "reg_at d h = Some q" using core_holder[OF inv_core[OF inv] set] by blast
    moreover from this have "h \<notin> set ?l" using hold[OF set False] self set False by auto
    ultimately show ?thesis using reg_at_mem[of d h q] by (auto simp: filter_empty_conv)
  qed
  then have "same_reservation d d'"
    using preempt_loop_reservation[OF inv_core[OF inv] by_key_mem(1,2)[OF inv] hold _ run] by blast
  then show "returns s (preempt_done cmd d') (outcome (preempt_effect d a K ty) d cmd)"
    using d' surv t
    by (auto simp: preempt_done_def preempt_effect_def same_reservation_def intro!: outcome_ok)
qed

text \<open>Preempting that takes the reservation over.\<close>

lemma takeover_outcome:
  assumes inv: "pr_inv d'" "pr_static d' = pr_static d" and regs: "registrants d' = survivors d a K"
    and a: "reg_at d' a \<noteq> None" and ty: "scst_pr_type_valid ty" and t: "takes_over d K"
  shows "pr_inv (scst_pr_set_holder d' a SCOPE_LU ty)"
    "preempt_effect d a K ty (scst_pr_set_holder d' a SCOPE_LU ty)"
  using inv_set_holder[OF inv(1) a ty] regs t
  by (auto simp: preempt_effect_def scst_pr_is_holder_def scst_pr_set_holder_def)

lemma reg_at_survives:
  assumes "reg_at d a = Some r" "registrants d' = filter P (registrants d)" "P (a, r)"
  shows "reg_at d' a \<noteq> None"
proof -
  have "(a, r) \<in> set (registrants d')" using reg_at_mem[OF assms(1)] assms(2,3) by simp
  then show ?thesis unfolding reg_at_dom by force
qed

lemma preempt_all_ok:
  assumes inv: "pr_inv d" and a: "reg_at d a = Some r" and ty: "scst_pr_type_valid ty"
    and t: "takes_over d 0" "all_reg (pr_type d)"
  shows "returns s (do {
       d \<leftarrow> preempt_loop td ab a False (scst_pr_find_registrants_list_all d a) d;
       preempt_done cmd (scst_pr_set_holder d a SCOPE_LU ty) }) (outcome (preempt_effect d a 0 ty) d cmd)"
  unfolding returns_bind
proof (rule returns_mono[OF preempt_loop_inv[OF inv others_mem(1,2)[OF inv]]], elim conjE)
  let ?l = "scst_pr_find_registrants_list_all d a"
  fix d'
  assume d': "pr_inv d'" "pr_static d' = pr_static d"
    and regs: "registrants d' = filter (\<lambda>(b, r). b \<notin> set ?l \<or> b = a \<and> \<not> False) (registrants d)"
  have "b \<notin> set ?l \<longleftrightarrow> b = a" if "(b, q) \<in> set (registrants d)" for b q
    using that reg_at_dom[of d b] others_mem(3)[OF inv, of b a] by force
  then have surv: "registrants d' = survivors d a 0"
    unfolding regs survivors_def using t by (auto intro!: filter_cong)
  have "reg_at d' a \<noteq> None" by (rule reg_at_survives[OF a regs]) simp
  from takeover_outcome[OF d' surv this ty t(1)]
  show "returns s (preempt_done cmd (scst_pr_set_holder d' a SCOPE_LU ty)) (outcome (preempt_effect d a 0 ty) d cmd)"
    using d'(2) by (auto simp: preempt_done_def preempt_effect_def same_reservation_def scst_pr_is_holder_def intro!: outcome_ok)
qed

lemma preempt_holder_ok:
  assumes inv: "pr_inv d" and a: "reg_at d a = Some r" and ty: "scst_pr_type_valid ty"
    and t: "takes_over d K" "\<not> all_reg (pr_type d)"
  shows "returns s (do {
       d \<leftarrow> preempt_loop td ab a False (scst_pr_find_registrants_list_key d K) d;
       let d = scst_pr_set_holder d a SCOPE_LU ty;
       d \<leftarrow> (if c then scst_pr_send_ua_all (Some a) UNIT_ATTENTION 0x2A 0x04 d else Some d);
       preempt_done cmd d }) (outcome (preempt_effect d a K ty) d cmd)"
  unfolding returns_bind Let_def
proof (rule returns_mono[OF preempt_loop_inv[OF inv by_key_mem(1,2)[OF inv]]], elim conjE)
  let ?l = "scst_pr_find_registrants_list_key d K"
  fix d'
  assume d': "pr_inv d'" "pr_static d' = pr_static d"
    and regs: "registrants d' = filter (\<lambda>(b, r). b \<notin> set ?l \<or> b = a \<and> \<not> False) (registrants d)"
  have surv: "registrants d' = survivors d a K"
    unfolding regs survivors_def using t filter_by_key[OF inv, of K "\<lambda>b. b = a"] by simp
  have "reg_at d' a \<noteq> None" by (rule reg_at_survives[OF a regs]) simp
  note h = takeover_outcome[OF d' surv this ty t(1)]
  let ?d = "scst_pr_set_holder d' a SCOPE_LU ty"
  have "returns s (if c then scst_pr_send_ua_all (Some a) UNIT_ATTENTION 0x2A 0x04 ?d else Some ?d) (only_log ?d)"
    using send_ua_all_ok[of s "Some a" UNIT_ATTENTION "0x2A" "0x04" ?d] by simp
  then show "returns s (if c then scst_pr_send_ua_all (Some a) UNIT_ATTENTION 0x2A 0x04 ?d else Some ?d)
      (\<lambda>x. returns s (preempt_done cmd x) (outcome (preempt_effect d a K ty) d cmd))"
  proof (rule returns_mono)
    fix x
    assume l: "only_log ?d x"
    have "preempt_effect d a K ty (x\<lparr>pr_generation := g\<rparr>)" for g
      using h(2) only_log_simps[OF l] t(1) by (simp add: preempt_effect_def scst_pr_is_holder_def)
    then show "returns s (preempt_done cmd x) (outcome (preempt_effect d a K ty) d cmd)"
      using inv_only_log[OF l h(1)] d'(2) by (auto simp: preempt_done_def intro!: outcome_ok)
  qed
qed

lemma takes_over_holder:
  assumes "pr_is_set d" "\<not> all_reg (pr_type d)" "pr_holder d = Some h" "reg_at d h = Some r"
  shows "takes_over d K \<longleftrightarrow> reg_key r = K"
  using assms by (simp add: takes_over_def)

lemma preempt_with_key_ok:
  assumes inv: "pr_inv d" and cmd: "cmd_sense_ok cmd" and a: "reg_at d a = Some r"
    and ty: "scst_pr_type_valid ty"
  shows "returns s (preempt_with_key d cmd td a K SCOPE_LU ty ab) (outcome (preempt_effect d a K ty) d cmd)"
proof -
  note fail = fails[OF inv cmd]
  note keys = preempt_keys_ok[OF inv a]
  consider "\<not> pr_is_set d" | "pr_is_set d" "all_reg (pr_type d)"
    | h q where "pr_is_set d" "\<not> all_reg (pr_type d)" "pr_holder d = Some h" "reg_at d h = Some q"
    using core_holder[OF inv_core[OF inv]] by metis
  then show ?thesis
  proof cases
    case 1
    then show ?thesis
      using keys[of K False] by (simp add: preempt_with_key_def Let_def fail takes_over_def)
  next
    case 2
    then have "takes_over d K \<longleftrightarrow> K = 0" by (simp add: takes_over_def)
    then show ?thesis
      using 2 keys[of K False] preempt_all_ok[OF inv a ty] by (cases "K = 0") (simp_all add: preempt_with_key_def Let_def fail)
  next
    case (3 h q)
    then show ?thesis
      using keys[of K True] preempt_holder_ok[OF inv a ty, of K] takes_over_holder[OF 3]
      by (simp add: preempt_with_key_def fail Let_def)
  qed
qed

lemma do_preempt_ok:
  assumes inv: "pr_inv d" and cmd: "cmd_sense_ok cmd" and td: "td < length (tgt_devs d)"
    and reg: "s \<Longrightarrow> registrant (tgt_devs d ! td) \<noteq> None" and s: "s \<Longrightarrow> 2 < length (cdb cmd)"
    and scope: "drop_bit 4 (cdb cmd ! 2) = SCOPE_LU"
  shows "returns s (scst_pr_do_preempt d cmd td buffer ab) (outcome (\<lambda>d'. \<exists>a K.
     registrant (tgt_devs d ! td) = Some a \<and> get_unaligned_be64 buffer 8 = Some K \<and>
     preempt_effect d a K (cdb cmd ! 2 AND 0x0f) d') d cmd)"
    (is "returns s _ (outcome ?Q d cmd)")
proof -
  note fail = fails[OF inv cmd]
  let ?ty = "cdb cmd ! 2 AND 0x0f"
  show ?thesis
  proof (cases "length buffer = 24 \<and> 2 < length (cdb cmd)")
    case False
    then show ?thesis
      using s by (auto simp: scst_pr_do_preempt_def fail returns_bind returns_rd returns_be)
  next
    case True
    then obtain key K where k: "get_unaligned_be64 buffer 0 = Some key" "get_unaligned_be64 buffer 8 = Some K"
      by (simp add: get_unaligned_be64_def rd_range_def)
    have "returns s (preempt_with_key d cmd td a K SCOPE_LU ?ty ab) (outcome ?Q d cmd)"
      if "registrant (tgt_devs d ! td) = Some a" "reg_at d a = Some r" "scst_pr_type_valid ?ty" for a r
      using that k(2)
      by (auto intro!: returns_mono[OF preempt_with_key_ok[OF inv cmd that(2,3)]] elim!: outcome_mono)
    then show ?thesis
      using True
      by (auto simp: scst_pr_do_preempt_def k rd_def scope fail returns_bind returns_if Let_def
        intro!: returns_mono[OF cmd_registrant_ok[OF inv td reg]])
  qed
qed

lemma preempt_effect_env [simp]: "preempt_effect (d\<lparr>env_mem := m\<rparr>) a K ty d' = preempt_effect d a K ty d'"
proof -
  have "takes_over (d\<lparr>env_mem := m\<rparr>) K = takes_over d K" by (simp add: takes_over_def reg_at_def)
  then show ?thesis by (simp add: preempt_effect_def survivors_def same_reservation_def)
qed

lemma outcome_env [simp]: "outcome Q (d\<lparr>env_mem := m\<rparr>) cmd = outcome Q d cmd"
  by (simp add: outcome_def unchanged_def same_reservation_def pr_rest_def fun_eq_iff)

lemma preempt_and_abort_ok:
  assumes inv: "pr_inv d" and cmd: "cmd_sense_ok cmd" and td: "td < length (tgt_devs d)"
    and reg: "s \<Longrightarrow> registrant (tgt_devs d ! td) \<noteq> None" and s: "s \<Longrightarrow> 2 < length (cdb cmd)"
    and scope: "drop_bit 4 (cdb cmd ! 2) = SCOPE_LU"
  shows "returns s (scst_pr_preempt_and_abort d cmd td buffer) (outcome (\<lambda>d'. \<exists>a K.
     registrant (tgt_devs d ! td) = Some a \<and> get_unaligned_be64 buffer 8 = Some K \<and>
     preempt_effect d a K (cdb cmd ! 2 AND 0x0f) d') d cmd)"
proof -
  obtain ok m where al: "alloc d = (ok, d\<lparr>env_mem := m\<rparr>)" using alloc_cases by blast
  have busy: "returns s (set_busy (d\<lparr>env_mem := m\<rparr>) td cmd) (\<lambda>c. outcome Q d cmd (d\<lparr>env_mem := m\<rparr>, c))" for Q
    by (rule returns_mono[OF set_busy_ok]) (use td inv in \<open>auto simp: outcome_def\<close>)
  show ?thesis
    using do_preempt_ok[of "d\<lparr>env_mem := m\<rparr>" cmd td s buffer True] assms busy
    by (simp add: scst_pr_preempt_and_abort_def al returns_bind)
qed

section \<open>Unregistering\<close>

lemma unregister_ok:
  assumes inv: "pr_inv d" and a: "reg_at d a \<noteq> None"
  shows "returns s (scst_pr_unregister d a) (\<lambda>d'. pr_inv d' \<and> pr_static d' = pr_static d \<and>
     registrants d' = filter (\<lambda>(b, r). b \<noteq> a) (registrants d))"
proof -
  obtain r where r: "reg_at d a = Some r" using a by auto
  have ua: "returns s (if c then scst_pr_send_ua_all None UNIT_ATTENTION 0x2A 0x04 d' else Some d') (only_log d')" for c d'
    using send_ua_all_ok[of s None UNIT_ATTENTION "0x2A" "0x04" d'] by simp
  show ?thesis
    unfolding scst_pr_unregister_def returns_bind Let_def
  proof (rule returns_mono[OF remove_registrant_ok[OF inv_core[OF inv] r]], elim conjE)
    fix d'
    assume d': "pr_core d'" "pr_static d' = pr_static d" "registrants d' = filter (\<lambda>(b, r). b \<noteq> a) (registrants d)"
    note inv' = inv_filter[OF inv d'(1,3)]
    show "returns s (if scst_pr_is_holder d (Some a) \<and> \<not> pr_is_set d' \<and>
         pr_type d \<in> {TYPE_WRITE_EXCLUSIVE_REGONLY, TYPE_EXCLUSIVE_ACCESS_REGONLY}
        then scst_pr_send_ua_all None UNIT_ATTENTION 0x2A 0x04 d' else Some d') (\<lambda>x. pr_inv x \<and>
        pr_static x = pr_static d \<and> registrants x = filter (\<lambda>(b, r). b \<noteq> a) (registrants d))"
    proof (rule returns_mono[OF ua])
      fix x
      assume l: "only_log d' x"
      show "pr_inv x \<and> pr_static x = pr_static d \<and> registrants x = filter (\<lambda>(b, r). b \<noteq> a) (registrants d)"
        using inv_only_log[OF l inv'] d'(2,3) only_log_simps(4)[OF l] by simp
    qed
  qed
qed

lemma unregister_tgts_ok:
  assumes "pr_inv d" "s \<Longrightarrow> tid_ok tid"
  shows "returns s (unregister_tgts p tid ts d) (\<lambda>d'. pr_inv d' \<and> pr_static d' = pr_static d \<and>
     set (registrants d') \<subseteq> set (registrants d))"
  using assms(1)
proof (induction ts arbitrary: d)
  case (Cons t ts)
  let ?P = "\<lambda>d'. pr_inv d' \<and> pr_static d' = pr_static d \<and> set (registrants d') \<subseteq> set (registrants d)"
  have rest: "returns s (unregister_tgts p tid ts x) ?P" if "?P x" for x
    using that by (intro returns_mono[OF Cons.IH]) auto
  have one: "returns s (case x of None \<Rightarrow> Some d | Some reg \<Rightarrow> scst_pr_unregister d reg) ?P"
    if x: "x = reg_for d tid (tgt_rel_tgt_id t)" for x
  proof (cases x)
    case (Some a)
    then obtain r where "reg_at d a = Some r" using reg_for_Some[OF inv_core[OF Cons.prems]] x by metis
    then show ?thesis using Some by (auto intro!: returns_mono[OF unregister_ok[OF Cons.prems]])
  qed (use Cons.prems in simp)
  have "returns s (do {
        r \<leftarrow> scst_pr_find_reg d (Some tid) (tgt_rel_tgt_id t);
        d \<leftarrow> (case r of None \<Rightarrow> Some d | Some reg \<Rightarrow> scst_pr_unregister d reg);
        unregister_tgts p tid ts d }) ?P"
    unfolding returns_bind
    by (rule returns_mono[OF find_reg_ok[OF inv_core[OF Cons.prems] assms(2)]], assumption,
        rule returns_mono[OF one], assumption, rule rest)
  then show ?case using Cons.IH[OF Cons.prems] by simp
qed simp

lemma reregister_ok:
  assumes inv: "pr_inv d" and td: "td < length (tgt_devs d)" and a: "reg_at d a \<noteq> None"
    and t: "s \<Longrightarrow> sess_transport_id (tgt_devs d ! td) \<noteq> None"
  shows "returns s (reregister d td a K all) (\<lambda>d'. pr_inv d' \<and> pr_static d' = pr_static d \<and>
     (K \<noteq> 0 \<longrightarrow> (\<exists>r. reg_at d' a = Some r \<and> reg_key r = K)) \<and>
     (K = 0 \<and> \<not> all \<longrightarrow> registrants d' = filter (\<lambda>(b, r). b \<noteq> a) (registrants d)))"
proof -
  obtain r where r: "reg_at d a = Some r" using a by auto
  have key: "pr_inv (upd_reg a (\<lambda>r. r\<lparr>reg_key := K\<rparr>) d)" if "K \<noteq> 0"
    using that inv core_upd_reg[OF inv_core[OF inv], of "\<lambda>r. r\<lparr>reg_key := K\<rparr>" a]
    by (auto simp: pr_inv_def list_all_iff upd_reg_def[of a _ d] split: if_splits)
  have "returns s (scst_pr_unregister_all_tg_pt d tid) (\<lambda>d'. pr_inv d' \<and> pr_static d' = pr_static d)"
    if "sess_transport_id (tgt_devs d ! td) = Some tid" for tid
  proof -
    have "tid_ok tid" using that td inv sess_tid_ok[of d "tgt_devs d ! td" tid] by (simp add: pr_inv_def pr_core_def)
    moreover from this have "rd tid 0 \<noteq> None" by (cases "rd tid 0") (simp_all add: tid_ok_def scst_tid_size_def)
    ultimately show ?thesis
      by (auto simp: scst_pr_unregister_all_tg_pt_def intro!: returns_mono[OF unregister_tgts_ok[OF inv]])
  qed
  then show ?thesis
    using unregister_ok[OF inv a] key r td t
    by (cases "sess_transport_id (tgt_devs d ! td)") (auto simp: reregister_def rd_def elim!: returns_mono)
qed

section \<open>Register\<close>

lemma register_result_ok:
  assumes "reg_done d cmd (rc, d', cmd')" and "\<And>g p. rc = 0 \<Longrightarrow> Q (d'\<lparr>pr_generation := g, pr_aptpl := p\<rparr>)"
  shows "returns s (if rc \<noteq> 0 then Some (d', cmd') else register_done cmd' aptpl d') (outcome Q d cmd)"
  using assms by (auto simp: reg_done_def register_done_def outcome_def split: if_splits)

lemma register_done_ok:
  assumes "pr_inv d'" "pr_static d' = pr_static d" "\<And>g p. Q (d'\<lparr>pr_generation := g, pr_aptpl := p\<rparr>)"
  shows "returns s (register_done cmd aptpl d') (outcome Q d cmd)"
  using assms by (auto simp: register_done_def intro!: outcome_ok)

text \<open>What REGISTER with the key \<open>K\<close> does for a registered nexus: it changes the key or
  removes the registrant.  For a new nexus the reservation stays what it is.\<close>

definition register_effect :: "pr_dev \<Rightarrow> nat \<Rightarrow> 64 word \<Rightarrow> bool \<Rightarrow> pr_dev \<Rightarrow> bool" where
  "register_effect d td K all_tg_pt d' =
     (case registrant (tgt_devs d ! td) of
        None \<Rightarrow> reservation d' = reservation d
      | Some a \<Rightarrow> (K \<noteq> 0 \<longrightarrow> (\<exists>r. reg_at d' a = Some r \<and> reg_key r = K)) \<and>
          (K = 0 \<and> \<not> all_tg_pt \<longrightarrow> registrants d' = filter (\<lambda>(b, r). b \<noteq> a) (registrants d)))"

lemma view_upds [simp]:
  "reservation (d\<lparr>pr_generation := g, pr_aptpl := p\<rparr>) = reservation d"
  "reg_at (d\<lparr>pr_generation := g, pr_aptpl := p\<rparr>) a = reg_at d a"
  by (simp_all add: reservation_def reg_at_def)

lemma register_new_ok:
  assumes inv: "pr_inv d" and cmd: "cmd_sense_ok cmd" and td: "td < length (tgt_devs d)"
    and t: "s \<Longrightarrow> sess_transport_id (tgt_devs d ! td) \<noteq> None" and s: "s \<Longrightarrow> spec \<Longrightarrow> spec_ok buffer"
    and K: "get_unaligned_be64 buffer 8 = Some K" "K \<noteq> 0" and n: "registrant (tgt_devs d ! td) = None"
  shows "returns s (do {
       (rc, d, cmd) \<leftarrow> do_pr_register d cmd td buffer spec all;
       (if rc \<noteq> 0 then Some (d, cmd) else register_done cmd aptpl d) }) (outcome (register_effect d td K all) d cmd)"
  unfolding returns_bind
proof (rule returns_mono[OF do_pr_register_ok[OF inv K cmd td t s]], assumption+, clarify)
  fix rc d' cmd'
  assume r: "reg_done d cmd (rc, d', cmd')"
  show "returns s (if rc \<noteq> 0 then Some (d', cmd') else register_done cmd' aptpl d')
      (outcome (register_effect d td K all) d cmd)"
    by (rule register_result_ok[OF r]) (use r n in \<open>auto simp: reg_done_def register_effect_def\<close>)
qed

lemma reregister_done_ok:
  assumes inv: "pr_inv d" and td: "td < length (tgt_devs d)" and n: "registrant (tgt_devs d ! td) = Some a"
    and a: "reg_at d a \<noteq> None" and t: "s \<Longrightarrow> sess_transport_id (tgt_devs d ! td) \<noteq> None"
  shows "returns s (do { d \<leftarrow> reregister d td a K all; register_done cmd aptpl d })
     (outcome (register_effect d td K all) d cmd)"
  unfolding returns_bind
  by (rule returns_mono[OF reregister_ok[OF inv td a t]], assumption, rule register_done_ok)
    (use n in \<open>auto simp: register_effect_def\<close>)

lemma registrant_at:
  assumes "pr_inv d" "td < length (tgt_devs d)" "registrant (tgt_devs d ! td) = Some a"
  shows "reg_at d a \<noteq> None"
  using assms links_okE[of d td a] by (auto simp: pr_inv_def pr_core_def)

lemma register_nothing_ok:
  assumes "pr_inv d" "registrant (tgt_devs d ! td) = None"
  shows "returns s (register_done cmd aptpl d) (outcome (register_effect d td K all) d cmd)"
  by (rule register_done_ok) (use assms in \<open>auto simp: register_effect_def\<close>)

lemma register_ok:
  assumes inv: "pr_inv d" and cmd: "cmd_sense_ok cmd" and td: "td < length (tgt_devs d)"
    and t: "s \<Longrightarrow> sess_transport_id (tgt_devs d ! td) \<noteq> None"
    and s: "s \<Longrightarrow> 24 \<le> length buffer \<and> (bit (buffer ! 20) 3 \<longrightarrow> spec_ok buffer)"
  shows "returns s (scst_pr_register d cmd td buffer) (outcome (\<lambda>d'. \<exists>K.
     get_unaligned_be64 buffer 8 = Some K \<and> register_effect d td K (bit (buffer ! 20) 2) d') d cmd)"
proof (cases "20 < length buffer")
  case False
  then show ?thesis using s by (auto simp: scst_pr_register_def rd_def)
next
  case True
  let ?Q = "\<lambda>d'. \<exists>K. get_unaligned_be64 buffer 8 = Some K \<and> register_effect d td K (bit (buffer ! 20) 2) d'"
  obtain key K where k: "get_unaligned_be64 buffer 0 = Some key" "get_unaligned_be64 buffer 8 = Some K"
    using True by (simp add: get_unaligned_be64_def rd_range_def)
  have spec: "s \<Longrightarrow> bit (buffer ! 20) 3 \<Longrightarrow> spec_ok buffer" using s by blast
  have Q: "?Q = register_effect d td K (bit (buffer ! 20) 2)" using k(2) by auto
  note fail = fails[OF inv cmd]
  show ?thesis
  proof (cases "registrant (tgt_devs d ! td)")
    case None
    then show ?thesis
      unfolding Q
      using register_new_ok[OF inv cmd td t spec k(2)] register_nothing_ok[OF inv None] True td
      by (auto simp: scst_pr_register_def k rd_def fail Let_def)
  next
    case (Some a)
    then obtain r where "reg_at d a = Some r" using registrant_at[OF inv td] by auto
    then show ?thesis
      unfolding Q
      using reregister_done_ok[OF inv td Some _ t] True td Some
      by (auto simp: scst_pr_register_def k rd_def fail Let_def)
  qed
qed

lemma register_and_ignore_ok:
  assumes inv: "pr_inv d" and cmd: "cmd_sense_ok cmd" and td: "td < length (tgt_devs d)"
    and t: "s \<Longrightarrow> sess_transport_id (tgt_devs d ! td) \<noteq> None" and s: "s \<Longrightarrow> 24 \<le> length buffer"
  shows "returns s (scst_pr_register_and_ignore d cmd td buffer) (outcome (\<lambda>d'. \<exists>K.
     get_unaligned_be64 buffer 8 = Some K \<and> register_effect d td K (bit (buffer ! 20) 2) d') d cmd)"
proof (cases "20 < length buffer")
  case False
  then show ?thesis using s by (auto simp: scst_pr_register_and_ignore_def rd_def)
next
  case True
  let ?Q = "\<lambda>d'. \<exists>K. get_unaligned_be64 buffer 8 = Some K \<and> register_effect d td K (bit (buffer ! 20) 2) d'"
  obtain K where k: "get_unaligned_be64 buffer 8 = Some K"
    using True by (simp add: get_unaligned_be64_def rd_range_def)
  have Q: "?Q = register_effect d td K (bit (buffer ! 20) 2)" using k by auto
  note fail = fails[OF inv cmd]
  show ?thesis
  proof (cases "registrant (tgt_devs d ! td)")
    case None
    then show ?thesis
      unfolding Q
      using register_new_ok[OF inv cmd td t _ k, of s False] register_nothing_ok[OF inv None] True td
      by (auto simp: scst_pr_register_and_ignore_def k rd_def fail Let_def)
  next
    case (Some a)
    then show ?thesis
      unfolding Q
      using reregister_done_ok[OF inv td Some registrant_at[OF inv td Some] t] True td Some
      by (auto simp: scst_pr_register_and_ignore_def k rd_def fail Let_def)
  qed
qed

section \<open>Register and move\<close>

lemma inv_added:
  assumes "pr_inv d" "new_ok r d"
  shows "pr_inv (added r d)"
  using core_added[OF inv_core[OF assms(1)] assms(2)] assms by (simp add: pr_inv_def new_ok_def)

lemma inv_set_key:
  assumes "pr_inv d" "K \<noteq> 0"
  shows "pr_inv (upd_reg a (\<lambda>r. r\<lparr>reg_key := K\<rparr>) d)"
  using assms core_upd_reg[OF inv_core[OF assms(1)], of "\<lambda>r. r\<lparr>reg_key := K\<rparr>" a]
  by (auto simp: pr_inv_def list_all_iff upd_reg_def[of a _ d] split: if_splits)

text \<open>The target of a move is registered with the new key for the given target port.\<close>

definition move_post :: "pr_dev \<Rightarrow> 16 word \<Rightarrow> 64 word \<Rightarrow> nat option \<times> pr_dev \<Rightarrow> bool" where
  "move_post d rel K = (\<lambda>(m, d'). pr_inv d' \<and> pr_static d' = pr_static d \<and> reservation d' = reservation d \<and>
     (case m of None \<Rightarrow> unchanged d d'
      | Some x \<Rightarrow> (\<exists>r. reg_at d' x = Some r \<and> reg_key r = K \<and> rel_tgt_id r = rel) \<and>
          (\<forall>a. reg_at d a \<noteq> None \<longrightarrow> reg_at d' a \<noteq> None)))"

lemma move_target_ok:
  assumes inv: "pr_inv d" and t: "s \<Longrightarrow> tid_ok tid" and K: "K \<noteq> 0"
  shows "returns s (move_target d tid rel K) (move_post d rel K)"
proof -
  note c = inv_core[OF inv]
  have add: "move_post d rel K x" if ar: "add_result d tid rel K x" for x
  proof -
    consider m where "x = (None, d\<lparr>env_mem := m\<rparr>)"
      | m r where "x = (Some (next_reg d), added r (d\<lparr>env_mem := m\<rparr>))" "new_ok r d" "reg_key r = K" "rel_tgt_id r = rel"
      using ar by (auto simp: add_result_def)
    then show ?thesis
    proof cases
      case (1 m)
      then show ?thesis using inv by (simp add: move_post_def reservation_def)
    next
      case (2 m r)
      have R: "pr_regs_ok (d\<lparr>env_mem := m\<rparr>)" using inv by (simp add: pr_inv_def pr_core_def pr_regs_ok_def)
      have "pr_inv (added r (d\<lparr>env_mem := m\<rparr>))" using inv 2(2) by (intro inv_added) auto
      moreover have "\<forall>a. reg_at d a \<noteq> None \<longrightarrow> reg_at (added r (d\<lparr>env_mem := m\<rparr>)) a \<noteq> None"
        by (simp add: reg_at_added[OF R]) (simp add: reg_at_def)
      ultimately show ?thesis
        using 2 reg_at_added[OF R, of r "next_reg d"] by (simp add: move_post_def reservation_def)
    qed
  qed
  have found: "move_post d rel K (Some a, upd_reg a (\<lambda>r. r\<lparr>reg_key := K\<rparr>) d)" if f: "reg_for d tid rel = Some a" for a
  proof -
    obtain r where "reg_at d a = Some r" "rel_tgt_id r = rel"
      using reg_for_Some[OF c f] by (auto simp: reg_matches_def)
    then show ?thesis using inv_set_key[OF inv K, of a] by (simp add: move_post_def reservation_def)
  qed
  have "returns s (scst_pr_add_registrant d tid rel K) (move_post d rel K)"
    by (rule returns_mono[OF add_registrant_ok[OF c t K]], assumption, rule add)
  note new = this
  show ?thesis
    unfolding move_target_def returns_bind
  proof (rule returns_mono[OF find_reg_ok[OF c t]], assumption)
    fix x
    assume "x = reg_for d tid rel"
    then show "returns s (case x of None \<Rightarrow> scst_pr_add_registrant d tid rel K
      | Some reg_move \<Rightarrow> Some (Some reg_move, upd_reg reg_move (\<lambda>r. r\<lparr>reg_key := K\<rparr>) d)) (move_post d rel K)"
      using found new by (cases "reg_for d tid rel") simp_all
  qed
qed

text \<open>After a move the reservation, if there still is one, belongs to a registrant of the target
  port with the new key.\<close>

definition move_effect :: "16 word \<Rightarrow> 64 word \<Rightarrow> pr_dev \<Rightarrow> bool" where
  "move_effect rel K d' = (pr_is_set d' \<longrightarrow>
     (\<exists>m r. pr_holder d' = Some m \<and> reg_at d' m = Some r \<and> reg_key r = K \<and> rel_tgt_id r = rel))"

lemma move_holder_ok:
  assumes inv: "pr_inv d" and set: "pr_is_set d" "\<not> all_reg (pr_type d)" and a: "reg_at d a \<noteq> None"
    and td: "td < length (tgt_devs d)" and p: "move_post d rel K (m, d')"
  shows "returns s (case m of
       None \<Rightarrow> do { cmd \<leftarrow> set_busy d' td cmd; Some (d', cmd) }
     | Some reg_move \<Rightarrow> do {
         let d = scst_pr_set_holder d' reg_move (pr_scope d') (pr_type d');
         d \<leftarrow> (if unreg then scst_pr_remove_registrant d a else Some d);
         register_done cmd aptpl d }) (outcome (move_effect rel K) d cmd)"
proof (cases m)
  case None
  then have "td < length (tgt_devs d')" using p td static_length[of d' d] by (simp add: move_post_def)
  then show ?thesis
    using None p by (auto simp: returns_bind outcome_def move_post_def intro!: returns_mono[OF set_busy_ok])
next
  case (Some x)
  then obtain r where r: "reg_at d' x = Some r" "reg_key r = K" "rel_tgt_id r = rel" and a': "reg_at d' a \<noteq> None"
    using p a by (auto simp: move_post_def)
  have inv': "pr_inv d'" and st: "pr_static d' = pr_static d" and res: "reservation d' = reservation d"
    using p by (auto simp: move_post_def)
  let ?d = "scst_pr_set_holder d' x (pr_scope d') (pr_type d')"
  have v: "scst_pr_type_valid (pr_type d')" "pr_scope d' = SCOPE_LU" and na: "\<not> all_reg (pr_type d')"
    using inv set res by (auto simp: reservation_def pr_inv_def pr_core_def pr_holder_ok_def)
  have i: "pr_inv ?d" by (rule inv_set_holder[OF inv' _ v]) (simp add: r(1))
  have h: "pr_holder ?d = Some x" "\<not> all_reg (pr_type ?d)"
    using na by (auto simp: scst_pr_set_holder_def)
  have eff: "move_effect rel K ?d" using r h by (simp add: move_effect_def)
  have rem: "returns s (scst_pr_remove_registrant ?d a) (\<lambda>d''. pr_inv d'' \<and> pr_static d'' = pr_static d \<and> move_effect rel K d'')"
  proof -
    obtain q where q: "reg_at ?d a = Some q" using a' by auto
    have L: "pr_links_ok ?d" using i by (simp add: pr_inv_def pr_core_def)
    have "move_effect rel K (without a ?d)"
    proof (cases "x = a")
      case True
      have "pr_is_set ?d" by (simp add: scst_pr_set_holder_def)
      then have "\<not> pr_is_set (without a ?d)"
        using h True unfolding without_def by (simp add: Let_def scst_pr_is_holder_def)
      then show ?thesis by (simp add: move_effect_def)
    next
      case False
      then have "\<not> scst_pr_is_holder ?d (Some a)" using h by (simp add: scst_pr_is_holder_def)
      then have "pr_holder (without a ?d) = Some x" using h(1) by (simp add: without_def Let_def)
      then show ?thesis using False r by (simp add: move_effect_def)
    qed
    then have "move_effect rel K (case reg_tgt_dev q of None \<Rightarrow> without a ?d | Some i \<Rightarrow> set_registrant i None (without a ?d))"
      by (auto simp: move_effect_def split: option.splits)
    then show ?thesis
      using remove_registrant_ok[OF inv_core[OF i] q, of True] remove_registrant_eq[OF q L] st
        inv_filter[OF i] by auto
  qed
  have "move_effect rel K (y\<lparr>pr_generation := g, pr_aptpl := p\<rparr>) = move_effect rel K y" for y g p
    by (simp add: move_effect_def)
  then have fin: "returns s (register_done cmd aptpl y) (outcome (move_effect rel K) d cmd)"
    if "pr_inv y \<and> pr_static y = pr_static d \<and> move_effect rel K y" for y
    using that by (intro register_done_ok) auto
  have "returns s (if unreg then scst_pr_remove_registrant ?d a else Some ?d)
      (\<lambda>y. pr_inv y \<and> pr_static y = pr_static d \<and> move_effect rel K y)"
    using rem i eff st by simp
  then show ?thesis
    using Some fin by (auto simp: returns_bind Let_def elim!: returns_mono)
qed

text \<open>The parameter list of REGISTER AND MOVE: its length field must not wrap around, and the header of
  the identifier must be in it.\<close>

definition move_ok :: "byte list \<Rightarrow> bool" where
  "move_ok buffer = (24 \<le> length buffer \<and> length buffer < 2 ^ 31 \<and>
     be_val (take 4 (drop 20 buffer)) + 24 < 2 ^ 32)"

lemma move_size:
  assumes "move_ok buffer" "get_unaligned_be32 buffer 20 = Some n" "\<not> of_nat (length buffer) < n + 24" "\<not> n < 24"
  shows "48 \<le> length buffer"
proof -
  let ?n = "be_val (take 4 (drop 20 buffer))"
  have n: "n = of_nat ?n" using assms(2) by (auto simp: get_unaligned_be32_def rd_range_def split: if_splits)
  have u: "unat n = ?n" using assms(1) unfolding n move_ok_def by (simp add: unat_of_nat)
  have "unat (n + 24) = ?n + 24"
    using assms(1) u by (simp add: unat_add_lem[THEN iffD1] move_ok_def)
  moreover have "unat (of_nat (length buffer) :: 32 word) = length buffer"
    using assms(1) by (simp add: unat_of_nat move_ok_def)
  ultimately have "?n + 24 \<le> length buffer" using assms(3) by (simp add: word_less_nat_alt)
  moreover have "24 \<le> ?n" using assms(4) u by (simp add: word_less_nat_alt)
  ultimately show ?thesis by simp
qed

lemma move_reservation_ok:
  assumes inv: "pr_inv d" and set: "pr_is_set d" "\<not> all_reg (pr_type d)" and a: "reg_at d a \<noteq> None"
    and td: "td < length (tgt_devs d)" and t: "s \<Longrightarrow> tid_ok tid" and K: "K \<noteq> 0"
  shows "returns s (move_reservation d cmd td a tid rel K unreg aptpl) (outcome (move_effect rel K) d cmd)"
  unfolding move_reservation_def returns_bind[of _ "move_target d tid rel K"]
  by (rule returns_mono[OF move_target_ok[OF inv t K]], assumption, clarify, rule move_holder_ok[OF inv set a td])

lemma move_checked_ok:
  assumes inv: "pr_inv d" and cmd: "cmd_sense_ok cmd" and td: "td < length (tgt_devs d)"
    and set: "pr_is_set d" and a: "reg_at d a \<noteq> None" and K: "K \<noteq> 0"
    and n: "scst_tid_size (drop 24 buffer) = Some n" "n + 24 \<le> length buffer"
  shows "returns s (do {
       tid \<leftarrow> tid_secure (drop 24 buffer);
       (if all_reg (pr_type d) then conflict d cmd
        else do {
          eq \<leftarrow> tid_equal (sess_transport_id (tgt_devs d ! td)) (Some tid);
          (if eq then fail_parm d cmd 24 0
           else move_reservation d cmd td a tid rel K unreg aptpl) }) }) (outcome (move_effect rel K) d cmd)"
proof -
  note fail = fails[OF inv cmd]
  have sec: "returns s (tid_secure (drop 24 buffer)) tid_ok"
    using n by (intro returns_mono[OF tid_secure_ok[OF n(1)]]) (auto simp: tid_ok_def)
  have eq: "returns s (tid_equal (sess_transport_id (tgt_devs d ! td)) (Some tid)) (\<lambda>_. True)" if "tid_ok tid" for tid
    using that td inv sess_tid_ok[of d "tgt_devs d ! td"]
    by (cases "sess_transport_id (tgt_devs d ! td)")
      (auto simp: pr_inv_def pr_core_def intro!: returns_mono[OF tid_equal_ok])
  show ?thesis
    unfolding returns_bind
  proof (rule returns_mono[OF sec])
    fix tid
    assume t: "tid_ok tid"
    show "returns s (if all_reg (pr_type d) then conflict d cmd
        else do {
          eq \<leftarrow> tid_equal (sess_transport_id (tgt_devs d ! td)) (Some tid);
          (if eq then fail_parm d cmd 24 0
           else move_reservation d cmd td a tid rel K unreg aptpl) }) (outcome (move_effect rel K) d cmd)"
      using move_reservation_ok[OF inv set _ a td t K]
      by (auto simp: fail returns_bind intro!: returns_mono[OF eq[OF t]])
  qed
qed

lemma register_and_move_ok:
  assumes inv: "pr_inv d" and cmd: "cmd_sense_ok cmd" and td: "td < length (tgt_devs d)"
    and reg: "s \<Longrightarrow> registrant (tgt_devs d ! td) \<noteq> None" and s: "s \<Longrightarrow> move_ok buffer"
  shows "returns s (scst_pr_register_and_move d cmd td buffer) (outcome (\<lambda>d'. \<exists>K rel.
     get_unaligned_be64 buffer 8 = Some K \<and> get_unaligned_be16 buffer 18 = Some rel \<and> move_effect rel K d') d cmd)"
    (is "returns s _ (outcome ?Q d cmd)")
proof (cases "24 \<le> length buffer")
  case False
  then show ?thesis
    using s by (auto simp: scst_pr_register_and_move_def returns_bind returns_rd returns_be move_ok_def)
next
  case True
  note fail = fails[OF inv cmd]
  obtain key K rel n where k: "get_unaligned_be64 buffer 0 = Some key" "get_unaligned_be64 buffer 8 = Some K"
      "get_unaligned_be16 buffer 18 = Some rel" "get_unaligned_be32 buffer 20 = Some n"
    using True by (simp add: get_unaligned_be64_def get_unaligned_be32_def get_unaligned_be16_def rd_range_def)
  have sz: "s \<Longrightarrow> scst_tid_size (drop 24 buffer) \<noteq> None" if "\<not> of_nat (length buffer) < n + 24" "\<not> n < 24"
    using move_size[OF s k(4) that]
    by (auto simp: scst_tid_size_def rd_def get_unaligned_be16_def rd_range_def)
  have mv: "returns s (do {
        size \<leftarrow> scst_tid_size (drop 24 buffer);
        (if size + 24 > length buffer then fail_sense d cmd ILLEGAL_REQUEST 0x26 0
        else do {
          tid \<leftarrow> tid_secure (drop 24 buffer);
          (if all_reg (pr_type d) then conflict d cmd
           else do {
             eq \<leftarrow> tid_equal (sess_transport_id (tgt_devs d ! td)) (Some tid);
             (if eq then fail_parm d cmd 24 0
              else move_reservation d cmd td a tid rel K unreg aptpl) }) }) }) (outcome ?Q d cmd)"
    if "reg_at d a = Some r" "pr_is_set d" "K \<noteq> 0" "\<not> of_nat (length buffer) < n + 24" "\<not> n < 24" for a r unreg aptpl
  proof (cases "scst_tid_size (drop 24 buffer)")
    case (Some n)
    note ok = move_checked_ok[OF inv cmd td that(2) _ that(3) Some]
    have "outcome (move_effect rel K) d cmd x \<Longrightarrow> outcome ?Q d cmd x" for x
      by (erule outcome_mono) (use k in auto)
    then show ?thesis
      using Some that(1) by (auto simp: fail not_less intro!: returns_mono[OF ok])
  qed (use sz that in auto)
  show ?thesis
    using True td mv
    by (auto simp: scst_pr_register_and_move_def k rd_def fail Let_def returns_bind[of _ "cmd_registrant d td"]
      intro!: returns_mono[OF cmd_registrant_ok[OF inv td reg]])
qed

section \<open>The handler\<close>

lemma out_checks_ok:
  assumes cmd: "cmd_sense_ok cmd" and td: "td < length (tgt_devs d)"
    and s: "s \<Longrightarrow> 20 < length buffer \<and> 2 < length (cdb cmd)"
  shows "returns s (scst_pr_out_checks d cmd td buffer action) (\<lambda>(ok, cmd').
     if ok then cmd' = cmd \<and>
       (action \<notin> {PR_REGISTER, PR_REGISTER_AND_IGNORE} \<longrightarrow> registrant (tgt_devs d ! td) \<noteq> None) \<and>
       (action \<notin> {PR_REGISTER, PR_REGISTER_AND_IGNORE, PR_CLEAR} \<longrightarrow> drop_bit 4 (cdb cmd ! 2) = SCOPE_LU)
     else failed cmd cmd')"
  using failed_reports(1,2)[OF cmd] failed_conflict[of cmd] td s
  by (auto simp: scst_pr_out_checks_def returns_bind returns_rd returns_if returns_map case_prod_unfold)

text \<open>What a parameter list must satisfy so that the handler stays within it: the code checks the
  size of most lists only after it has read some of their fields.\<close>

definition pr_parm_ok :: "scst_cmd \<Rightarrow> byte list \<Rightarrow> bool" where
  "pr_parm_ok cmd buffer = (2 < length (cdb cmd) \<and> (buffer = [] \<or> 24 \<le> length buffer \<and>
     (cdb cmd ! 1 AND 0x1f = PR_REGISTER \<and> bit (buffer ! 20) 3 \<longrightarrow> spec_ok buffer) \<and>
     (cdb cmd ! 1 AND 0x1f = PR_REGISTER_AND_MOVE \<longrightarrow> move_ok buffer)))"

lemma out_action_ok:
  assumes inv: "pr_inv d" and cmd: "cmd_sense_ok cmd" and td: "td < length (tgt_devs d)"
    and t: "s \<Longrightarrow> sess_transport_id (tgt_devs d ! td) \<noteq> None"
    and s: "s \<Longrightarrow> pr_parm_ok cmd buffer \<and> buffer \<noteq> [] \<and> action = cdb cmd ! 1 AND 0x1f"
    and reg: "action \<notin> {PR_REGISTER, PR_REGISTER_AND_IGNORE} \<Longrightarrow> registrant (tgt_devs d ! td) \<noteq> None"
    and scope: "action \<notin> {PR_REGISTER, PR_REGISTER_AND_IGNORE, PR_CLEAR} \<Longrightarrow> drop_bit 4 (cdb cmd ! 2) = SCOPE_LU"
  shows "returns s (scst_pr_out_action d cmd td buffer action) (\<lambda>(known, r). outcome (\<lambda>_. True) d cmd r)"
proof -
  have top: "returns s m (outcome Q d cmd) \<Longrightarrow> returns s m (outcome (\<lambda>_. True) d cmd)" for m Q
    by (erule returns_mono) (auto elim: outcome_mono)
  have len: "s \<Longrightarrow> 24 \<le> length buffer \<and> 2 < length (cdb cmd)" using s by (auto simp: pr_parm_ok_def)
  note base = inv cmd td
  let ?R = "\<lambda>m. returns s m (outcome (\<lambda>_. True) d cmd)"
  have "?R (scst_pr_register d cmd td buffer)" if "action = PR_REGISTER"
    by (rule top[OF register_ok[OF base t]]) (use that s in \<open>auto simp: pr_parm_ok_def\<close>)
  moreover have "?R (scst_pr_register_and_ignore d cmd td buffer)"
    by (rule top[OF register_and_ignore_ok[OF base t]]) (use len in auto)
  moreover have "?R (scst_pr_reserve d cmd td buffer) \<and> ?R (scst_pr_release d cmd td buffer) \<and> ?R (scst_pr_clear d cmd td buffer)"
    if "registrant (tgt_devs d ! td) \<noteq> None"
    using that len by (intro conjI top[OF reserve_ok[OF base]] top[OF release_ok[OF base]] top[OF clear_ok[OF base]]) auto
  moreover have "?R (scst_pr_preempt d cmd td buffer) \<and> ?R (scst_pr_preempt_and_abort d cmd td buffer)"
    if "registrant (tgt_devs d ! td) \<noteq> None" "drop_bit 4 (cdb cmd ! 2) = SCOPE_LU"
    unfolding scst_pr_preempt_def
    using that len by (intro conjI top[OF do_preempt_ok[OF base]] top[OF preempt_and_abort_ok[OF base]]) auto
  moreover have "?R (scst_pr_register_and_move d cmd td buffer)"
    if "registrant (tgt_devs d ! td) \<noteq> None" "action = PR_REGISTER_AND_MOVE"
    by (rule top[OF register_and_move_ok[OF base]]) (use that s in \<open>auto simp: pr_parm_ok_def\<close>)
  ultimately show ?thesis
    unfolding scst_pr_out_action_def returns_map returns_if
    using reg scope fails(2)[OF inv cmd] by (auto simp: pr_action_defs)
qed

text \<open>The result of the handler: the invariant holds, and when the command has an error status the
  device is as it was.\<close>

definition pr_out_post :: "pr_dev \<Rightarrow> bool \<times> pr_dev \<times> scst_cmd \<Rightarrow> bool" where
  "pr_out_post d = (\<lambda>(_, d', cmd'). pr_inv d' \<and> pr_static d' = pr_static d \<and>
     (cmd_status cmd' \<noteq> SAM_STAT_GOOD \<longrightarrow> unchanged d d'))"

lemma pr_out_post_same: "pr_inv d \<Longrightarrow> pr_out_post d (c, d, cmd')"
  by (simp add: pr_out_post_def)

lemma out_local_ok:
  assumes inv: "pr_inv d" and cmd: "cmd_sense_ok cmd" "cmd_status cmd = SAM_STAT_GOOD" and td: "td < length (tgt_devs d)"
    and t: "s \<Longrightarrow> sess_transport_id (tgt_devs d ! td) \<noteq> None" and s: "s \<Longrightarrow> pr_parm_ok cmd buffer"
  shows "returns s (scst_persistent_reserve_out_local aborted notify d cmd td buffer) (pr_out_post d)"
proof -
  have opcode: "returns s (do { (_, cmd) \<leftarrow> scst_set_cmd_error cmd ILLEGAL_REQUEST 0x20 0;
      Some (True, d, cmd\<lparr>completed := True\<rparr>) }) (pr_out_post d)"
    unfolding returns_bind
    by (rule returns_mono[OF failed_reports(3)[OF cmd(1)]]) (auto simp: pr_out_post_same[OF inv])
  let ?act = "cdb cmd ! 1 AND 0x1f"
  have fin: "pr_out_post d (pr_out_finish notify (known, d', cmd'))"
    if "outcome (\<lambda>_. True) d cmd (d', cmd')" for known d' cmd'
    using that cmd(2) by (auto simp: outcome_def failed_def pr_out_post_def pr_out_finish_def Let_def SAM_STAT_GOOD_def)
  have act: "returns s (scst_pr_out_action d cmd td buffer ?act) (\<lambda>x. pr_out_post d (pr_out_finish notify x))"
    if "buffer \<noteq> []"
      "?act \<notin> {PR_REGISTER, PR_REGISTER_AND_IGNORE} \<longrightarrow> registrant (tgt_devs d ! td) \<noteq> None"
      "?act \<notin> {PR_REGISTER, PR_REGISTER_AND_IGNORE, PR_CLEAR} \<longrightarrow> drop_bit 4 (cdb cmd ! 2) = SCOPE_LU"
  proof (rule returns_mono[OF out_action_ok[OF inv cmd(1) td t _ that(2,3)[rule_format]]])
    show "s \<Longrightarrow> pr_parm_ok cmd buffer \<and> buffer \<noteq> [] \<and> ?act = ?act" using s that(1) by blast
  qed (assumption+, clarify, rule fin)
  have checked: "returns s (if \<not> ok then Some (True, d, cmd'\<lparr>completed := True\<rparr>)
        else if aborted then Some (True, d, cmd')
        else map_option (pr_out_finish notify) (scst_pr_out_action d cmd' td buffer ?act)) (pr_out_post d)"
    if "buffer \<noteq> []" "if ok then cmd' = cmd \<and>
       (?act \<notin> {PR_REGISTER, PR_REGISTER_AND_IGNORE} \<longrightarrow> registrant (tgt_devs d ! td) \<noteq> None) \<and>
       (?act \<notin> {PR_REGISTER, PR_REGISTER_AND_IGNORE, PR_CLEAR} \<longrightarrow> drop_bit 4 (cdb cmd ! 2) = SCOPE_LU)
     else failed cmd cmd'" for ok cmd'
    using that(2) act[OF that(1)] pr_out_post_same[OF inv] by (cases ok) (simp_all add: returns_map)
  have "returns s (do {
       (ok, cmd) \<leftarrow> scst_pr_out_checks d cmd td buffer ?act;
       (if \<not> ok then Some (True, d, cmd\<lparr>completed := True\<rparr>)
        else if aborted then Some (True, d, cmd)
        else map_option (pr_out_finish notify) (scst_pr_out_action d cmd td buffer ?act)) }) (pr_out_post d)"
    if "buffer \<noteq> []"
    unfolding returns_bind
  proof (rule returns_mono[OF out_checks_ok[OF cmd(1) td]])
    show "s \<Longrightarrow> 20 < length buffer \<and> 2 < length (cdb cmd)" using s that by (auto simp: pr_parm_ok_def)
  next
    fix x
    assume "case x of (ok, cmd') \<Rightarrow> if ok then cmd' = cmd \<and>
       (?act \<notin> {PR_REGISTER, PR_REGISTER_AND_IGNORE} \<longrightarrow> registrant (tgt_devs d ! td) \<noteq> None) \<and>
       (?act \<notin> {PR_REGISTER, PR_REGISTER_AND_IGNORE, PR_CLEAR} \<longrightarrow> drop_bit 4 (cdb cmd ! 2) = SCOPE_LU)
     else failed cmd cmd'"
    then show "returns s (case x of (ok, cmd) \<Rightarrow> if \<not> ok then Some (True, d, cmd\<lparr>completed := True\<rparr>)
        else if aborted then Some (True, d, cmd)
        else map_option (pr_out_finish notify) (scst_pr_out_action d cmd td buffer ?act)) (pr_out_post d)"
      by (cases x) (simp only: prod.case checked[OF that])
  qed
  then show ?thesis
    using opcode s pr_out_post_same[OF inv]
    by (auto simp: scst_persistent_reserve_out_local_def rd_def pr_parm_ok_def Let_def simp del: One_nat_def)
qed

end
