(* ===== verification/Pres_Reach.thy ===== *)
theory Pres_Reach
  imports Pres_Out
begin

text \<open>
  The states a device can get into: nexuses come and go, PERSISTENT RESERVE OUT commands arrive
  with arbitrary parameter lists, and the environment decides about memory and targets.  Every
  such state satisfies the invariant, from which the guarantees of the reservations follow.
\<close>

section \<open>Nexuses that come and go\<close>

lemma links_ok_core: "pr_core d \<Longrightarrow> pr_links_ok d"
  by (simp add: pr_core_def)

lemma core_relink:
  assumes c: "pr_core d" and td: "td < length (tgt_devs d)" and r: "reg_at d a = Some r"
    and d': "d' = upd_reg a (\<lambda>r. r\<lparr>reg_tgt_dev := y\<rparr>) (set_registrant td x d)"
    and links: "pr_links_ok d'"
  shows "pr_core d'"
proof -
  have R: "pr_regs_ok d" using c by (simp add: pr_core_def)
  have dist: "distinct (map fst (registrants d'))" using R by (simp add: d' pr_regs_ok_def)
  have "pr_regs_ok d'"
    using dist
  proof (rule regs_okI)
    fix b q
    assume "reg_at d' b = Some q"
    then show "b < next_reg d' \<and> tid_ok (transport_id q) \<and> reg_key q \<noteq> 0"
      using regs_okD[OF R, of b] r by (auto simp: d' split: if_splits)
  qed
  moreover have "pr_holder_ok d'"
    using c by (auto simp: d' pr_core_def pr_holder_ok_def split: option.splits if_splits)
  moreover have "pr_sess_ok d'" using c sess_ok_static[of d' d] by (simp add: d' pr_core_def)
  ultimately show ?thesis using links by (simp add: pr_core_def)
qed

lemma core_link:
  assumes c: "pr_core d" and td: "td < length (tgt_devs d)" "registrant (tgt_devs d ! td) = None"
    and r: "reg_at d a = Some r" "reg_tgt_dev r = None"
  shows "pr_core (upd_reg a (\<lambda>r. r\<lparr>reg_tgt_dev := Some td\<rparr>) (set_registrant td (Some a) d))" (is "pr_core ?d")
proof (rule core_relink[OF c td(1) r(1) refl])
  note L = links_ok_core[OF c]
  show "pr_links_ok ?d"
  proof (rule links_okI)
    show "distinct (map fst (registrants ?d))" using c by (simp add: pr_core_def pr_regs_ok_def)
  next
    fix b q i
    assume q: "reg_at ?d b = Some q" "reg_tgt_dev q = Some i"
    show "i < length (tgt_devs ?d) \<and> registrant (tgt_devs ?d ! i) = Some b"
    proof (cases "b = a")
      case True
      then show ?thesis using q r td(1) by (auto simp: registrant_set_registrant)
    next
      case False
      then have "reg_at d b = Some q" using q(1) by simp
      from links_okD[OF L this q(2)] show ?thesis using td(2) by (auto simp: registrant_set_registrant)
    qed
  next
    fix b i
    assume i: "i < length (tgt_devs ?d)" "registrant (tgt_devs ?d ! i) = Some b"
    show "\<exists>q. reg_at ?d b = Some q \<and> reg_tgt_dev q = Some i"
    proof (cases "i = td")
      case True
      then show ?thesis using i r td(1) by (simp add: registrant_set_registrant)
    next
      case False
      then have "i < length (tgt_devs d)" "registrant (tgt_devs d ! i) = Some b"
        using i by (simp_all add: registrant_set_registrant)
      from links_okE[OF L this] obtain q where "reg_at d b = Some q" "reg_tgt_dev q = Some i" .
      then show ?thesis using r by auto
    qed
  qed
qed

lemma core_unlink:
  assumes c: "pr_core d" and td: "td < length (tgt_devs d)" "registrant (tgt_devs d ! td) = Some a"
    and r: "reg_at d a = Some r"
  shows "pr_core (upd_reg a (\<lambda>r. r\<lparr>reg_tgt_dev := None\<rparr>) (set_registrant td None d))" (is "pr_core ?d")
proof (rule core_relink[OF c td(1) r refl])
  note L = links_ok_core[OF c]
  have rt: "reg_tgt_dev r = Some td" using links_okE[OF L td] r by auto
  show "pr_links_ok ?d"
  proof (rule links_okI)
    show "distinct (map fst (registrants ?d))" using c by (simp add: pr_core_def pr_regs_ok_def)
  next
    fix b q i
    assume q: "reg_at ?d b = Some q" "reg_tgt_dev q = Some i"
    then have "b \<noteq> a" using r by auto
    then have "reg_at d b = Some q" using q(1) by simp
    from links_okD[OF L this q(2)] show "i < length (tgt_devs ?d) \<and> registrant (tgt_devs ?d ! i) = Some b"
      using td(2) \<open>b \<noteq> a\<close> by (auto simp: registrant_set_registrant)
  next
    fix b i
    assume i: "i < length (tgt_devs ?d)" "registrant (tgt_devs ?d ! i) = Some b"
    then have i': "i \<noteq> td" "i < length (tgt_devs d)" "registrant (tgt_devs d ! i) = Some b"
      by (auto simp: registrant_set_registrant split: if_splits)
    from links_okE[OF L i'(2,3)] obtain q where "reg_at d b = Some q" "reg_tgt_dev q = Some i" .
    then show "\<exists>q. reg_at ?d b = Some q \<and> reg_tgt_dev q = Some i" using rt r i'(1) by auto
  qed
qed

lemma inv_tgt_dev_field:
  assumes "pr_core x" "pr_inv d" "\<And>b r. reg_at x b = Some r \<Longrightarrow> \<exists>q. reg_at d b = Some q \<and> rollback_key r = rollback_key q"
  shows "pr_inv x"
proof -
  have "rollback_key r = 0" if "(b, r) \<in> set (registrants x)" for b r
  proof -
    have "reg_at x b = Some r" using that assms(1) reg_at_iff[of x b r] by (simp add: pr_core_def)
    then obtain q where "reg_at d b = Some q" "rollback_key r = rollback_key q" using assms(3) by blast
    then show ?thesis using assms(2) reg_at_mem[of d b q] by (auto simp: pr_inv_def list_all_iff)
  qed
  then show ?thesis using assms(1) by (auto simp: pr_inv_def list_all_iff)
qed

text \<open>A nexus is put on the device's list and initialised; a nexus is cleared and taken off the
  list, after which no identifier matches its place any more.\<close>

definition attach :: "scst_tgt_dev \<Rightarrow> pr_dev \<Rightarrow> pr_dev option" where
  "attach t d = scst_pr_init_tgt_dev (d\<lparr>tgt_devs := tgt_devs d @ [t]\<rparr>) (length (tgt_devs d))"

definition detach :: "nat \<Rightarrow> pr_dev \<Rightarrow> pr_dev option" where
  "detach td d = map_option (\<lambda>d. d\<lparr>tgt_devs := (tgt_devs d)[td := (tgt_devs d ! td)\<lparr>sess_transport_id := None\<rparr>]\<rparr>)
     (scst_pr_clear_tgt_dev d td)"

text \<open>The registrant of the nexus has no other nexus to go to, that is, there is one session for an
  initiator port and a target port.\<close>

definition only_nexus :: "pr_dev \<Rightarrow> nat \<Rightarrow> bool" where
  "only_nexus d td = (\<forall>a r. registrant (tgt_devs d ! td) = Some a \<longrightarrow> reg_at d a = Some r \<longrightarrow>
     find_other 0 (tgt_devs (set_registrant td None d)) td r = Some None)"

lemma regs_holder_fields:
  assumes "registrants d' = registrants d" "next_reg d' = next_reg d" "pr_is_set d' = pr_is_set d"
    "pr_scope d' = pr_scope d" "pr_type d' = pr_type d" "pr_holder d' = pr_holder d"
  shows "pr_regs_ok d' = pr_regs_ok d" "pr_holder_ok d' = pr_holder_ok d"
  unfolding pr_regs_ok_def pr_holder_ok_def reg_at_def assms by (rule refl)+

lemma inv_append:
  assumes inv: "pr_inv d" and t: "registrant t = None" "\<And>x. sess_transport_id t = Some x \<Longrightarrow> tid_ok x"
  shows "pr_inv (d\<lparr>tgt_devs := tgt_devs d @ [t]\<rparr>)" (is "pr_inv ?d")
proof -
  have c: "pr_core d" by (rule inv_core[OF inv])
  note L = links_ok_core[OF c]
  have at: "reg_at ?d b = reg_at d b" for b by (simp add: reg_at_def)
  have "pr_links_ok ?d"
  proof (rule links_okI)
    show "distinct (map fst (registrants ?d))" using distinct_regs[OF inv] by simp
  next
    fix b q i
    assume "reg_at ?d b = Some q" "reg_tgt_dev q = Some i"
    then show "i < length (tgt_devs ?d) \<and> registrant (tgt_devs ?d ! i) = Some b"
      using links_okD[OF L, of b q i] by (simp add: at nth_append)
  next
    fix b i
    assume "i < length (tgt_devs ?d)" "registrant (tgt_devs ?d ! i) = Some b"
    then have "i < length (tgt_devs d)" "registrant (tgt_devs d ! i) = Some b"
      using t(1) by (auto simp: nth_append less_Suc_eq split: if_splits)
    from links_okE[OF L this] show "\<exists>q. reg_at ?d b = Some q \<and> reg_tgt_dev q = Some i" unfolding at by blast
  qed
  moreover have "pr_regs_ok ?d" "pr_holder_ok ?d" using c regs_holder_fields[of ?d d] by (simp_all add: pr_core_def)
  moreover have "pr_sess_ok ?d" using c t(2) by (auto simp: pr_core_def pr_sess_ok_def split: option.splits)
  ultimately show ?thesis using inv by (simp add: pr_inv_def pr_core_def)
qed

lemma init_tgt_dev_inv:
  assumes inv: "pr_inv d" and td: "td < length (tgt_devs d)" "registrant (tgt_devs d ! td) = None"
  shows "returns s (scst_pr_init_tgt_dev d td) pr_inv"
proof (cases "sess_transport_id (tgt_devs d ! td)")
  case None
  then show ?thesis using td inv by (simp add: scst_pr_init_tgt_dev_def rd_def)
next
  case (Some tid)
  note c = inv_core[OF inv]
  have tid: "tid_ok tid" using c Some td sess_tid_ok[of d "tgt_devs d ! td" tid] by (simp add: pr_core_def)
  have link: "pr_inv (upd_reg a (\<lambda>r. r\<lparr>reg_tgt_dev := Some td\<rparr>) (set_registrant td (Some a) d))"
    if "reg_at d a = Some r" "reg_tgt_dev r = None" for a r
    by (rule inv_tgt_dev_field[OF core_link[OF c td that] inv]) (auto split: if_splits)
  have "returns s (case x of None \<Rightarrow> Some d
         | Some a \<Rightarrow> do {
             reg \<leftarrow> reg_at d a;
             (if reg_tgt_dev reg = None
              then Some (upd_reg a (\<lambda>r. r\<lparr>reg_tgt_dev := Some td\<rparr>) (set_registrant td (Some a) d))
              else Some d) }) pr_inv" if x: "x = reg_for d tid rel" for x rel
  proof (cases x)
    case (Some a)
    then obtain r where "reg_at d a = Some r" using reg_for_Some[OF c, of tid rel a] x by metis
    then show ?thesis using Some link inv by simp
  qed (use inv in simp)
  then show ?thesis
    using td Some unfolding scst_pr_init_tgt_dev_def
    by (auto simp: rd_def returns_bind[of _ "scst_pr_find_reg _ _ _"] intro!: returns_mono[OF find_reg_ok[OF c tid]])
qed

lemma attach_inv:
  assumes "pr_inv d" "registrant t = None" "\<And>x. sess_transport_id t = Some x \<Longrightarrow> tid_ok x"
  shows "returns s (attach t d) pr_inv"
  unfolding attach_def using inv_append[OF assms] assms(2) by (intro init_tgt_dev_inv) auto

lemma inv_forget:
  assumes "pr_inv d"
  shows "pr_inv (d\<lparr>tgt_devs := (tgt_devs d)[td := (tgt_devs d ! td)\<lparr>sess_transport_id := None\<rparr>]\<rparr>)" (is "pr_inv ?d")
proof -
  have c: "pr_core d" by (rule inv_core[OF assms])
  note L = links_ok_core[OF c]
  have at: "reg_at ?d b = reg_at d b" for b by (simp add: reg_at_def)
  have rg: "registrant (tgt_devs ?d ! i) = registrant (tgt_devs d ! i)" for i
    by (cases "td < length (tgt_devs d)"; cases "i = td") (simp_all add: list_update_beyond not_less)
  have "pr_links_ok ?d"
  proof (rule links_okI)
    show "distinct (map fst (registrants ?d))" using distinct_regs[OF assms] by simp
  next
    fix b q i
    assume "reg_at ?d b = Some q" "reg_tgt_dev q = Some i"
    then show "i < length (tgt_devs ?d) \<and> registrant (tgt_devs ?d ! i) = Some b"
      unfolding at rg using links_okD[OF L, of b q i] by simp
  next
    fix b i
    assume "i < length (tgt_devs ?d)" "registrant (tgt_devs ?d ! i) = Some b"
    then show "\<exists>q. reg_at ?d b = Some q \<and> reg_tgt_dev q = Some i"
      unfolding at rg using links_okE[OF L, of i b] by simp metis
  qed
  moreover have "pr_sess_ok ?d"
    using c by (auto simp: pr_core_def pr_sess_ok_def list_all_iff dest!: set_update_subset_insert[THEN subsetD])
  moreover have "pr_regs_ok ?d" "pr_holder_ok ?d" using c regs_holder_fields[of ?d d] by (simp_all add: pr_core_def)
  ultimately show ?thesis using assms by (simp add: pr_inv_def pr_core_def)
qed

lemma detach_inv:
  assumes inv: "pr_inv d" and td: "td < length (tgt_devs d)" and only: "only_nexus d td"
  shows "returns s (detach td d) pr_inv"
proof -
  note c = inv_core[OF inv]
  have clear: "returns s (scst_pr_clear_tgt_dev d td) (\<lambda>d'. pr_inv d' \<and> length (tgt_devs d') = length (tgt_devs d))"
  proof (cases "registrant (tgt_devs d ! td)")
    case None
    then show ?thesis using td inv by (simp add: scst_pr_clear_tgt_dev_def rd_def)
  next
    case (Some a)
    then obtain r where r: "reg_at d a = Some r" using registrant_at[OF inv td] by blast
    then have "find_other 0 (tgt_devs (set_registrant td None d)) td r = Some None"
      using only Some by (simp add: only_nexus_def)
    moreover have "pr_inv (upd_reg a (\<lambda>r. r\<lparr>reg_tgt_dev := None\<rparr>) (set_registrant td None d))"
      by (rule inv_tgt_dev_field[OF core_unlink[OF c td Some r] inv]) (auto split: if_splits)
    ultimately show ?thesis using td Some r by (simp add: scst_pr_clear_tgt_dev_def rd_def)
  qed
  have "pr_inv d' \<and> length (tgt_devs d') = length (tgt_devs d) \<Longrightarrow>
      pr_inv (d'\<lparr>tgt_devs := (tgt_devs d')[td := (tgt_devs d' ! td)\<lparr>sess_transport_id := None\<rparr>]\<rparr>)" for d'
    using inv_forget by blast
  then show ?thesis using clear by (auto simp: detach_def returns_map elim!: returns_mono)
qed

end
