(* ===== verification/Pres_Props.thy ===== *)
theory Pres_Props
  imports Pres_Reach
begin

text \<open>The states a device reaches from its creation by sessions coming and going and by PERSISTENT
  RESERVE OUT commands with arbitrary parameter lists, and the properties of the persistent
  reservations in them.\<close>

section \<open>Reachable states\<close>

inductive pr_reach :: "pr_dev \<Rightarrow> bool" where
  reach_init: "tgt_devs d = [] \<Longrightarrow> pr_reach (scst_pr_init d)"
| reach_env: "pr_reach d \<Longrightarrow> pr_reach (d\<lparr>env_mem := m, env_abort := f, tgts := ts, tas := b,
    dev_reserved := v, not_pr_supporting := n\<rparr>)"
| reach_attach: "pr_reach d \<Longrightarrow> registrant t = None \<Longrightarrow> (\<And>x. sess_transport_id t = Some x \<Longrightarrow> tid_ok x) \<Longrightarrow>
    attach t d = Some d' \<Longrightarrow> pr_reach d'"
| reach_detach: "pr_reach d \<Longrightarrow> td < length (tgt_devs d) \<Longrightarrow> only_nexus d td \<Longrightarrow> detach td d = Some d' \<Longrightarrow> pr_reach d'"
| reach_out: "pr_reach d \<Longrightarrow> td < length (tgt_devs d) \<Longrightarrow> cmd_sense_ok cmd \<Longrightarrow> cmd_status cmd = SAM_STAT_GOOD \<Longrightarrow>
    scst_persistent_reserve_out_local aborted notify d cmd td buffer = Some (c, d', cmd') \<Longrightarrow> pr_reach d'"
| reach_clear: "pr_reach d \<Longrightarrow> scst_pr_clear_dev d = Some d' \<Longrightarrow> pr_reach d'"

lemma init_inv: "tgt_devs d = [] \<Longrightarrow> pr_inv (scst_pr_init d)"
  by (simp add: scst_pr_init_def pr_inv_def core_defs)

lemma env_inv: "pr_inv d \<Longrightarrow> pr_inv (d\<lparr>env_mem := m, env_abort := f, tgts := ts, tas := b,
    dev_reserved := v, not_pr_supporting := n\<rparr>)"
  unfolding pr_inv_def by (subst core_fields[of _ d]) simp_all

lemma out_local_post:
  assumes "pr_inv d" "td < length (tgt_devs d)" "cmd_sense_ok cmd" "cmd_status cmd = SAM_STAT_GOOD"
    "scst_persistent_reserve_out_local aborted notify d cmd td buffer = Some (c, d', cmd')"
  shows "pr_inv d'" "pr_static d' = pr_static d" "cmd_status cmd' \<noteq> SAM_STAT_GOOD \<Longrightarrow> unchanged d d'"
proof -
  have "returns False (scst_persistent_reserve_out_local aborted notify d cmd td buffer) (pr_out_post d)"
    by (rule out_local_ok[OF assms(1,3,4,2)]) simp_all
  then have "pr_out_post d (c, d', cmd')" unfolding assms(5) returns_Some .
  then show "pr_inv d'" "pr_static d' = pr_static d" "cmd_status cmd' \<noteq> SAM_STAT_GOOD \<Longrightarrow> unchanged d d'"
    unfolding pr_out_post_def by blast+
qed

lemma reach_inv: "pr_reach d \<Longrightarrow> pr_inv d"
proof (induction rule: pr_reach.induct)
  case (reach_attach d t d')
  then show ?case by (blast intro: returnsD[OF attach_inv[where s = False]])
next
  case (reach_detach d td d')
  then show ?case by (blast intro: returnsD[OF detach_inv[where s = False]])
next
  case (reach_out d td cmd aborted notify buffer c d' cmd')
  show ?case by (rule out_local_post(1)[OF reach_out.IH reach_out.hyps(2-5)])
next
  case (reach_clear d d')
  have "returns False (scst_pr_clear_dev d) pr_inv"
    unfolding scst_pr_clear_dev_def scst_pr_remove_registrants_def
    by (rule returns_mono[OF remove_all_ok[OF reach_clear.IH]]) blast
  then show ?case using reach_clear by simp
qed (simp_all add: init_inv env_inv)

section \<open>Examples\<close>

text \<open>Two nexuses A and B of different initiator ports.  The states are those after both have logged
  in, after A and after B have registered the keys 10 and 11, and after A has made a reservation.\<close>

definition ex_a :: "byte list" where "ex_a = ex_tid ''iqn.a,i,1''"
definition ex_b :: "byte list" where "ex_b = ex_tid ''iqn.b,i,1''"

definition ex_nexus :: "byte list \<Rightarrow> nat option \<Rightarrow> scst_tgt_dev" where
  "ex_nexus tid r = \<lparr>sess_transport_id = Some tid, sess_rel_tgt_id = 1, sess_cmd_count = 1,
     sess_ready = True, registrant = r\<rparr>"

definition ex_reg :: "byte list \<Rightarrow> nat \<Rightarrow> nat \<Rightarrow> nat \<times> scst_dev_registrant" where
  "ex_reg tid a key = (a, \<lparr>transport_id = tid, rel_tgt_id = 1, reg_key = of_nat key, reg_tgt_dev = Some a,
     rollback_key = 0\<rparr>)"

definition ex_state0 :: pr_dev where
  "ex_state0 = \<lparr>pr_is_set = False, pr_scope = SCOPE_LU, pr_type = TYPE_UNSPECIFIED, pr_holder = None,
     pr_generation = 0, pr_aptpl = False, registrants = [], next_reg = 0, tgt_devs = [], tgts = [], tas = False,
     dev_reserved = False, pass_through = False, not_pr_supporting = 0, env_mem = [],
     env_abort = (\<lambda>_. True), pr_log = []\<rparr>"

definition ex_state1 :: pr_dev where
  "ex_state1 = ex_state0\<lparr>tgt_devs := [ex_nexus ex_a None, ex_nexus ex_b None]\<rparr>"

definition ex_state2 :: pr_dev where
  "ex_state2 = ex_state0\<lparr>tgt_devs := [ex_nexus ex_a (Some 0), ex_nexus ex_b None],
     registrants := [ex_reg ex_a 0 10], next_reg := 1, pr_generation := 1, pr_log := [Ev_sync]\<rparr>"

definition ex_state3 :: pr_dev where
  "ex_state3 = ex_state0\<lparr>tgt_devs := [ex_nexus ex_a (Some 0), ex_nexus ex_b (Some 1)],
     registrants := [ex_reg ex_a 0 10, ex_reg ex_b 1 11], next_reg := 2, pr_generation := 2,
     pr_log := [Ev_sync, Ev_sync]\<rparr>"

definition ex_state4 :: "byte \<Rightarrow> pr_dev" where
  "ex_state4 type = ex_state3\<lparr>pr_is_set := True, pr_scope := SCOPE_LU, pr_type := type, pr_holder := Some 0,
     pr_log := [Ev_sync, Ev_sync, Ev_sync]\<rparr>"

definition ex_pr_cmd :: "byte \<Rightarrow> byte \<Rightarrow> scst_cmd" where
  "ex_pr_cmd action type = ex_cmd\<lparr>cdb := [0x5F, action, type] @ replicate 13 0\<rparr>"

definition ex_parm :: "nat \<Rightarrow> nat \<Rightarrow> byte list" where
  "ex_parm key action_key = be_bytes 8 key @ be_bytes 8 action_key @ replicate 8 0"

lemma ex_cmd_ok [simp]: "cmd_sense_ok (ex_pr_cmd a t)" "cmd_status (ex_pr_cmd a t) = SAM_STAT_GOOD"
  "cdb (ex_pr_cmd a t) ! Suc 0 = a" "cdb (ex_pr_cmd a t) ! 2 = t" "length (cdb (ex_pr_cmd a t)) = 16"
  by (simp_all add: ex_pr_cmd_def ex_cmd_def cmd_sense_ok_def SAM_STAT_GOOD_def)

lemma ex_parm_ok [simp]: "length (ex_parm k j) = 24" "ex_parm k j \<noteq> []" "ex_parm k j ! 20 = 0"
  "get_unaligned_be64 (ex_parm k j) 0 = Some (of_nat (k mod 256 ^ 8))"
  "get_unaligned_be64 (ex_parm k j) 8 = Some (of_nat (j mod 256 ^ 8))"
  by (simp_all add: ex_parm_def get_unaligned_be64_def rd_range_def be_val_be_bytes nth_append)

lemma ex_tid_ok [simp]: "tid_ok ex_a" "tid_ok ex_b" "scst_tid_size ex_a = Some (length ex_a)"
  "scst_tid_size ex_b = Some (length ex_b)" "tid_equal (Some ex_a) (Some ex_a) = Some True"
  "tid_equal (Some ex_b) (Some ex_b) = Some True" "tid_equal (Some ex_a) (Some ex_b) = Some False"
  "tid_equal (Some ex_b) (Some ex_a) = Some False"
  by code_simp+

lemmas ex_defs = ex_state0_def ex_state1_def ex_state2_def ex_state3_def ex_state4_def ex_nexus_def ex_reg_def

lemmas out_defs = scst_persistent_reserve_out_local_def scst_pr_out_checks_def scst_pr_out_action_def
  pr_action_defs pr_out_finish_def scst_pr_register_def do_pr_register_def scst_pr_register_on_tgt_id_def
  register_self_def scst_pr_find_reg_def scst_pr_add_registrant_def register_done_def rd_def rd_range_def
  alloc_def log_def set_registrant_def reg_at_def upd_reg_def Let_def scst_pr_reserve_def cmd_registrant_def
  scst_pr_set_holder_def

lemma bind_weak: "m = m' \<Longrightarrow> Option.bind m f = Option.bind m' f"
  by simp

lemma ex_attach:
  "attach (ex_nexus ex_a None) ex_state0 = Some (ex_state0\<lparr>tgt_devs := [ex_nexus ex_a None]\<rparr>)"
  "attach (ex_nexus ex_b None) (ex_state0\<lparr>tgt_devs := [ex_nexus ex_a None]\<rparr>) = Some ex_state1"
  by (simp_all add: attach_def scst_pr_init_tgt_dev_def scst_pr_find_reg_def ex_defs rd_def)

lemma ex_out1:
  "scst_persistent_reserve_out_local False False ex_state1 (ex_pr_cmd PR_REGISTER 0) 0 (ex_parm 0 10) =
     Some (True, ex_state2, (ex_pr_cmd PR_REGISTER 0)\<lparr>completed := True\<rparr>)"
  by (simp add: out_defs ex_defs cong: bind_weak)


lemma ex_out2:
  "scst_persistent_reserve_out_local False False ex_state2 (ex_pr_cmd PR_REGISTER 0) 1 (ex_parm 0 11) =
     Some (True, ex_state3, (ex_pr_cmd PR_REGISTER 0)\<lparr>completed := True\<rparr>)"
  by (simp add: out_defs ex_defs cong: bind_weak)

lemma ex_out3:
  "type \<in> {TYPE_WRITE_EXCLUSIVE, TYPE_EXCLUSIVE_ACCESS, TYPE_EXCLUSIVE_ACCESS_REGONLY} \<Longrightarrow>
   scst_persistent_reserve_out_local False False ex_state3 (ex_pr_cmd PR_RESERVE type) 0 (ex_parm 10 0) =
     Some (True, ex_state4 type, (ex_pr_cmd PR_RESERVE type)\<lparr>completed := True\<rparr>)"
  by (elim insertE emptyE)
    (simp_all add: out_defs ex_defs pr_type_defs SCOPE_LU_def scst_pr_type_valid_def all_reg_def cong: bind_weak)

lemma ex_reach [simp]: "pr_reach ex_state1" "pr_reach ex_state2" "pr_reach ex_state3"
proof -
  have "pr_reach (scst_pr_init ex_state0)" by (rule reach_init) (simp add: ex_state0_def)
  then have "pr_reach ex_state0" by (simp add: scst_pr_init_def ex_state0_def)
  then show 1: "pr_reach ex_state1"
    by (rule reach_attach[OF reach_attach[OF _ _ _ ex_attach(1)] _ _ ex_attach(2)]) (auto simp: ex_nexus_def)
  show 2: "pr_reach ex_state2" by (rule reach_out[OF 1 _ _ _ ex_out1]) (simp_all add: ex_state1_def)
  show "pr_reach ex_state3" by (rule reach_out[OF 2 _ _ _ ex_out2]) (simp_all add: ex_state2_def)
qed

lemma ex_reserved [simp]:
  "type \<in> {TYPE_WRITE_EXCLUSIVE, TYPE_EXCLUSIVE_ACCESS, TYPE_EXCLUSIVE_ACCESS_REGONLY} \<Longrightarrow> pr_reach (ex_state4 type)"
  by (rule reach_out[OF ex_reach(3) _ _ _ ex_out3]) (simp_all add: ex_state3_def)

lemma ex_length [simp]: "length (tgt_devs ex_state1) = 2" "length (tgt_devs ex_state2) = 2"
  "length (tgt_devs ex_state3) = 2" "length (tgt_devs (ex_state4 t)) = 2"
  by (simp_all add: ex_defs)

lemma ex_fields [simp]: "pr_is_set (ex_state4 t)" "pr_type (ex_state4 t) = t" "pr_holder (ex_state4 t) = Some 0"
  "registrant (tgt_devs (ex_state4 t) ! 0) = Some 0" "registrant (tgt_devs (ex_state4 t) ! Suc 0) = Some 1"
  "op_flags ex_cmd = 0" "SCOPE_LU = 0" "drop_bit 4 (3 :: byte) = 0" "(3 :: byte) AND 15 = 3"
  by (simp_all add: ex_defs ex_cmd_def SCOPE_LU_def)

lemma one_nexus:
  assumes "pr_core d" "i < length (tgt_devs d)" "j < length (tgt_devs d)"
    "registrant (tgt_devs d ! i) = Some a" "registrant (tgt_devs d ! j) = Some a"
  shows "i = j"
proof -
  have l: "pr_links_ok d" using assms(1) by (simp add: pr_core_def)
  obtain r where "reg_at d a = Some r" "reg_tgt_dev r = Some i" by (rule links_okE[OF l assms(2,4)])
  moreover obtain r' where "reg_at d a = Some r'" "reg_tgt_dev r' = Some j" by (rule links_okE[OF l assms(3,5)])
  ultimately show ?thesis by simp
qed

section \<open>Properties\<close>



text \<open>C8. On a device in a reachable state the handler of PERSISTENT RESERVE OUT accesses no memory outside its
  objects, and uses no registrant that was freed, as long as the parameter list is well-formed: it has 24
  bytes, and the lengths of the transport identifiers it announces are inside it.\<close>

theorem pr_out_memory_safe:
  assumes "pr_reach d" "td < length (tgt_devs d)" "sess_transport_id (tgt_devs d ! td) \<noteq> None"
    and "cmd_sense_ok cmd" "cmd_status cmd = SAM_STAT_GOOD" "pr_parm_ok cmd buffer"
  shows "\<exists>completed d' cmd'. scst_persistent_reserve_out_local aborted notify d cmd td buffer = Some (completed, d', cmd')"
proof -
  have "returns True (scst_persistent_reserve_out_local aborted notify d cmd td buffer) (pr_out_post d)"
    by (rule out_local_ok[OF reach_inv[OF assms(1)] assms(4,5,2)]) (use assms in auto)
  then show ?thesis unfolding returns_ex by auto
qed

theorem pr_out_memory_safe_witness:
  "\<exists>completed d' cmd'. scst_persistent_reserve_out_local False False ex_state3 (ex_pr_cmd PR_PREEMPT 3) 1 (ex_parm 11 10) =
     Some (completed, d', cmd')"
  by (rule pr_out_memory_safe[OF ex_reach(3)])
    (simp_all add: ex_state3_def ex_nexus_def pr_parm_ok_def pr_action_defs)



text \<open>C4. Mutual exclusion: while a reservation of the types write exclusive or exclusive access is set, two
  nexuses whose commands the reservation check lets through, neither command being exempt from the check,
  are the same nexus.\<close>

theorem reservation_exclusive:
  assumes "pr_reach d" "pr_is_set d" "i < length (tgt_devs d)" "j < length (tgt_devs d)"
    and "pr_type d = TYPE_WRITE_EXCLUSIVE \<and> flag = SCST_WRITE_EXCL_ALLOWED \<or>
         pr_type d = TYPE_EXCLUSIVE_ACCESS \<and> flag = SCST_EXCL_ACCESS_ALLOWED"
    and "op_flags x AND flag = 0" "op_flags y AND flag = 0"
    and "scst_pr_is_cmd_allowed d x i = Some True" "scst_pr_is_cmd_allowed d y j = Some True"
  shows "i = j"
proof -
  have "registrant (tgt_devs d ! i) = pr_holder d" "registrant (tgt_devs d ! j) = pr_holder d" "pr_holder d \<noteq> None"
    using assms by (auto simp: scst_pr_is_cmd_allowed_def rd_def Let_def pr_type_defs dest: sym split: if_splits)
  then show ?thesis
    using one_nexus[OF inv_core[OF reach_inv[OF assms(1)]] assms(3,4)] by auto
qed

theorem reservation_exclusive_witness:
  "scst_pr_is_cmd_allowed (ex_state4 TYPE_EXCLUSIVE_ACCESS) ex_cmd 0 = Some True \<and>
   scst_pr_is_cmd_allowed (ex_state4 TYPE_EXCLUSIVE_ACCESS) ex_cmd 1 \<noteq> Some True"
proof -
  have a: "scst_pr_is_cmd_allowed (ex_state4 TYPE_EXCLUSIVE_ACCESS) ex_cmd 0 = Some True"
    by (simp add: scst_pr_is_cmd_allowed_def rd_def pr_type_defs)
  have "\<not> scst_pr_is_cmd_allowed (ex_state4 TYPE_EXCLUSIVE_ACCESS) ex_cmd 1 = Some True"
  proof
    assume "scst_pr_is_cmd_allowed (ex_state4 TYPE_EXCLUSIVE_ACCESS) ex_cmd 1 = Some True"
    with a have "(0::nat) = 1"
      by (intro reservation_exclusive[of "ex_state4 TYPE_EXCLUSIVE_ACCESS" 0 1 SCST_EXCL_ACCESS_ALLOWED ex_cmd ex_cmd])
        simp_all
    then show False by simp
  qed
  with a show ?thesis by simp
qed



text \<open>C26. A RESERVE that ends with the status good leaves a reservation of the type it asked for, held by its
  nexus; so a reservation of another nexus, or of another type, is never replaced.\<close>

theorem reserve_gives_reservation:
  assumes "pr_reach d" "td < length (tgt_devs d)" "cmd_sense_ok cmd" "cmd_status cmd = SAM_STAT_GOOD"
    and "scst_pr_reserve d cmd td buffer = Some (d', cmd')" "cmd_status cmd' = SAM_STAT_GOOD"
  shows "pr_is_set d' \<and> pr_type d' = cdb cmd ! 2 AND 0x0f \<and> scst_pr_is_holder d' (registrant (tgt_devs d' ! td)) \<and>
    registrants d' = registrants d \<and> (pr_is_set d \<longrightarrow> d' = d)"
proof -
  have "returns False (scst_pr_reserve d cmd td buffer) (outcome (\<lambda>d'. pr_is_set d' \<and>
     pr_type d' = cdb cmd ! 2 AND 0x0f \<and> scst_pr_is_holder d' (registrant (tgt_devs d ! td)) \<and>
     registrants d' = registrants d \<and> tgt_devs d' = tgt_devs d) d cmd)"
    by (rule reserve_ok[OF reach_inv[OF assms(1)] assms(3,2)]) simp_all
  moreover have "d' = d" if "pr_is_set d"
    using assms(5) that by (auto simp: scst_pr_reserve_def bind_eq_Some_conv Let_def conflict_def fail_sense_def
      fail_cdb_def split: if_splits)
  ultimately show ?thesis using assms(5,6) by (auto simp: outcome_def failed_def SAM_STAT_GOOD_def)
qed

theorem reserve_gives_reservation_witness:
  "\<exists>d'. scst_pr_reserve ex_state3 (ex_pr_cmd PR_RESERVE 3) 0 (ex_parm 10 0) = Some (d', ex_pr_cmd PR_RESERVE 3) \<and>
     pr_is_set d' \<and> pr_type d' = 3"
proof -
  have run: "scst_pr_reserve ex_state3 (ex_pr_cmd PR_RESERVE 3) 0 (ex_parm 10 0) =
      Some (scst_pr_set_holder ex_state3 0 0 3, ex_pr_cmd PR_RESERVE 3)"
    by (simp add: out_defs ex_defs pr_type_defs SCOPE_LU_def scst_pr_type_valid_def all_reg_def cong: bind_weak)
  show ?thesis using reserve_gives_reservation[OF _ _ _ _ run] run by simp
qed




text \<open>The parameter list of a REGISTER AND MOVE to the nexus B.\<close>

definition ex_move :: "byte list" where
  "ex_move = [0, 0, 0, 0, 0, 0, 0, 10, 0, 0, 0, 0, 0, 0, 0, 12, 0, 0, 0, 1, 0, 0, 0, 24,
     0x45, 0, 0, 12] @ map of_char ''iqn.b,i,1'' @ replicate 11 0"

lemma ex_move_keys [simp]: "get_unaligned_be64 ex_move 0 = Some 10" "get_unaligned_be64 ex_move 8 = Some 12"
  "get_unaligned_be16 ex_move 18 = Some 1" "get_unaligned_be32 ex_move 20 = Some 24" "ex_move ! 17 = 0"
  by (simp_all add: ex_move_def get_unaligned_be64_def get_unaligned_be16_def get_unaligned_be32_def rd_range_def)

lemma ex_move_tid [simp]: "length ex_move = 48" "scst_tid_size (drop 24 ex_move) = Some 16"
  "tid_equal (Some ex_b) (Some (drop 24 ex_move)) = Some True"
  "tid_equal (Some ex_a) (Some (drop 24 ex_move)) = Some False" "tid_secure (drop 24 ex_move) = Some (drop 24 ex_move)"
  by code_simp+


text \<open>A parameter list with two identifiers of FC ports and the length 2 ^ 32 - 1.\<close>

definition ex_spec_i_pt :: "byte list" where
  "ex_spec_i_pt = [0, 0, 0, 0, 0, 0, 0, 0, 0, 0, 0, 0, 0, 0, 0, 10, 0, 0, 0, 0, 8, 0, 0, 0, 255, 255, 255, 255] @
     replicate 24 0"

lemma ex_spec_keys: "get_unaligned_be64 ex_spec_i_pt 0 = Some 0" "get_unaligned_be64 ex_spec_i_pt 8 = Some 10"
  "get_unaligned_be32 ex_spec_i_pt 24 = Some (- 1)" "ex_spec_i_pt ! 20 = 8" "length ex_spec_i_pt = 52" "ex_spec_i_pt \<noteq> []"
  by (simp_all add: ex_spec_i_pt_def get_unaligned_be64_def get_unaligned_be32_def rd_range_def)

lemma secure_tids_zero:
  assumes "28 + offset < length buffer" "buffer ! (28 + offset) = 0" "offset + 24 \<le> n"
  shows "secure_tids n offset buffer = secure_tids n (offset + 24) buffer"
proof -
  have "rd (drop (28 + offset) buffer) 0 = Some 0" using assms(1,2) by (simp add: rd_def)
  then show ?thesis
    using assms(3) by (subst secure_tids.simps)
      (simp add: scst_tid_size_def tid_secure_def SCSI_TRANSPORTID_PROTOCOLID_ISCSI_def TID_COMMON_SIZE_def)
qed

lemma secure_tids_end:
  "length buffer \<le> 28 + offset \<Longrightarrow> offset < n \<Longrightarrow> secure_tids n offset buffer = None"
  by (subst secure_tids.simps) (simp add: scst_tid_size_def rd_def)

lemma ex_spec_overrun: "secure_tids (unat (- 1 :: 32 word)) 0 ex_spec_i_pt = None"
proof -
  have n: "unat (- 1 :: 32 word) = 4294967295" by (simp add: unsigned_minus_1_eq_mask mask_eq_exp_minus_1)
  have "ex_spec_i_pt ! 28 = 0" by (simp add: ex_spec_i_pt_def)
  then show ?thesis
    using secure_tids_zero[of 0 ex_spec_i_pt "4294967295"] secure_tids_end[of ex_spec_i_pt 24 "4294967295"]
    unfolding n by (simp add: ex_spec_keys)
qed


end
