(* ===== verification/Pres_In.thy ===== *)
theory Pres_In
  imports Pres_Props
begin

text \<open>
  The service actions of PERSISTENT RESERVE IN, which report registrants and reservation, and the handler of
  the command (\<^verbatim>\<open>scst_pres.c\<close>, \<^verbatim>\<open>scst_targ.c\<close>).  Each service action fills the buffer of the
  command and sets the length of the response.  Writes outside of the buffer are \<^term>\<open>None\<close>.
\<close>

section \<open>Service actions\<close>

definition put_be :: "nat \<Rightarrow> nat \<Rightarrow> nat \<Rightarrow> byte list \<Rightarrow> byte list option" where
  "put_be n v off buffer = wr_range off (be_bytes n v) buffer"

text \<open>The end of each service action: the response has \<open>n\<close> bytes.\<close>

definition pr_respond :: "scst_cmd \<Rightarrow> nat \<times> byte list \<Rightarrow> (byte list \<times> scst_cmd) option" where
  "pr_respond cmd = (\<lambda>(n, buffer). do {
     cmd \<leftarrow> scst_set_resp_data_len cmd (of_nat n);
     Some (buffer, cmd) })"

fun read_keys_loop ::
  "scst_dev_registrant list \<Rightarrow> nat \<Rightarrow> nat \<Rightarrow> nat \<Rightarrow> byte list \<Rightarrow> (nat \<times> nat \<times> byte list) option" where
  "read_keys_loop [] size_max offset size' buffer = Some (offset, size', buffer)"
| "read_keys_loop (reg # regs) size_max offset size' buffer =
     (if size_max \<ge> size' + 8 then do {
        buffer \<leftarrow> put_be 8 (unat (reg_key reg)) offset buffer;
        read_keys_loop regs size_max (offset + 8) (size' + 8) buffer }
      else read_keys_loop regs size_max offset (size' + 8) buffer)"

definition read_keys_data :: "pr_dev \<Rightarrow> byte list \<Rightarrow> (nat \<times> byte list) option" where
  "read_keys_data d buffer =
     (if length buffer < 8 then Some (0, buffer)
      else do {
        let n = length buffer;
        buffer \<leftarrow> put_be 4 (unat (pr_generation d)) 0 buffer;
        (offset, size', buffer) \<leftarrow> read_keys_loop (map snd (registrants d)) (n - 8) 8 0 buffer;
        buffer \<leftarrow> put_be 4 size' 4 buffer;
        Some (offset, buffer) })"

definition scst_pr_read_keys :: "pr_dev \<Rightarrow> scst_cmd \<Rightarrow> byte list \<Rightarrow> (byte list \<times> scst_cmd) option" where
  "scst_pr_read_keys d cmd buffer = do {
     r \<leftarrow> read_keys_data d buffer;
     pr_respond cmd r }"

text \<open>The response is composed in a local array of 24 bytes, of which as many as fit are copied.\<close>

definition read_reservation_data :: "pr_dev \<Rightarrow> byte list \<Rightarrow> (nat \<times> byte list) option" where
  "read_reservation_data d buffer = do {
     let b = replicate 24 0;
     (n, b) \<leftarrow>
       (if length buffer < 8 then Some (0, b)
        else do {
          b \<leftarrow> put_be 4 (unat (pr_generation d)) 0 b;
          (if \<not> pr_is_set d then do {
             b \<leftarrow> wr_range 4 [0, 0, 0, 0] b;
             Some (8, b) }
           else do {
             key \<leftarrow> (case pr_holder d of None \<Rightarrow> Some 0 | Some a \<Rightarrow> map_option reg_key (reg_at d a));
             b \<leftarrow> wr_range 4 [0, 0, 0, 0x10] b;
             b \<leftarrow> put_be 8 (unat key) 8 b;
             b \<leftarrow> wr_range 21 [push_bit 4 (pr_scope d) OR pr_type d] b;
             Some (24, b) }) });
     let n = min n (length buffer);
     src \<leftarrow> rd_range b 0 n;
     buffer \<leftarrow> wr_range 0 src buffer;
     buffer \<leftarrow> wr_range n (replicate (length buffer - n) 0) buffer;
     Some (n, buffer) }"

definition scst_pr_read_reservation :: "pr_dev \<Rightarrow> scst_cmd \<Rightarrow> byte list \<Rightarrow> (byte list \<times> scst_cmd) option" where
  "scst_pr_read_reservation d cmd buffer = do {
     r \<leftarrow> read_reservation_data d buffer;
     pr_respond cmd r }"

text \<open>The capabilities, with the state file supported.  The bytes 6 and 7 are part of the response and are not
  written.\<close>

definition report_caps_data :: "pr_dev \<Rightarrow> byte list \<Rightarrow> (nat \<times> byte list) option" where
  "report_caps_data d buffer =
     (if length buffer < 8 then Some (0, buffer)
      else do {
        buffer \<leftarrow> wr_range 0 [0, 8, 0x1d, if pr_aptpl d then 0xc1 else 0xc0, 0xEA, 1] buffer;
        Some (8, buffer) })"

definition scst_pr_report_caps :: "pr_dev \<Rightarrow> scst_cmd \<Rightarrow> byte list \<Rightarrow> (byte list \<times> scst_cmd) option" where
  "scst_pr_report_caps d cmd buffer = do {
     r \<leftarrow> report_caps_data d buffer;
     pr_respond cmd r }"

text \<open>One full status descriptor at \<open>offset\<close>.\<close>

definition put_status ::
  "pr_dev \<Rightarrow> nat \<Rightarrow> scst_dev_registrant \<Rightarrow> nat \<Rightarrow> nat \<Rightarrow> byte list \<Rightarrow> byte list option" where
  "put_status d a reg ts offset buffer = do {
     buffer \<leftarrow> wr_range offset (replicate (24 + ts) 0) buffer;
     buffer \<leftarrow> put_be 8 (unat (reg_key reg)) offset buffer;
     buffer \<leftarrow> (if pr_is_set d \<and> scst_pr_is_holder d (Some a)
              then wr_range (offset + 12) [1, push_bit 4 (pr_scope d) OR pr_type d] buffer
              else Some buffer);
     buffer \<leftarrow> put_be 2 (unat (rel_tgt_id reg)) (offset + 18) buffer;
     buffer \<leftarrow> put_be 4 ts (offset + 20) buffer;
     tid \<leftarrow> rd_range (transport_id reg) 0 ts;
     wr_range (offset + 24) tid buffer }"

fun full_status_loop ::
  "pr_dev \<Rightarrow> (nat \<times> scst_dev_registrant) list \<Rightarrow> nat \<Rightarrow> nat \<Rightarrow> nat \<Rightarrow> byte list \<Rightarrow> (nat \<times> nat \<times> byte list) option" where
  "full_status_loop d [] size_max offset size' buffer = Some (offset, size', buffer)"
| "full_status_loop d ((a, reg) # regs) size_max offset size' buffer = do {
     ts \<leftarrow> scst_tid_size (transport_id reg);
     let rec_len = 24 + ts;
     (if size_max > size' + rec_len then do {
        buffer \<leftarrow> put_status d a reg ts offset buffer;
        full_status_loop d regs size_max (offset + rec_len) (size' + rec_len) buffer }
      else full_status_loop d regs size_max offset (size' + rec_len) buffer) }"

definition read_full_status_data :: "pr_dev \<Rightarrow> byte list \<Rightarrow> (nat \<times> byte list) option" where
  "read_full_status_data d buffer =
     (if length buffer < 8 then Some (0, buffer)
      else do {
        let n = length buffer;
        buffer \<leftarrow> put_be 4 (unat (pr_generation d)) 0 buffer;
        (offset, size', buffer) \<leftarrow> full_status_loop d (registrants d) (n - 8) 8 0 buffer;
        buffer \<leftarrow> put_be 4 size' 4 buffer;
        Some (offset, buffer) })"

definition scst_pr_read_full_status :: "pr_dev \<Rightarrow> scst_cmd \<Rightarrow> byte list \<Rightarrow> (byte list \<times> scst_cmd) option" where
  "scst_pr_read_full_status d cmd buffer = do {
     r \<leftarrow> read_full_status_data d buffer;
     pr_respond cmd r }"

section \<open>The handler\<close>

definition PR_READ_KEYS :: byte where "PR_READ_KEYS = 0"
definition PR_READ_RESERVATION :: byte where "PR_READ_RESERVATION = 1"
definition PR_REPORT_CAPS :: byte where "PR_REPORT_CAPS = 2"
definition PR_READ_FULL_STATUS :: byte where "PR_READ_FULL_STATUS = 3"

definition pr_in_action :: "pr_dev \<Rightarrow> scst_cmd \<Rightarrow> byte list \<Rightarrow> byte \<Rightarrow> (byte list \<times> scst_cmd) option" where
  "pr_in_action d cmd buffer action =
     (if action = PR_READ_KEYS then scst_pr_read_keys d cmd buffer
      else if action = PR_READ_RESERVATION then scst_pr_read_reservation d cmd buffer
      else if action = PR_REPORT_CAPS then scst_pr_report_caps d cmd buffer
      else if action = PR_READ_FULL_STATUS then scst_pr_read_full_status d cmd buffer
      else do {
        (_, cmd) \<leftarrow> scst_set_invalid_field_in_cdb cmd 1 (BIT_OFFS 0);
        Some (buffer, cmd) })"

definition scst_persistent_reserve_in_local ::
  "bool \<Rightarrow> pr_dev \<Rightarrow> scst_cmd \<Rightarrow> byte list \<Rightarrow> (byte list \<times> scst_cmd) option" where
  "scst_persistent_reserve_in_local aborted d cmd buffer =
     (if not_pr_supporting d \<noteq> 0 then do {
        (_, cmd) \<leftarrow> scst_set_cmd_error cmd ILLEGAL_REQUEST 0x20 0;
        Some (buffer, cmd) }
      else if dev_reserved d
        then Some (buffer, snd (scst_set_cmd_error_status cmd SAM_STAT_RESERVATION_CONFLICT))
      else if pass_through d then do {
        (_, cmd) \<leftarrow> scst_set_cmd_error cmd ILLEGAL_REQUEST 0x20 0;
        Some (buffer, cmd) }
      else if buffer = [] then Some (buffer, cmd)
      else if aborted then Some (buffer, cmd)
      else do {
        c1 \<leftarrow> rd (cdb cmd) 1;
        (buffer, cmd) \<leftarrow> pr_in_action d cmd buffer (c1 AND 0x1f);
        Some (buffer, cmd\<lparr>completed := True\<rparr>) })"

section \<open>READ KEYS\<close>

lemma put_be_Some: "off + n \<le> length buffer \<Longrightarrow> put_be n v off buffer = Some (overwrite off (be_bytes n v) buffer)"
  by (simp add: put_be_def wr_range_def)

definition key_bytes :: "scst_dev_registrant list \<Rightarrow> byte list" where
  "key_bytes regs = concat (map (\<lambda>r. be_bytes 8 (unat (reg_key r))) regs)"

lemma key_bytes_simps [simp]:
  "key_bytes [] = []" "key_bytes (r # rs) = be_bytes 8 (unat (reg_key r)) @ key_bytes rs"
  by (simp_all add: key_bytes_def)

lemma length_key_bytes [simp]: "length (key_bytes regs) = 8 * length regs"
  by (induction regs) simp_all

lemma read_keys_full:
  "size_max < size' + 8 \<Longrightarrow> read_keys_loop regs size_max offset size' buffer = Some (offset, size' + 8 * length regs, buffer)"
  by (induction regs arbitrary: size') auto

lemma read_keys_loop_ok:
  assumes "size_max + 8 \<le> length buffer" "offset = 8 + size'" "size' \<le> size_max"
  shows "read_keys_loop regs size_max offset size' buffer =
    (let k = min (length regs) ((size_max - size') div 8)
     in Some (offset + 8 * k, size' + 8 * length regs, overwrite offset (key_bytes (take k regs)) buffer))"
  using assms
proof (induction regs arbitrary: size' offset buffer)
  case (Cons reg regs)
  show ?case
  proof (cases "size_max \<ge> size' + 8")
    case True
    let ?b = "overwrite offset (be_bytes 8 (unat (reg_key reg))) buffer"
    let ?k = "min (length regs) ((size_max - (size' + 8)) div 8)"
    have k: "(size_max - size') div 8 = Suc ((size_max - (size' + 8)) div 8)"
      using True by (simp add: le_div_geq)
    have le: "offset + 8 + 8 * ?k \<le> length buffer" using True Cons.prems(1,2) by linarith
    have "overwrite (offset + 8) (key_bytes (take ?k regs)) ?b = overwrite offset (key_bytes (reg # take ?k regs)) buffer"
      using overwrite_append[of offset "be_bytes 8 (unat (reg_key reg))" "key_bytes (take ?k regs)" buffer] le
      by simp
    moreover have "read_keys_loop regs size_max (offset + 8) (size' + 8) ?b =
        Some (offset + 8 + 8 * ?k, size' + 8 + 8 * length regs, overwrite (offset + 8) (key_bytes (take ?k regs)) ?b)"
      using Cons.IH[of ?b "offset + 8" "size' + 8"] True Cons.prems le by (simp add: Let_def)
    ultimately show ?thesis
      using True le by (simp add: put_be_Some k Let_def)
  next
    case False
    then show ?thesis using read_keys_full[of size_max size' "reg # regs" offset buffer] by simp
  qed
qed simp

text \<open>READ KEYS reports the generation, the length of all keys and, in order, as many keys as fit.\<close>

lemma read_keys_lists:
  assumes "8 \<le> length buffer"
  shows "\<exists>buffer'. read_keys_data d buffer = Some (8 + 8 * min (length (registrants d)) ((length buffer - 8) div 8), buffer') \<and>
    length buffer' = length buffer \<and>
    take (8 + 8 * min (length (registrants d)) ((length buffer - 8) div 8)) buffer' =
      be_bytes 4 (unat (pr_generation d)) @ be_bytes 4 (8 * length (registrants d)) @
      key_bytes (take ((length buffer - 8) div 8) (map snd (registrants d)))"
proof -
  define k where "k = min (length (registrants d)) ((length buffer - 8) div 8)"
  define keys where "keys = key_bytes (take k (map snd (registrants d)))"
  let ?gen = "be_bytes 4 (unat (pr_generation d))" and ?size = "be_bytes 4 (8 * length (registrants d))"
  let ?b1 = "overwrite 0 ?gen buffer"
  let ?b2 = "overwrite 8 keys ?b1"
  have le: "8 + 8 * k \<le> length buffer" unfolding k_def using assms by linarith
  have "length keys = 8 * k" by (simp add: keys_def k_def)
  then have len: "length ?b1 = length buffer" "length ?b2 = length buffer" "length keys = 8 * k" using assms le by simp_all
  have run: "read_keys_data d buffer = Some (8 + 8 * k, overwrite 4 ?size ?b2)"
    using assms len le read_keys_loop_ok[of "length buffer - 8" ?b1 8 0 "map snd (registrants d)"]
    by (simp add: read_keys_data_def put_be_Some Let_def k_def[symmetric] keys_def[symmetric])
  have "take (8 + 8 * k) (overwrite 4 ?size ?b2) = ?gen @ ?size @ keys"
    by (rule nth_equalityI) (use len le in \<open>auto simp: nth_overwrite nth_append\<close>)
  moreover have "take k (map snd (registrants d)) = take ((length buffer - 8) div 8) (map snd (registrants d))"
    by (simp add: k_def min_def)
  moreover have "length (overwrite 4 ?size ?b2) = length buffer" using len assms by simp
  ultimately show ?thesis using run unfolding keys_def k_def[symmetric] by auto
qed

section \<open>READ FULL STATUS\<close>

definition status_desc :: "pr_dev \<Rightarrow> nat \<times> scst_dev_registrant \<Rightarrow> byte list" where
  "status_desc d = (\<lambda>(a, r). let ts = the (scst_tid_size (transport_id r)) in
     be_bytes 8 (unat (reg_key r)) @ [0, 0, 0, 0] @
     (if pr_is_set d \<and> scst_pr_is_holder d (Some a) then [1, push_bit 4 (pr_scope d) OR pr_type d] else [0, 0]) @
     [0, 0, 0, 0] @ be_bytes 2 (unat (rel_tgt_id r)) @ be_bytes 4 ts @ take ts (transport_id r))"

definition status_len :: "(nat \<times> scst_dev_registrant) list \<Rightarrow> nat" where
  "status_len regs = sum_list (map (\<lambda>(a, r). 24 + the (scst_tid_size (transport_id r))) regs)"

lemma status_len_simps [simp]: "status_len [] = 0"
  "status_len ((a, r) # regs) = 24 + the (scst_tid_size (transport_id r)) + status_len regs"
  by (simp_all add: status_len_def)

lemma zero_prefix: "replicate (24 + ts) (0 :: byte) =
    replicate 8 0 @ [0, 0, 0, 0] @ [0, 0] @ [0, 0, 0, 0] @ replicate 2 0 @ replicate 4 0 @ replicate ts 0"
  by (simp add: numeral_eq_Suc)

lemma overwrite_middle:
  "length src = length ys \<Longrightarrow> off = length xs \<Longrightarrow> overwrite off src (xs @ ys @ zs) = xs @ src @ zs"
  by (simp add: overwrite_def)

lemma put_status_ok:
  assumes ts: "scst_tid_size (transport_id r) = Some ts" "ts \<le> length (transport_id r)"
    and fits: "offset + 24 + ts \<le> length buffer"
  shows "put_status d a r ts offset buffer = Some (overwrite offset (status_desc d (a, r)) buffer)"
proof -
  let ?h = "if pr_is_set d \<and> scst_pr_is_holder d (Some a) then [1, push_bit 4 (pr_scope d) OR pr_type d] else [0, 0 :: byte]"
  let ?k = "be_bytes 8 (unat (reg_key r))" and ?r = "be_bytes 2 (unat (rel_tgt_id r))" and ?t = "take ts (transport_id r)"
  define z where "z k h rel n t = k @ [0, 0, 0, 0] @ h @ [0, 0, 0, 0] @ rel @ n @ t" for k h rel n and t :: "byte list"
  let ?O = "\<lambda>blk. overwrite offset blk buffer"
  have step: "wr_range (offset + o') src (?O blk) = Some (?O (overwrite o' src blk))"
    if "o' + length src \<le> length blk" "length blk = 24 + ts" for o' src blk
    using that fits overwrite_inside[of o' src blk offset buffer] by (simp add: wr_range_def)
  have 1: "wr_range offset (replicate (24 + ts) 0) buffer =
      Some (?O (z (replicate 8 0) [0, 0] (replicate 2 0) (replicate 4 0) (replicate ts 0)))"
    using fits by (simp add: wr_range_def zero_prefix z_def)
  have 2: "wr_range offset ?k (?O (z (replicate 8 0) h rel n t)) = Some (?O (z ?k h rel n t))"
    if "length h = 2" "length rel = 2" "length n = 4" "length t = ts" for h rel n t
    using step[of 0 ?k "z (replicate 8 0) h rel n t"] that overwrite_middle[of ?k "replicate 8 0" 0 "[]"] by (simp add: z_def)
  have 3: "wr_range (offset + 12) h (?O (z k [0, 0] rel n t)) = Some (?O (z k h rel n t))"
    if "length k = 8" "length h = 2" "length rel = 2" "length n = 4" "length t = ts" for k h rel n t
    using step[of 12 h "z k [0, 0] rel n t"] that overwrite_middle[of h "[0, 0]" 12 "k @ [0, 0, 0, 0]"] by (simp add: z_def)
  have 4: "wr_range (offset + 18) ?r (?O (z k h (replicate 2 0) n t)) = Some (?O (z k h ?r n t))"
    if "length k = 8" "length h = 2" "length n = 4" "length t = ts" for k h n t
    using step[of 18 ?r "z k h (replicate 2 0) n t"] that
      overwrite_middle[of ?r "replicate 2 0" 18 "k @ [0, 0, 0, 0] @ h @ [0, 0, 0, 0]"] by (simp add: z_def)
  have 5: "wr_range (offset + 20) (be_bytes 4 ts) (?O (z k h rel (replicate 4 0) t)) = Some (?O (z k h rel (be_bytes 4 ts) t))"
    if "length k = 8" "length h = 2" "length rel = 2" "length t = ts" for k h rel t
    using step[of 20 "be_bytes 4 ts" "z k h rel (replicate 4 0) t"] that
      overwrite_middle[of "be_bytes 4 ts" "replicate 4 0" 20 "k @ [0, 0, 0, 0] @ h @ [0, 0, 0, 0] @ rel"] by (simp add: z_def)
  have 6: "wr_range (offset + 24) ?t (?O (z k h rel n (replicate ts 0))) = Some (?O (z k h rel n ?t))"
    if "length k = 8" "length h = 2" "length rel = 2" "length n = 4" for k h rel n
    using step[of 24 ?t "z k h rel n (replicate ts 0)"] that ts(2)
      overwrite_middle[of ?t "replicate ts 0" 24 "k @ [0, 0, 0, 0] @ h @ [0, 0, 0, 0] @ rel @ n" "[]"] by (simp add: z_def)
  have h: "(if pr_is_set d \<and> scst_pr_is_holder d (Some a)
      then wr_range (offset + 12) [1, push_bit 4 (pr_scope d) OR pr_type d] b else Some b) = Some (?O (z ?k ?h rel n t))"
    if "b = ?O (z ?k [0, 0] rel n t)" "length rel = 2" "length n = 4" "length t = ts" for b rel n t
    using that 3[of ?k "[1, push_bit 4 (pr_scope d) OR pr_type d]" rel n t] by simp
  have tid: "rd_range (transport_id r) 0 ts = Some ?t" using ts(2) by (simp add: rd_range_def)
  have "put_status d a r ts offset buffer = Some (?O (z ?k ?h ?r (be_bytes 4 ts) ?t))"
    unfolding put_status_def put_be_def 1 tid
    using 2 4 5 6 h by simp
  then show ?thesis using ts(1) by (simp add: status_desc_def z_def)
qed

lemma length_status_desc:
  "tid_ok (transport_id r) \<Longrightarrow> length (status_desc d (a, r)) = 24 + the (scst_tid_size (transport_id r))"
  by (auto simp: status_desc_def tid_ok_def Let_def split: option.splits)

lemma length_status_descs:
  "list_all (\<lambda>(a, r). tid_ok (transport_id r)) regs \<Longrightarrow> length (concat (map (status_desc d) regs)) = status_len regs"
  by (induction regs) (auto simp: length_status_desc)

lemma full_status_loop_ok:
  assumes "list_all (\<lambda>(a, r). tid_ok (transport_id r)) regs" "size_max + 8 = length buffer" "offset \<le> 8 + size'"
    and "offset \<le> length buffer"
  shows "\<exists>offset' buffer'. full_status_loop d regs size_max offset size' buffer = Some (offset', size' + status_len regs, buffer') \<and>
    length buffer' = length buffer \<and> offset \<le> offset' \<and> offset' \<le> length buffer \<and>
    take offset buffer' = take offset buffer \<and>
    (offset = 8 + size' \<and> size' + status_len regs < size_max \<longrightarrow>
      offset' = offset + status_len regs \<and> buffer' = overwrite offset (concat (map (status_desc d) regs)) buffer)"
  using assms
proof (induction regs arbitrary: size' offset buffer)
  case Nil
  then show ?case by simp
next
  case (Cons x regs)
  obtain a r where x: "x = (a, r)" by force
  then have tid: "tid_ok (transport_id r)" and rest: "list_all (\<lambda>(a, r). tid_ok (transport_id r)) regs" using Cons.prems by simp_all
  then obtain ts where ts: "scst_tid_size (transport_id r) = Some ts" "ts \<le> length (transport_id r)"
    by (auto simp: tid_ok_def split: option.splits)
  show ?case
  proof (cases "size_max > size' + (24 + ts)")
    case True
    let ?b = "overwrite offset (status_desc d (a, r)) buffer" and ?ds = "concat (map (status_desc d) regs)"
    have len: "length (status_desc d (a, r)) = 24 + ts" using length_status_desc[OF tid] ts by simp
    have fits: "offset + 24 + ts \<le> length buffer" using True Cons.prems by simp
    then have b: "length ?b = length buffer" using len by simp
    obtain offset' buffer' where IH: "full_status_loop d regs size_max (offset + (24 + ts)) (size' + (24 + ts)) ?b =
        Some (offset', size' + (24 + ts) + status_len regs, buffer')" "length buffer' = length ?b"
      "offset + (24 + ts) \<le> offset'" "offset' \<le> length ?b" "take (offset + (24 + ts)) buffer' = take (offset + (24 + ts)) ?b"
      "offset + (24 + ts) = 8 + (size' + (24 + ts)) \<and> size' + (24 + ts) + status_len regs < size_max \<longrightarrow>
         offset' = offset + (24 + ts) + status_len regs \<and>
         buffer' = overwrite (offset + (24 + ts)) ?ds ?b"
      using Cons.IH[OF rest, of ?b "offset + (24 + ts)" "size' + (24 + ts)"] Cons.prems fits b by auto
    have "take offset buffer' = take offset buffer"
      using arg_cong[OF IH(5), of "take offset"] fits len by (simp add: min_def take_overwrite)
    moreover have "overwrite (offset + (24 + ts)) ?ds ?b = overwrite offset (status_desc d (a, r) @ ?ds) buffer"
      if "offset = 8 + size'" "size' + (24 + ts) + status_len regs < size_max"
      using that overwrite_append[of offset "status_desc d (a, r)" ?ds buffer] Cons.prems len length_status_descs[OF rest] by simp
    ultimately show ?thesis
      using IH True ts b put_status_ok[OF ts fits, of d a] by (simp add: x Let_def add.assoc)
  next
    case False
    then show ?thesis using Cons.IH[OF rest, of buffer offset "size' + (24 + ts)"] Cons.prems ts
      by (auto simp: x Let_def add.assoc)
  qed
qed

lemma reach_tids: "pr_reach d \<Longrightarrow> list_all (\<lambda>(a, r). tid_ok (transport_id r)) (registrants d)"
  using reach_inv[of d] by (auto simp: pr_inv_def pr_core_def pr_regs_ok_def list_all_iff)

lemma read_full_status_runs:
  assumes "list_all (\<lambda>(a, r). tid_ok (transport_id r)) (registrants d)" "8 \<le> length buffer"
  shows "\<exists>n buffer'. read_full_status_data d buffer = Some (n, buffer') \<and> length buffer' = length buffer \<and> n \<le> length buffer \<and>
    (8 + status_len (registrants d) < length buffer \<longrightarrow> n = 8 + status_len (registrants d) \<and>
      take n buffer' = be_bytes 4 (unat (pr_generation d)) @ be_bytes 4 (status_len (registrants d)) @
        concat (map (status_desc d) (registrants d)))"
proof -
  let ?gen = "be_bytes 4 (unat (pr_generation d))" and ?size = "be_bytes 4 (status_len (registrants d))"
    and ?ds = "concat (map (status_desc d) (registrants d))"
  let ?b1 = "overwrite 0 ?gen buffer"
  have b1: "length ?b1 = length buffer" using assms(2) by simp
  obtain n b2 where run: "full_status_loop d (registrants d) (length buffer - 8) 8 0 ?b1 = Some (n, status_len (registrants d), b2)"
      "length b2 = length buffer" "n \<le> length buffer"
      "8 + status_len (registrants d) < length buffer \<longrightarrow> n = 8 + status_len (registrants d) \<and> b2 = overwrite 8 ?ds ?b1"
    using full_status_loop_ok[OF assms(1), of "length buffer - 8" ?b1 8 0 d] assms(2) b1
    by (auto simp: less_diff_conv add.commute)
  have "take (8 + status_len (registrants d)) (overwrite 4 ?size (overwrite 8 ?ds ?b1)) = ?gen @ ?size @ ?ds"
    if "8 + status_len (registrants d) < length buffer"
    by (rule nth_equalityI) (use that b1 length_status_descs[OF assms(1), of d] in \<open>auto simp: nth_overwrite nth_append\<close>)
  then show ?thesis
    using run assms(2) b1 by (auto simp: read_full_status_data_def Let_def put_be_Some)
qed

definition inside :: "byte list \<Rightarrow> (nat \<times> byte list) option \<Rightarrow> bool" where
  "inside buffer r = (case r of None \<Rightarrow> False | Some (n, b) \<Rightarrow> n \<le> length buffer \<and> length b = length buffer)"

lemma read_reservation_inside:
  assumes "pr_inv d"
  shows "inside buffer (read_reservation_data d buffer)"
proof -
  have copy: "inside buffer (do {
      src \<leftarrow> rd_range b 0 n;
      buffer \<leftarrow> wr_range 0 src buffer;
      buffer \<leftarrow> wr_range n (replicate (length buffer - n) 0) buffer;
      Some (n, buffer) })" if "n \<le> length buffer" "n \<le> length b" for n b
    using that by (simp add: inside_def rd_range_def wr_range_def)
  have holder: "\<exists>r. reg_at d a = Some r" if "pr_is_set d" "pr_holder d = Some a" for a
    using assms that by (auto simp: pr_inv_def pr_core_def pr_holder_ok_def)
  have "\<exists>(n :: nat) b. (if length buffer < 8 then Some (0, replicate 24 0)
        else do {
          b \<leftarrow> put_be 4 (unat (pr_generation d)) 0 (replicate 24 0);
          (if \<not> pr_is_set d then do {
             b \<leftarrow> wr_range 4 [0, 0, 0, 0] b;
             Some (8, b) }
           else do {
             key \<leftarrow> (case pr_holder d of None \<Rightarrow> Some 0 | Some a \<Rightarrow> map_option reg_key (reg_at d a));
             b \<leftarrow> wr_range 4 [0, 0, 0, 0x10] b;
             b \<leftarrow> put_be 8 (unat key) 8 b;
             b \<leftarrow> wr_range 21 [push_bit 4 (pr_scope d) OR pr_type d] b;
             Some (24, b) }) }) = Some (n, b) \<and> n \<le> 24 \<and> length b = 24"
    by (cases "pr_holder d"; cases "pr_is_set d") (use holder in \<open>auto simp: put_be_Some wr_range_def\<close>)
  then show ?thesis
    unfolding read_reservation_data_def Let_def by (elim exE conjE) (simp only:, simp add: copy)
qed

text \<open>C18. On a device in a reachable state every service action of PERSISTENT RESERVE IN, on a response buffer of
  any size, writes only inside the buffer, follows no pointer to a freed registrant and returns a response
  length that the buffer can hold.\<close>

theorem pr_in_inside_buffer:
  assumes "pr_reach d"
  shows "inside buffer (read_keys_data d buffer) \<and> inside buffer (read_reservation_data d buffer) \<and>
    inside buffer (report_caps_data d buffer) \<and> inside buffer (read_full_status_data d buffer)"
proof (intro conjI)
  show "inside buffer (read_keys_data d buffer)"
  proof (cases "8 \<le> length buffer")
    case True
    then show ?thesis using read_keys_lists[of buffer d] by (auto simp: inside_def)
  qed (simp add: read_keys_data_def inside_def)
  show "inside buffer (read_reservation_data d buffer)"
    by (rule read_reservation_inside[OF reach_inv[OF assms]])
  show "inside buffer (report_caps_data d buffer)"
    by (simp add: report_caps_data_def inside_def wr_range_def)
  show "inside buffer (read_full_status_data d buffer)"
  proof (cases "8 \<le> length buffer")
    case True
    then show ?thesis using read_full_status_runs[OF reach_tids[OF assms], of buffer] by (auto simp: inside_def)
  qed (simp add: read_full_status_data_def inside_def)
qed

theorem pr_in_inside_buffer_witness:
  "inside (replicate 30 7) (read_full_status_data (ex_state4 TYPE_EXCLUSIVE_ACCESS) (replicate 30 7)) \<and>
   inside (replicate 10 7) (read_reservation_data (ex_state4 TYPE_EXCLUSIVE_ACCESS) (replicate 10 7))"
  using pr_in_inside_buffer[of "ex_state4 TYPE_EXCLUSIVE_ACCESS"] by simp



end
