(* ===== verification/Sparse_File.thy ===== *)
theory Sparse_File
  imports Prelude
begin

text \<open>
  The contract of a store of bytes with random access, as an interface: a write stores a
  non-empty prefix of the caller's bytes at an offset, a read returns a non-empty part of what is stored
  there.  Like the system calls they stand for, both may move less than they were asked for.  The
  client is the usual loop that repeats a call until everything is moved; its lemma is that what
  one loop wrote the other reads back.  The character device with quantum sets and the
  RAM disks interpret the interface on their own operations.
\<close>

function write_all ::
  "(nat \<Rightarrow> 'a list \<Rightarrow> 's \<Rightarrow> (nat \<times> 's) option) \<Rightarrow> nat \<Rightarrow> 'a list \<Rightarrow> 's \<Rightarrow> 's option" where
  "write_all put off xs s =
     (if xs = [] then Some s
      else case put off xs s of None \<Rightarrow> None
        | Some (n, s') \<Rightarrow> if n = 0 then None else write_all put (off + n) (drop n xs) s')"
  by pat_completeness auto
termination
  by (relation "measure (\<lambda>(put, off, xs, s). length xs)") auto

function read_all ::
  "(nat \<Rightarrow> nat \<Rightarrow> 's \<Rightarrow> (nat \<times> 'a list \<times> 's) option) \<Rightarrow> nat \<Rightarrow> nat \<Rightarrow> 's \<Rightarrow> ('a list \<times> 's) option" where
  "read_all get off len s =
     (if len = 0 then Some ([], s)
      else case get off len s of None \<Rightarrow> None
        | Some (n, out, s') \<Rightarrow>
            if n = 0 then None
            else map_option (\<lambda>(rest, s'). (out @ rest, s')) (read_all get (off + n) (len - n) s'))"
  by pat_completeness auto
termination
  by (relation "measure (\<lambda>(get, off, len, s). len)") auto

declare write_all.simps [simp del] read_all.simps [simp del]

locale sparse_file =
  fixes invar :: "'s \<Rightarrow> bool"
    and content :: "'s \<Rightarrow> nat \<Rightarrow> 'a option"
    and put :: "nat \<Rightarrow> 'a list \<Rightarrow> 's \<Rightarrow> (nat \<times> 's) option"
    and get :: "nat \<Rightarrow> nat \<Rightarrow> 's \<Rightarrow> (nat \<times> 'a list \<times> 's) option"
    and range_ok :: "nat \<Rightarrow> nat \<Rightarrow> bool"
  assumes put_stores: "invar s \<Longrightarrow> xs \<noteq> [] \<Longrightarrow> range_ok off (length xs) \<Longrightarrow>
      \<exists>n s'. put off xs s = Some (n, s') \<and> 0 < n \<and> n \<le> length xs \<and> invar s' \<and>
        (n < length xs \<longrightarrow> range_ok (off + n) (length xs - n)) \<and>
        (\<forall>i<n. content s' (off + i) = Some (xs ! i)) \<and>
        (\<forall>k. k < off \<or> off + n \<le> k \<longrightarrow> content s k \<noteq> None \<longrightarrow> content s' k = content s k)"
    and get_returns: "invar s \<Longrightarrow> 0 < len \<Longrightarrow> range_ok off len \<Longrightarrow> content s off \<noteq> None \<Longrightarrow>
      \<exists>n out s'. get off len s = Some (n, out, s') \<and> 0 < n \<and> n \<le> len \<and> n = length out \<and> invar s' \<and>
        (n < len \<longrightarrow> range_ok (off + n) (len - n)) \<and> content s' = content s \<and>
        (\<forall>i<n. content s (off + i) = Some (out ! i))"
begin

lemma write_all_stores:
  assumes "invar s" "range_ok off (length xs)"
  shows "\<exists>s'. write_all put off xs s = Some s' \<and> invar s' \<and>
    (\<forall>i<length xs. content s' (off + i) = Some (xs ! i)) \<and>
    (\<forall>k. k < off \<or> off + length xs \<le> k \<longrightarrow> content s k \<noteq> None \<longrightarrow> content s' k = content s k)"
  using assms
proof (induction "length xs" arbitrary: off xs s rule: less_induct)
  case less
  show ?case
  proof (cases "xs = []")
    case True
    then show ?thesis using less.prems by (simp add: write_all.simps)
  next
    case False
    obtain n s1 where p: "put off xs s = Some (n, s1)" "0 < n" "n \<le> length xs" "invar s1"
        "n < length xs \<longrightarrow> range_ok (off + n) (length xs - n)" "\<forall>i<n. content s1 (off + i) = Some (xs ! i)"
        "\<forall>k. k < off \<or> off + n \<le> k \<longrightarrow> content s k \<noteq> None \<longrightarrow> content s1 k = content s k"
      using put_stores[OF less.prems(1) False less.prems(2)] by blast
    have unroll: "write_all put off xs s = write_all put (off + n) (drop n xs) s1"
      using False p(1,2) by (subst write_all.simps) simp
    obtain s' where s': "write_all put (off + n) (drop n xs) s1 = Some s'" "invar s'"
        "\<forall>i<length xs - n. content s' (off + n + i) = Some (xs ! (n + i))"
        "\<forall>k. k < off + n \<or> off + length xs \<le> k \<longrightarrow> content s1 k \<noteq> None \<longrightarrow> content s' k = content s1 k"
    proof (cases "n = length xs")
      case True
      then show ?thesis using that p(4) by (simp add: write_all.simps)
    next
      case False
      then have "length (drop n xs) < length xs" "range_ok (off + n) (length (drop n xs))" using p(2,3,5) by auto
      then show ?thesis
        using that less.hyps[of "drop n xs" s1 "off + n"] p(3,4) False by (fastforce simp: add.assoc)
    qed
    have "content s' (off + i) = Some (xs ! i)" if "i < length xs" for i
    proof (cases "i < n")
      case True
      then show ?thesis using p(6) s'(4) by simp
    next
      case False
      then show ?thesis using s'(3)[rule_format, of "i - n"] that by simp
    qed
    moreover have "content s' k = content s k" if "k < off \<or> off + length xs \<le> k" "content s k \<noteq> None" for k
      using p(3,7) s'(4) that by (metis le_add1 le_trans nat_add_left_cancel_le trans_less_add1)
    ultimately show ?thesis using unroll s'(1,2) by auto
  qed
qed

lemma read_all_returns:
  assumes "invar s" "range_ok off (length xs)" "\<forall>i<length xs. content s (off + i) = Some (xs ! i)"
  shows "\<exists>s'. read_all get off (length xs) s = Some (xs, s') \<and> invar s' \<and> content s' = content s"
  using assms
proof (induction "length xs" arbitrary: off xs s rule: less_induct)
  case less
  show ?case
  proof (cases "xs = []")
    case True
    then show ?thesis using less.prems by (simp add: read_all.simps)
  next
    case False
    then have "0 < length xs" "content s off \<noteq> None" using less.prems(3)[rule_format, of 0] by auto
    then obtain n out s1 where g: "get off (length xs) s = Some (n, out, s1)" "0 < n" "n \<le> length xs" "n = length out"
        "invar s1" "n < length xs \<longrightarrow> range_ok (off + n) (length xs - n)" "content s1 = content s"
        "\<forall>i<n. content s (off + i) = Some (out ! i)"
      using get_returns[OF less.prems(1) _ less.prems(2)] by blast
    have out: "out = take n xs"
      using g(3,4,8) less.prems(3) by (intro nth_equalityI) auto
    have unroll: "read_all get off (length xs) s =
        map_option (\<lambda>(rest, s'). (out @ rest, s')) (read_all get (off + n) (length xs - n) s1)"
      using False g(1,2) by (subst read_all.simps) simp
    have "\<exists>s'. read_all get (off + n) (length xs - n) s1 = Some (drop n xs, s') \<and> invar s' \<and> content s' = content s"
    proof (cases "n = length xs")
      case True
      then show ?thesis using g(5,7) by (simp add: read_all.simps)
    next
      case False
      then have "length (drop n xs) < length xs" "range_ok (off + n) (length (drop n xs))" using g(2,3,6) by auto
      then show ?thesis
        using less.hyps[of "drop n xs" s1 "off + n"] less.prems(3) g(3,5,7) by (auto simp: add.assoc)
    qed
    then show ?thesis using unroll out by auto
  qed
qed

lemma round_trip:
  assumes "invar s" "range_ok off (length xs)"
  shows "\<exists>s' s''. write_all put off xs s = Some s' \<and> read_all get off (length xs) s' = Some (xs, s'') \<and>
    (\<forall>k. k < off \<or> off + length xs \<le> k \<longrightarrow> content s k \<noteq> None \<longrightarrow> content s'' k = content s k)"
  using write_all_stores[OF assms] read_all_returns[OF _ assms(2)] by fastforce

end

end
