(* ===== verification/Scull_Dev.thy ===== *)
theory Scull_Dev
  imports Sparse_File
begin

text \<open>
  The character device of \<^verbatim>\<open>src/scull0/scull.c\<close>: a list of quantum sets, each an array of
  \<^verbatim>\<open>scull_qset\<close> pointers to quanta of \<^verbatim>\<open>scull_quantum\<close> bytes, all
  allocated when a write first needs them.  The linked list is a list, a node is named by its place in it,
  and a null pointer is \<^term>\<open>None\<close>.  The results of \<^verbatim>\<open>vmalloc\<close> come from a list in
  the device, an exhausted list standing for success.  \<^verbatim>\<open>down_interruptible\<close> and the copies
  to and from the user are parameters.  A use of a null pointer, or an access outside an object, is
  the result \<^term>\<open>None\<close>.
\<close>

section \<open>Data\<close>

definition scull_qset :: nat where "scull_qset = 10"
definition scull_quantum :: nat where "scull_quantum = 10"

record qset =
  qdata :: "byte list option list option"

record scull_dev =
  scull_size :: nat
  scull_data :: "qset list"
  scull_mem :: "bool list"

section \<open>Operations\<close>

text \<open>\<^verbatim>\<open>vmalloc\<close> reports failure with a null pointer, which \<^verbatim>\<open>IS_ERR\<close>
  does not recognise, and the memory is cleared right after: a failure is an access through a null
  pointer.\<close>

definition vmalloc :: "bool list \<Rightarrow> bool list option" where
  "vmalloc mem = (case mem of [] \<Rightarrow> Some [] | ok # oks \<Rightarrow> if ok then Some oks else None)"

fun follow_loop :: "nat \<Rightarrow> qset list \<Rightarrow> bool list \<Rightarrow> (qset list \<times> bool list) option" where
  "follow_loop 0 qs mem = Some (qs, mem)"
| "follow_loop (Suc n) [] mem = do {
     mem \<leftarrow> vmalloc mem;
     (qs, mem) \<leftarrow> follow_loop n [] mem;
     Some (\<lparr>qdata = None\<rparr> # qs, mem) }"
| "follow_loop (Suc n) (q # qs) mem = do {
     (qs, mem) \<leftarrow> follow_loop n qs mem;
     Some (q # qs, mem) }"

text \<open>The loop runs for the indices from zero to \<open>idx\<close>, so for a negative one the null pointer it
  starts with is returned.\<close>

definition scull_follow :: "scull_dev \<Rightarrow> int \<Rightarrow> (nat option \<times> scull_dev) option" where
  "scull_follow dev idx =
     (if idx < 0 then Some (None, dev)
      else do {
        (qs, mem) \<leftarrow> follow_loop (Suc (nat idx)) (scull_data dev) (scull_mem dev);
        Some (Some (nat idx), dev\<lparr>scull_data := qs, scull_mem := mem\<rparr>) })"

text \<open>Freeing the sets; the first result is the number of calls of \<^verbatim>\<open>vfree\<close>.\<close>

fun trim_loop :: "qset list \<Rightarrow> nat" where
  "trim_loop [] = 0"
| "trim_loop (q # qs) =
     (case qdata q of None \<Rightarrow> 0 | Some d \<Rightarrow> length (filter (\<lambda>p. p \<noteq> None) (take scull_qset d)) + 1) + 1 + trim_loop qs"

definition scull_trim :: "bool \<Rightarrow> scull_dev \<Rightarrow> nat \<times> scull_dev" where
  "scull_trim interrupted dev =
     (if interrupted then (0, dev)
      else (trim_loop (scull_data dev), dev\<lparr>scull_data := []\<rparr>))"

definition scull_open :: "bool \<Rightarrow> bool \<Rightarrow> scull_dev \<Rightarrow> int \<times> scull_dev" where
  "scull_open interrupted write_only dev =
     (0, if write_only then snd (scull_trim interrupted dev) else dev)"

definition scull_llseek :: "bool \<Rightarrow> 64 word \<Rightarrow> 64 word \<Rightarrow> int \<Rightarrow> int \<times> 64 word" where
  "scull_llseek interrupted f_pos off whence =
     (if whence \<notin> {0, 1, 2} then (- EINVAL, f_pos)
      else let newpos = (if whence = 0 then off
             else if whence = 1 then f_pos + off
             else of_nat (scull_quantum * scull_qset) + off)
           in if sint newpos < 0 then (- EINVAL, f_pos)
              else if interrupted then (- EINVAL, f_pos)
              else (sint newpos, newpos))"

text \<open>The quotient is computed in 64 bits and stored in an \<^verbatim>\<open>int\<close>; the other parts of the
  position are below \<^verbatim>\<open>scull.size\<close>, which is one hundred.\<close>

definition scull_index :: "64 word \<Rightarrow> scull_dev \<Rightarrow> int" where
  "scull_index off dev = sint (of_nat (unat off div scull_size dev) :: 32 word)"

definition scull_read ::
  "bool \<Rightarrow> (byte list \<Rightarrow> nat) \<Rightarrow> nat \<Rightarrow> 64 word \<Rightarrow> scull_dev \<Rightarrow> (int \<times> byte list \<times> 64 word \<times> scull_dev) option" where
  "scull_read interrupted copy_to_user len off dev =
     (if interrupted then Some (- EINVAL, [], off, dev)
      else if scull_size dev = 0 then None
      else do {
        let res = unat off mod scull_size dev;
        let pos = res div scull_quantum;
        let offset = res mod scull_quantum;
        (cur, dev) \<leftarrow> scull_follow dev (scull_index off dev);
        i \<leftarrow> cur;
        q \<leftarrow> rd (scull_data dev) i;
        (case qdata q of
           None \<Rightarrow> Some (- EFAULT, [], off, dev)
         | Some d \<Rightarrow>
             if pos \<ge> scull_qset then Some (- EFAULT, [], off, dev)
             else do {
               p \<leftarrow> rd d pos;
               (case p of
                  None \<Rightarrow> Some (- EFAULT, [], off, dev)
                | Some b \<Rightarrow> do {
                    let count = min len (scull_quantum - offset);
                    src \<leftarrow> rd_range b offset count;
                    let uncopied = copy_to_user src;
                    (if uncopied \<noteq> 0 then Some (- EAGAIN, take (count - uncopied) src, off, dev)
                     else Some (int count, src, off + of_nat count, dev)) }) }) })"

text \<open>The message printed at line 247 reads the array one entry behind \<open>pos\<close>.  For the last entry
  this is behind the array, in the page that \<^verbatim>\<open>vmalloc\<close> rounds it up to; the value is only
  printed, and the model leaves the read out.\<close>

definition scull_write ::
  "bool \<Rightarrow> (byte list \<Rightarrow> byte list \<times> nat) \<Rightarrow> byte list \<Rightarrow> 64 word \<Rightarrow> scull_dev \<Rightarrow>
   (int \<times> 64 word \<times> scull_dev) option" where
  "scull_write interrupted copy_from_user ubuf off dev =
     (if interrupted then Some (- EINVAL, off, dev)
      else if scull_size dev = 0 then None
      else do {
        let res = unat off mod scull_size dev;
        let pos = res div scull_quantum;
        let offset = res mod scull_quantum;
        (cur, dev) \<leftarrow> scull_follow dev (scull_index off dev);
        (if pos \<ge> scull_qset then Some (- EINVAL, off, dev)
         else do {
           i \<leftarrow> cur;
           q \<leftarrow> rd (scull_data dev) i;
           (d, mem) \<leftarrow> (case qdata q of
                Some d \<Rightarrow> Some (d, scull_mem dev)
              | None \<Rightarrow> map_option (Pair (replicate scull_qset None)) (vmalloc (scull_mem dev)));
           p \<leftarrow> rd d pos;
           (b, mem) \<leftarrow> (case p of
                Some b \<Rightarrow> Some (b, mem)
              | None \<Rightarrow> map_option (Pair (replicate scull_quantum 0)) (vmalloc mem));
           let count = min (length ubuf) (scull_quantum - offset);
           let (landed, uncopied) = copy_from_user (take count ubuf);
           b \<leftarrow> wr_range offset landed b;
           let dev = dev\<lparr>scull_data := (scull_data dev)[i := \<lparr>qdata = Some (d[pos := Some b])\<rparr>], scull_mem := mem\<rparr>;
           (if uncopied \<noteq> 0 then Some (- EAGAIN, off, dev)
            else Some (int count, off + of_nat count, dev)) }) })"

text \<open>The command \<^verbatim>\<open>GETINFO\<close>; the result of the copy is unsigned and never negative, so a
  failing copy is not reported.  The second result is what is copied.\<close>

definition GETINFO :: "32 word" where "GETINFO = 0x80082000"

definition scull_ioctl :: "32 word \<Rightarrow> int \<times> nat option" where
  "scull_ioctl cmd = (if cmd = GETINFO then (0, Some scull_qset) else (- EFAULT, None))"

text \<open>Loading the module: the results are the return value, the device and whether the device number is
  registered.  A failing \<^verbatim>\<open>cdev_add\<close> is not reported.\<close>

definition scull_start :: "int \<Rightarrow> int \<Rightarrow> bool list \<Rightarrow> int \<times> scull_dev \<times> bool" where
  "scull_start alloc_chrdev_region cdev_add mem =
     (let dev = \<lparr>scull_size = 0, scull_data = [], scull_mem = mem\<rparr>
      in if alloc_chrdev_region \<noteq> 0 then (- EAGAIN, dev, False)
         else (0, dev\<lparr>scull_size := scull_quantum * scull_qset\<rparr>, \<not> cdev_add < 0))"

definition scull_end :: "bool \<Rightarrow> scull_dev \<Rightarrow> nat \<times> scull_dev" where
  "scull_end interrupted dev = scull_trim interrupted dev"

section \<open>Specification\<close>

text \<open>The device as a partial function from offsets to bytes, by way of its quanta, numbered
  through all the sets.\<close>

definition quantum_at :: "scull_dev \<Rightarrow> nat \<Rightarrow> byte list option" where
  "quantum_at dev m = do {
     q \<leftarrow> rd (scull_data dev) (m div 10);
     d \<leftarrow> qdata q;
     d ! (m mod 10) }"

definition scull_byte :: "scull_dev \<Rightarrow> nat \<Rightarrow> byte option" where
  "scull_byte dev k = map_option (\<lambda>b. b ! (k mod 10)) (quantum_at dev (k div 10))"

definition qset_ok :: "qset \<Rightarrow> bool" where
  "qset_ok q = (case qdata q of None \<Rightarrow> True
     | Some d \<Rightarrow> length d = 10 \<and> list_all (\<lambda>p. case p of None \<Rightarrow> True | Some b \<Rightarrow> length b = 10) d)"

definition scull_inv :: "scull_dev \<Rightarrow> bool" where
  "scull_inv dev = (scull_size dev = 100 \<and> list_all qset_ok (scull_data dev))"

text \<open>The offsets whose index fits in an \<^verbatim>\<open>int\<close>.\<close>

definition scull_range :: "nat \<Rightarrow> nat \<Rightarrow> bool" where
  "scull_range off len = (off + len \<le> 100 * 2 ^ 31)"

definition scull_good :: "scull_dev \<Rightarrow> bool" where
  "scull_good dev = (scull_inv dev \<and> scull_mem dev = [])"

text \<open>A write and a read that are not interrupted and copy everything.\<close>

definition scull_put :: "nat \<Rightarrow> byte list \<Rightarrow> scull_dev \<Rightarrow> (nat \<times> scull_dev) option" where
  "scull_put off xs dev =
     map_option (\<lambda>(n, _, dev). (nat n, dev)) (scull_write False (\<lambda>bs. (bs, 0)) xs (of_nat off) dev)"

definition scull_get :: "nat \<Rightarrow> nat \<Rightarrow> scull_dev \<Rightarrow> (nat \<times> byte list \<times> scull_dev) option" where
  "scull_get off len dev =
     map_option (\<lambda>(n, out, _, dev). (nat n, out, dev)) (scull_read False (\<lambda>_. 0) len (of_nat off) dev)"

section \<open>Following the list\<close>

lemma follow_loop_good: "follow_loop n qs [] = Some (qs @ replicate (n - length qs) \<lparr>qdata = None\<rparr>, [])"
  by (induction n qs "[] :: bool list" rule: follow_loop.induct) (simp_all add: vmalloc_def)

definition extend :: "nat \<Rightarrow> scull_dev \<Rightarrow> scull_dev" where
  "extend i dev = dev\<lparr>scull_data := scull_data dev @ replicate (Suc i - length (scull_data dev)) \<lparr>qdata = None\<rparr>\<rparr>"

lemma follow_good:
  "scull_mem dev = [] \<Longrightarrow> scull_follow dev (int i) = Some (Some i, extend i dev)"
  by (simp add: scull_follow_def follow_loop_good extend_def)

lemma extend_simps [simp]:
  "scull_mem (extend i dev) = scull_mem dev" "scull_size (extend i dev) = scull_size dev"
  "scull_inv (extend i dev) = scull_inv dev" "quantum_at (extend i dev) = quantum_at dev"
  "i < length (scull_data (extend i dev))"
  by (auto simp: extend_def scull_inv_def qset_ok_def list_all_iff quantum_at_def rd_def nth_append fun_eq_iff)

lemma index_small:
  assumes "off < 100 * 2 ^ 31" "scull_size dev = 100"
  shows "scull_index (of_nat off) dev = int (off div 100)" "unat (of_nat off :: 64 word) = off"
proof -
  show u: "unat (of_nat off :: 64 word) = off" using assms(1) by (simp add: unat_of_nat)
  have "off div 100 < 2 ^ 31" using assms(1) by auto
  then show "scull_index (of_nat off) dev = int (off div 100)"
    using assms(2) by (simp add: scull_index_def u sint_uint uint_nat unat_of_nat signed_take_bit_int_eq_self)
qed

lemma quantum_parts:
  "(k :: nat) div 100 = k div 10 div 10" "k mod 100 div 10 = k div 10 mod 10" "k mod 100 mod 10 = k mod 10"
  using div_mult2_eq[of k 10 10] mod_mult2_eq[of k 10 10] by simp_all

lemma inv_qset:
  assumes "scull_inv dev" "i < length (scull_data dev)" "qdata (scull_data dev ! i) = Some d"
  shows "length d = 10" "\<And>j b. j < 10 \<Longrightarrow> d ! j = Some b \<Longrightarrow> length b = 10"
proof -
  have "qset_ok (scull_data dev ! i)" using assms(1,2) by (simp add: scull_inv_def list_all_length)
  then show "length d = 10" "\<And>j b. j < 10 \<Longrightarrow> d ! j = Some b \<Longrightarrow> length b = 10"
    using assms(3) by (auto simp: qset_ok_def list_all_length split: option.splits)
qed

lemma quantum_length: "scull_inv dev \<Longrightarrow> quantum_at dev m = Some b \<Longrightarrow> length b = 10"
  by (auto simp: quantum_at_def rd_def bind_eq_Some_conv split: if_splits dest!: inv_qset(2)[of dev "m div 10", where j = "m mod 10"])

lemma quantum_extended:
  "quantum_at dev m =
     Option.bind (qdata (scull_data (extend (m div 10) dev) ! (m div 10))) (\<lambda>d. d ! (m mod 10))"
proof -
  have "quantum_at (extend (m div 10) dev) m =
     Option.bind (qdata (scull_data (extend (m div 10) dev) ! (m div 10))) (\<lambda>d. d ! (m mod 10))"
    by (simp add: quantum_at_def rd_def del: extend_simps(4))
  then show ?thesis by simp
qed

section \<open>Reading\<close>

lemma read_good:
  assumes "scull_good dev" "off < 100 * 2 ^ 31"
  shows "scull_read False (\<lambda>_. 0) len (of_nat off) dev = Some (case quantum_at dev (off div 10) of
     None \<Rightarrow> (- EFAULT, [], of_nat off, extend (off div 100) dev)
   | Some b \<Rightarrow> (let n = min len (10 - off mod 10)
       in (int n, take n (drop (off mod 10) b), of_nat (off + n), extend (off div 100) dev)))"
proof -
  let ?dev = "extend (off div 100) dev"
  have g: "scull_inv ?dev" "scull_size dev = 100" "scull_mem dev = []"
    using assms(1) unfolding scull_good_def by (simp, simp_all add: scull_inv_def)
  note i = index_small[OF assms(2) g(2)]
  have f: "scull_follow dev (scull_index (of_nat off) dev) = Some (Some (off div 100), ?dev)"
    unfolding i(1) by (rule follow_good[OF g(3)])
  have q: "rd (scull_data ?dev) (off div 100) = Some (scull_data ?dev ! (off div 100))" by (simp add: rd_def)
  have at: "quantum_at dev (off div 10) = Option.bind (qdata (scull_data ?dev ! (off div 100))) (\<lambda>d. d ! (off div 10 mod 10))"
    unfolding quantum_parts(1) by (rule quantum_extended)
  show ?thesis
  proof (cases "qdata (scull_data ?dev ! (off div 100))")
    case None
    then show ?thesis using f q at g(2) i by (simp add: scull_read_def)
  next
    case (Some d)
    note d = inv_qset[OF g(1) _ Some]
    have p: "rd d (off div 10 mod 10) = Some (d ! (off div 10 mod 10))" using d(1) by (simp add: rd_def)
    show ?thesis
    proof (cases "d ! (off div 10 mod 10)")
      case None
      then show ?thesis using f q at g(2) i Some p
        by (simp add: scull_read_def scull_quantum_def scull_qset_def quantum_parts(2) Let_def)
    next
      case (Some b)
      then have "length b = 10" using d(2)[of "off div 10 mod 10"] by simp
      then have "off mod 10 + min len (10 - off mod 10) \<le> length b" using mod_less_divisor[of 10 off] by linarith
      then have "rd_range b (off mod 10) (min len (10 - off mod 10)) =
          Some (take (min len (10 - off mod 10)) (drop (off mod 10) b))"
        unfolding rd_range_def by (rule if_P)
      then show ?thesis using f q at g(2) i(2) \<open>qdata _ = Some d\<close> p Some
        by (simp add: scull_read_def scull_quantum_def scull_qset_def quantum_parts(2,3) Let_def)
    qed
  qed
qed


section \<open>Writing\<close>

definition or_new :: "byte list option \<Rightarrow> byte list" where
  "or_new p = (case p of None \<Rightarrow> replicate 10 0 | Some b \<Rightarrow> b)"

lemma mod10: "\<not> 10 \<le> k mod (10 :: nat)"
  by simp

lemma set_quantum:
  assumes inv: "scull_inv dev" and i: "i < length (scull_data dev)" "m div 10 = i"
    and d: "length d = 10" "\<And>j. j < 10 \<Longrightarrow> d ! j = Option.bind (qdata (scull_data dev ! i)) (\<lambda>d. d ! j)" and b: "length b = 10"
  shows "scull_inv (dev\<lparr>scull_data := (scull_data dev)[i := \<lparr>qdata = Some (d[m mod 10 := Some b])\<rparr>]\<rparr>)"
    "quantum_at (dev\<lparr>scull_data := (scull_data dev)[i := \<lparr>qdata = Some (d[m mod 10 := Some b])\<rparr>]\<rparr>) =
       (quantum_at dev)(m \<mapsto> b)"
proof -
  have "case d ! j of None \<Rightarrow> True | Some b \<Rightarrow> length b = 10" if "j < 10" for j
    using d(2)[OF that] inv_qset(2)[OF inv i(1) _ that] by (auto simp: bind_eq_Some_conv split: option.splits)
  then have "qset_ok \<lparr>qdata = Some (d[m mod 10 := Some b])\<rparr>"
    using d(1) b by (auto simp: qset_ok_def list_all_length nth_list_update)
  then show "scull_inv (dev\<lparr>scull_data := (scull_data dev)[i := \<lparr>qdata = Some (d[m mod 10 := Some b])\<rparr>]\<rparr>)"
    using inv i(1) by (auto simp: scull_inv_def list_all_length nth_list_update)
  have "k = m" if "k div 10 = i" "k mod 10 = m mod 10" for k
    using that i(2) by (metis div_mult_mod_eq)
  then show "quantum_at (dev\<lparr>scull_data := (scull_data dev)[i := \<lparr>qdata = Some (d[m mod 10 := Some b])\<rparr>]\<rparr>) =
       (quantum_at dev)(m \<mapsto> b)"
    using i d by (auto simp: quantum_at_def fun_eq_iff rd_def nth_list_update)
qed

lemma put_good:
  assumes "scull_good dev" "off < 100 * 2 ^ 31"
  shows "\<exists>dev'. scull_put off xs dev = Some (min (length xs) (10 - off mod 10), dev') \<and> scull_good dev' \<and>
    quantum_at dev' = (quantum_at dev)(off div 10 \<mapsto>
      overwrite (off mod 10) (take (10 - off mod 10) xs) (or_new (quantum_at dev (off div 10))))"
proof -
  let ?i = "off div 100" and ?j = "off div 10 mod 10"
  let ?dev = "extend ?i dev"
  have g: "scull_inv ?dev" "scull_size dev = 100" "scull_mem dev = []"
    using assms(1) unfolding scull_good_def by (simp, simp_all add: scull_inv_def)
  note i = index_small[OF assms(2) g(2)]
  have f: "scull_follow dev (scull_index (of_nat off) dev) = Some (Some ?i, ?dev)"
    unfolding i(1) by (rule follow_good[OF g(3)])
  have q: "rd (scull_data ?dev) ?i = Some (scull_data ?dev ! ?i)" by (simp add: rd_def)
  define d where "d = (case qdata (scull_data ?dev ! ?i) of None \<Rightarrow> replicate 10 None | Some d \<Rightarrow> d)"
  have d: "length d = 10" "j < 10 \<Longrightarrow> d ! j = Option.bind (qdata (scull_data ?dev ! ?i)) (\<lambda>d. d ! j)" for j
    using inv_qset(1)[OF g(1), of ?i] by (auto simp: d_def split: option.splits)
  have at: "quantum_at dev (off div 10) = d ! ?j"
    unfolding quantum_extended[of dev "off div 10"] quantum_parts(1)[symmetric] using d(2)[of ?j] by simp
  let ?b = "or_new (d ! ?j)"
  have b: "length ?b = 10"
    using inv_qset(2)[OF g(1), of ?i _ ?j] d(2)[of ?j]
    by (auto simp: or_new_def bind_eq_Some_conv split: option.splits)
  let ?b' = "overwrite (off mod 10) (take (10 - off mod 10) xs) ?b"
  have b': "length ?b' = 10" using b by (simp add: overwrite_def)
  have d': "(case qdata (scull_data ?dev ! ?i) of None \<Rightarrow> map_option (Pair (replicate scull_qset None)) (vmalloc (scull_mem ?dev))
      | Some d \<Rightarrow> Some (d, scull_mem ?dev)) = Some (d, [])"
    using g(3) by (simp add: d_def vmalloc_def scull_qset_def split: option.split)
  have p: "rd d ?j = Some (d ! ?j)" using d(1) by (simp add: rd_def)
  have q': "(case d ! ?j of None \<Rightarrow> map_option (Pair (replicate scull_quantum 0)) (vmalloc []) | Some b \<Rightarrow> Some (b, [])) =
      Some (?b, [])"
    by (simp add: or_new_def vmalloc_def scull_quantum_def split: option.split)
  have w: "wr_range (off mod 10) (take (min (length xs) (10 - off mod 10)) xs) ?b = Some ?b'"
  proof -
    have "off mod 10 < 10" by simp
    then have "off mod 10 + length (take (min (length xs) (10 - off mod 10)) xs) \<le> length ?b"
      unfolding b length_take by linarith
    moreover have "take (min (length xs) (10 - off mod 10)) xs = take (10 - off mod 10) xs" by (simp add: min_def)
    ultimately show ?thesis unfolding wr_range_def by simp
  qed
  have "scull_put off xs dev = Some (min (length xs) (10 - off mod 10),
      ?dev\<lparr>scull_data := (scull_data ?dev)[?i := \<lparr>qdata = Some (d[?j := Some ?b'])\<rparr>], scull_mem := []\<rparr>)"
    using f q g(2) i(2) d' p q' w
    by (simp add: mod10 scull_put_def scull_write_def scull_quantum_def scull_qset_def quantum_parts(2,3) Let_def)
  moreover have "?dev\<lparr>scull_data := xs', scull_mem := []\<rparr> = ?dev\<lparr>scull_data := xs'\<rparr>" for xs'
    using g(3) by (cases dev) (simp add: extend_def)
  moreover have "off div 10 div 10 = ?i" by (rule quantum_parts(1)[symmetric])
  note set_quantum[OF g(1) extend_simps(5) this d b']
  ultimately show ?thesis
    using g(3) unfolding at scull_good_def by auto
qed

lemma same_quantum:
  assumes "i < 10 - off mod (10 :: nat)"
  shows "(off + i) div 10 = off div 10" "(off + i) mod 10 = off mod 10 + i"
proof -
  have *: "(q * 10 + r) div 10 = q \<and> (q * 10 + r) mod 10 = r" if "r < (10 :: nat)" for q r
    using that by simp
  have "off + i = off div 10 * 10 + (off mod 10 + i)" using div_mult_mod_eq[of off 10] by linarith
  then show "(off + i) div 10 = off div 10" "(off + i) mod 10 = off mod 10 + i"
    using *[of "off mod 10 + i" "off div 10"] assms by (metis less_diff_conv add.commute)+
qed

lemma put_stores_good:
  assumes "scull_good dev" "xs \<noteq> []" "scull_range off (length xs)"
  shows "\<exists>n dev'. scull_put off xs dev = Some (n, dev') \<and> 0 < n \<and> n \<le> length xs \<and> scull_good dev' \<and>
    (n < length xs \<longrightarrow> scull_range (off + n) (length xs - n)) \<and>
    (\<forall>i<n. scull_byte dev' (off + i) = Some (xs ! i)) \<and>
    (\<forall>k. k < off \<or> off + n \<le> k \<longrightarrow> scull_byte dev k \<noteq> None \<longrightarrow> scull_byte dev' k = scull_byte dev k)"
proof -
  let ?n = "min (length xs) (10 - off mod 10)"
  let ?b = "or_new (quantum_at dev (off div 10))"
  have off: "off < 100 * 2 ^ 31" using assms(2,3) by (cases xs) (simp_all add: scull_range_def)
  obtain dev' where dev': "scull_put off xs dev = Some (?n, dev')" "scull_good dev'"
      "quantum_at dev' = (quantum_at dev)(off div 10 \<mapsto> overwrite (off mod 10) (take (10 - off mod 10) xs) ?b)"
    using put_good[OF assms(1) off] by blast
  have b: "length ?b = 10"
    using quantum_length[of dev "off div 10"] assms(1) by (simp add: or_new_def scull_good_def split: option.split)
  have m: "off mod 10 < 10" by simp
  have new: "scull_byte dev' (off + i) = Some (xs ! i)" if "i < ?n" for i
    using that b m same_quantum[of i off] by (simp add: scull_byte_def dev'(3) nth_overwrite)
  have old: "scull_byte dev' k = scull_byte dev k" if "k < off \<or> off + ?n \<le> k" "scull_byte dev k \<noteq> None" for k
  proof (cases "k div 10 = off div 10")
    case True
    then have "k mod 10 < off mod 10 \<or> off mod 10 + ?n \<le> k mod 10"
      using that(1) div_mult_mod_eq[of k 10] div_mult_mod_eq[of off 10] by linarith
    then show ?thesis
      using True that(2) b m by (auto simp: scull_byte_def dev'(3) nth_overwrite or_new_def split: option.splits)
  qed (simp add: scull_byte_def dev'(3))
  have "0 < ?n" using assms(2) m by simp
  then show ?thesis
    using dev'(1,2) new old assms(3) by (intro exI[of _ ?n] exI[of _ dev']) (auto simp: scull_range_def)
qed

lemma get_returns_good:
  assumes "scull_good dev" "0 < len" "scull_range off len" "scull_byte dev off \<noteq> None"
  shows "\<exists>n out dev'. scull_get off len dev = Some (n, out, dev') \<and> 0 < n \<and> n \<le> len \<and> n = length out \<and> scull_good dev' \<and>
    (n < len \<longrightarrow> scull_range (off + n) (len - n)) \<and> scull_byte dev' = scull_byte dev \<and>
    (\<forall>i<n. scull_byte dev (off + i) = Some (out ! i))"
proof -
  let ?n = "min len (10 - off mod 10)"
  let ?dev = "extend (off div 100) dev"
  have off: "off < 100 * 2 ^ 31" using assms(2,3) by (simp add: scull_range_def)
  obtain b where b: "quantum_at dev (off div 10) = Some b" using assms(4) by (auto simp: scull_byte_def)
  have l: "length b = 10" using quantum_length[OF _ b] assms(1) by (simp add: scull_good_def)
  have m: "off mod 10 < 10" by simp
  have run: "scull_get off len dev = Some (?n, take ?n (drop (off mod 10) b), ?dev)"
    using read_good[OF assms(1) off] b by (simp add: scull_get_def Let_def)
  have "scull_byte dev (off + i) = Some (take ?n (drop (off mod 10) b) ! i)" if "i < ?n" for i
    using that b l same_quantum[of i off] by (simp add: scull_byte_def)
  moreover have "scull_byte ?dev = scull_byte dev" "scull_good ?dev"
    using assms(1) by (simp_all add: scull_byte_def fun_eq_iff scull_good_def)
  moreover have "0 < ?n" using assms(2) m by simp
  ultimately show ?thesis
    using run l m assms(3) by (auto simp: scull_range_def)
qed

interpretation scull_file: sparse_file scull_good scull_byte scull_put scull_get scull_range
proof unfold_locales
qed (fact put_stores_good get_returns_good)+


section \<open>Properties\<close>

lemma start_good: "scull_good (fst (snd (scull_start 0 cdev_add [])))"
  by (simp add: scull_start_def scull_good_def scull_inv_def scull_quantum_def scull_qset_def)





end
