(* ===== verification/Ram_Disk.thy ===== *)
theory Ram_Disk
  imports Sparse_File
begin

text \<open>
  The RAM disks under \<^verbatim>\<open>src/block\<close>.  \<^verbatim>\<open>bdev.c\<close> and
  \<^verbatim>\<open>ram2block/ram2.c\<close> serve a \<^verbatim>\<open>bio\<close>, a list of memory segments that is read or
  written at a sector; \<^verbatim>\<open>bdev-regular.c\<close> and \<^verbatim>\<open>sbull/ram.c\<close> serve requests with one
  buffer.  A segment is the part of its page that \<^verbatim>\<open>bv_offset\<close> and \<^verbatim>\<open>bv_len\<close>
  select, and the disk is a list of bytes, so an access outside of it is \<^term>\<open>None\<close>.  Sector numbers
  and byte offsets are computed in 64 bits as in the code.
\<close>

section \<open>Data\<close>

definition NSECTORS :: nat where "NSECTORS = 50000"
definition HARDSECT :: nat where "HARDSECT = 512"
definition DISK_SECTOR_SIZE :: nat where "DISK_SECTOR_SIZE = 512"
definition DISK_SECTOR :: nat where "DISK_SECTOR = 32 * 1024"
definition DISK_SIZE :: nat where "DISK_SIZE = DISK_SECTOR * DISK_SECTOR_SIZE"

definition READ :: nat where "READ = 0"
definition WRITE :: nat where "WRITE = 1"
definition READA :: nat where "READA = 2"

record bdev =
  bdev_size :: nat
  bdev_data :: "byte list"
  bdev_users :: int

record private_disk =
  pdisk_data :: "byte list"

record sbull =
  sbull_size :: nat
  sbull_data :: "byte list"

record bio =
  bi_sector :: "64 word"
  bi_size :: "32 word"
  bi_dir :: nat
  bi_segs :: "byte list list"

section \<open>Requests as lists of segments\<close>

text \<open>The loop over the segments, which both drivers have; the first result is false when the direction
  is none of the three.\<close>

fun bio_segments :: "nat \<Rightarrow> nat \<Rightarrow> byte list \<Rightarrow> byte list list \<Rightarrow> (bool \<times> byte list \<times> byte list list) option" where
  "bio_segments dir buf data [] = Some (True, data, [])"
| "bio_segments dir buf data (seg # segs) =
     (if dir = READA \<or> dir = READ then do {
        seg' \<leftarrow> rd_range data buf (length seg);
        (ok, data, segs) \<leftarrow> bio_segments dir (buf + length seg) data segs;
        Some (ok, data, seg' # segs) }
      else if dir = WRITE then do {
        data \<leftarrow> wr_range buf seg data;
        (ok, data, segs) \<leftarrow> bio_segments dir (buf + length seg) data segs;
        Some (ok, data, seg # segs) }
      else Some (False, data, seg # segs))"

text \<open>The first result tells whether the request is ended without an error.\<close>

definition bdev_request :: "bio \<Rightarrow> bdev \<Rightarrow> (bool \<times> bio \<times> bdev) option" where
  "bdev_request b dev =
     (if bi_sector b * of_nat HARDSECT + ucast (bi_size b) > of_nat (bdev_size dev) then Some (False, b, dev)
      else do {
        (ok, data, segs) \<leftarrow> bio_segments (bi_dir b) (unat (bi_sector b * of_nat HARDSECT)) (bdev_data dev) (bi_segs b);
        Some (ok, b\<lparr>bi_segs := segs\<rparr>, dev\<lparr>bdev_data := data\<rparr>) })"

definition request_fn :: "bio \<Rightarrow> private_disk \<Rightarrow> (bool \<times> bio \<times> private_disk) option" where
  "request_fn b disk =
     (let i = bi_sector b * of_nat DISK_SECTOR_SIZE + ucast (bi_size b)
      in if i > of_nat DISK_SIZE then Some (False, b, disk)
         else do {
           (ok, data, segs) \<leftarrow> bio_segments (bi_dir b) (unat (bi_sector b * of_nat DISK_SECTOR_SIZE)) (pdisk_data disk) (bi_segs b);
           Some (ok, b\<lparr>bi_segs := segs\<rparr>, disk\<lparr>pdisk_data := data\<rparr>) })"

section \<open>Requests with one buffer\<close>

definition blk_transfer :: "bdev \<Rightarrow> 64 word \<Rightarrow> 64 word \<Rightarrow> byte list \<Rightarrow> bool \<Rightarrow> (byte list \<times> bdev) option" where
  "blk_transfer dev sector sectors buffer write' =
     (if write' then do {
        src \<leftarrow> rd_range buffer 0 (unat (sectors * 512));
        data \<leftarrow> wr_range (unat (sector * 512)) src (bdev_data dev);
        Some (buffer, dev\<lparr>bdev_data := data\<rparr>) }
      else do {
        src \<leftarrow> rd_range (bdev_data dev) (unat (sector * 512)) (unat (sectors * 512));
        buffer \<leftarrow> wr_range 0 src buffer;
        Some (buffer, dev) })"

definition KERNEL_SECTOR_SIZE :: nat where "KERNEL_SECTOR_SIZE = 512"

definition sbull_transfer :: "sbull \<Rightarrow> 64 word \<Rightarrow> 64 word \<Rightarrow> byte list \<Rightarrow> bool \<Rightarrow> (byte list \<times> sbull) option" where
  "sbull_transfer dev sector nsect buffer write' =
     (let offset = sector * of_nat KERNEL_SECTOR_SIZE; nbytes = nsect * of_nat KERNEL_SECTOR_SIZE
      in if offset + nbytes > of_nat (sbull_size dev) then Some (buffer, dev)
         else if write' then do {
           src \<leftarrow> rd_range buffer 0 (unat nbytes);
           data \<leftarrow> wr_range (unat offset) src (sbull_data dev);
           Some (buffer, dev\<lparr>sbull_data := data\<rparr>) }
         else do {
           src \<leftarrow> rd_range (sbull_data dev) (unat offset) (unat nbytes);
           buffer \<leftarrow> wr_range 0 src buffer;
           Some (buffer, dev) })"

section \<open>Opening, geometry, loading\<close>

definition bdev_open :: "bdev \<Rightarrow> int \<times> bdev" where
  "bdev_open dev = (0, dev\<lparr>bdev_users := bdev_users dev + 1\<rparr>)"

definition bdev_release :: "bdev \<Rightarrow> int \<times> bdev" where
  "bdev_release dev = (0, dev\<lparr>bdev_users := bdev_users dev - 1\<rparr>)"

record hd_geometry =
  cylinders :: int
  heads :: nat
  sectors :: nat
  geo_start :: nat

definition HDIO_GETGEO :: "32 word" where "HDIO_GETGEO = 0x0301"

definition bdev_ioctl :: "nat \<Rightarrow> 32 word \<Rightarrow> int \<times> hd_geometry option" where
  "bdev_ioctl uncopied cmd =
     (if cmd = HDIO_GETGEO then
        let size = int (NSECTORS * HARDSECT);
            geo = \<lparr>cylinders = drop_bit 6 (size AND 0x3f), heads = 4, sectors = 16, geo_start = 4\<rparr>
        in if uncopied \<noteq> 0 then (- EFAULT, None) else (0, Some geo)
      else (- ENOTTY, None))"

text \<open>Loading \<^verbatim>\<open>bdev.c\<close>, with the outcomes of the allocations and of the registration of the
  device number as arguments.  The second result lists what the module still holds.\<close>

datatype bdev_resource = Bdev_struct | Bdev_memory | Bdev_queue | Bdev_major | Bdev_disk

definition bdev_start :: "bool \<Rightarrow> byte list option \<Rightarrow> int \<Rightarrow> bool \<Rightarrow> int \<times> bdev_resource list \<times> bdev option" where
  "bdev_start kmalloc vmalloc register_blkdev alloc_disk =
     (if \<not> kmalloc then (- ENOMEM, [], None)
      else case vmalloc of
        None \<Rightarrow> (- ENOMEM, [], None)
      | Some data \<Rightarrow>
          if register_blkdev < 0 then (- EFAULT, [Bdev_struct, Bdev_memory, Bdev_queue], None)
          else if \<not> alloc_disk then (- ENOMEM, [Bdev_queue], None)
          else (0, [Bdev_struct, Bdev_memory, Bdev_queue, Bdev_major, Bdev_disk],
             Some \<lparr>bdev_size = NSECTORS * HARDSECT, bdev_data = data, bdev_users = 0\<rparr>))"

section \<open>The effect of a request\<close>

lemma dirs: "WRITE \<noteq> READA" "WRITE \<noteq> READ"
  by (simp_all add: WRITE_def READ_def READA_def)

lemma segments_write:
  "buf + length (concat segs) \<le> length data \<Longrightarrow>
   bio_segments WRITE buf data segs = Some (True, overwrite buf (concat segs) data, segs)"
proof (induction segs arbitrary: buf data)
  case (Cons seg segs)
  have le: "buf + length seg \<le> length data" "buf + length seg + length (concat segs) \<le> length data"
    using Cons.prems by simp_all
  have "bio_segments WRITE (buf + length seg) (overwrite buf seg data) segs =
      Some (True, overwrite buf (seg @ concat segs) data, segs)"
    using Cons.IH[of "buf + length seg" "overwrite buf seg data"] le by (simp add: length_overwrite overwrite_append)
  then show ?case
    using le(1) by (simp add: dirs wr_range_def)
qed simp

lemma segments_read:
  "dir \<in> {READ, READA} \<Longrightarrow> buf + length (concat segs) \<le> length data \<Longrightarrow>
   \<exists>segs'. bio_segments dir buf data segs = Some (True, data, segs') \<and> map length segs' = map length segs \<and>
     concat segs' = take (length (concat segs)) (drop buf data)"
proof (induction segs arbitrary: buf)
  case (Cons seg segs)
  have "buf + length seg + length (concat segs) \<le> length data" using Cons.prems(2) by simp
  from Cons.IH[OF Cons.prems(1) this] obtain segs' where "bio_segments dir (buf + length seg) data segs = Some (True, data, segs')"
      "map length segs' = map length segs" "concat segs' = take (length (concat segs)) (drop (buf + length seg) data)"
    by blast
  moreover have "rd_range data buf (length seg) = Some (take (length seg) (drop buf data))"
    using Cons.prems(2) by (simp add: rd_range_def)
  ultimately have "bio_segments dir buf data (seg # segs) = Some (True, data, take (length seg) (drop buf data) # segs')"
    "concat (take (length seg) (drop buf data) # segs') = take (length (concat (seg # segs))) (drop buf data)"
    "map length (take (length seg) (drop buf data) # segs') = map length (seg # segs)"
    using Cons.prems by (auto simp: take_add add.commute)
  then show ?case by blast
qed simp

text \<open>What the drivers rely on of the block layer: a \<^verbatim>\<open>bio\<close> lies inside the capacity of the
  device, and its size is the sum of its segments.\<close>

definition bio_ok :: "nat \<Rightarrow> bio \<Rightarrow> bool" where
  "bio_ok capacity b = (512 * unat (bi_sector b) + length (concat (bi_segs b)) \<le> capacity \<and>
     unat (bi_size b) = length (concat (bi_segs b)))"

lemma bio_ok_offsets:
  assumes "bio_ok capacity b" "capacity < 2 ^ 32"
  shows "unat (bi_sector b * 512) = 512 * unat (bi_sector b)"
    "\<not> bi_sector b * 512 + ucast (bi_size b) > (of_nat capacity :: 64 word)"
proof -
  have le: "512 * unat (bi_sector b) + unat (bi_size b) \<le> capacity" using assms(1) by (simp add: bio_ok_def)
  have "unat (bi_sector b * 512) = unat (bi_sector b) * unat (512 :: 64 word)"
    using le assms(2) by (intro unat_mult_lem[THEN iffD1]) simp
  then show 1: "unat (bi_sector b * 512) = 512 * unat (bi_sector b)" by simp
  have "unat (bi_size b) < 2 ^ 64" using le assms(2) by simp
  then have 2: "unat (ucast (bi_size b) :: 64 word) = unat (bi_size b)"
    by (simp add: unsigned_ucast_eq take_bit_nat_eq_self)
  have "unat (bi_sector b * 512 + ucast (bi_size b)) = unat (bi_sector b * 512) + unat (ucast (bi_size b) :: 64 word)"
    using le assms(2) 1 2 by (intro unat_add_lem[THEN iffD1]) simp
  then show "\<not> bi_sector b * 512 + ucast (bi_size b) > (of_nat capacity :: 64 word)"
    using le assms(2) 1 2 by (simp add: word_less_nat_alt unat_of_nat)
qed

definition bdev_inv :: "bdev \<Rightarrow> bool" where
  "bdev_inv dev = (bdev_size dev = 25600000 \<and> length (bdev_data dev) = 25600000)"

definition pdisk_inv :: "private_disk \<Rightarrow> bool" where
  "pdisk_inv disk = (length (pdisk_data disk) = 16777216)"

lemma bio_bounds:
  assumes "bio_ok capacity b" "length data = capacity"
  shows "512 * unat (bi_sector b) + length (concat (bi_segs b)) \<le> length data"
  using assms by (simp add: bio_ok_def)

lemma bdev_request_ok:
  assumes "bdev_inv dev" "bio_ok 25600000 b"
  shows "bdev_request b dev = map_option (\<lambda>(ok, data, segs). (ok, b\<lparr>bi_segs := segs\<rparr>, dev\<lparr>bdev_data := data\<rparr>))
    (bio_segments (bi_dir b) (512 * unat (bi_sector b)) (bdev_data dev) (bi_segs b))"
  using assms(1) bio_ok_offsets[OF assms(2)]
  by (auto simp: bdev_request_def bdev_inv_def HARDSECT_def map_option_case split: option.split)

lemma request_fn_ok:
  assumes "bio_ok 16777216 b"
  shows "request_fn b disk = map_option (\<lambda>(ok, data, segs). (ok, b\<lparr>bi_segs := segs\<rparr>, disk\<lparr>pdisk_data := data\<rparr>))
    (bio_segments (bi_dir b) (512 * unat (bi_sector b)) (pdisk_data disk) (bi_segs b))"
  using bio_ok_offsets[OF assms]
  by (auto simp: request_fn_def DISK_SIZE_def DISK_SECTOR_def DISK_SECTOR_SIZE_def Let_def map_option_case split: option.split)

section \<open>The contract\<close>

definition ex_bio :: "nat \<Rightarrow> nat \<Rightarrow> byte list \<Rightarrow> bio" where
  "ex_bio dir off xs = \<lparr>bi_sector = of_nat (off div 512), bi_size = of_nat (length xs), bi_dir = dir, bi_segs = [xs]\<rparr>"

definition disk_range :: "nat \<Rightarrow> nat \<Rightarrow> nat \<Rightarrow> bool" where
  "disk_range capacity off len = (512 dvd off \<and> off + len \<le> capacity)"

definition disk_byte :: "byte list \<Rightarrow> nat \<Rightarrow> byte option" where
  "disk_byte data k = (if k < length data then Some (data ! k) else None)"

lemma ex_bio_ok:
  assumes "disk_range capacity off (length xs)" "capacity < 2 ^ 32"
  shows "bio_ok capacity (ex_bio dir off xs)" "512 * unat (bi_sector (ex_bio dir off xs)) = off"
proof -
  obtain q where q: "off = 512 * q" using assms(1) by (auto simp: disk_range_def)
  have l: "length xs < 2 ^ 32" "q < 2 ^ 32" using assms q by (auto simp: disk_range_def)
  have "unat (of_nat q :: 64 word) = q" "unat (of_nat (length xs) :: 32 word) = length xs"
    using l by (simp_all add: unat_of_nat)
  then show "bio_ok capacity (ex_bio dir off xs)" "512 * unat (bi_sector (ex_bio dir off xs)) = off"
    using assms(1) q by (simp_all add: bio_ok_def ex_bio_def disk_range_def)
qed

lemma disk_byte_overwrite:
  assumes "off + length xs \<le> length data"
  shows "i < length xs \<Longrightarrow> disk_byte (overwrite off xs data) (off + i) = Some (xs ! i)"
    "k < off \<or> off + length xs \<le> k \<Longrightarrow> disk_byte (overwrite off xs data) k = disk_byte data k"
  using assms by (auto simp: disk_byte_def overwrite_def nth_append min_def)

text \<open>One request with one segment, as the operations of the interface.\<close>

definition bdev_put :: "nat \<Rightarrow> byte list \<Rightarrow> bdev \<Rightarrow> (nat \<times> bdev) option" where
  "bdev_put off xs dev = (case bdev_request (ex_bio WRITE off xs) dev of
     Some (True, _, dev) \<Rightarrow> Some (length xs, dev) | _ \<Rightarrow> None)"

definition bdev_get :: "nat \<Rightarrow> nat \<Rightarrow> bdev \<Rightarrow> (nat \<times> byte list \<times> bdev) option" where
  "bdev_get off len dev = (case bdev_request (ex_bio READ off (replicate len 0)) dev of
     Some (True, b, dev) \<Rightarrow> Some (len, concat (bi_segs b), dev) | _ \<Rightarrow> None)"

definition pdisk_put :: "nat \<Rightarrow> byte list \<Rightarrow> private_disk \<Rightarrow> (nat \<times> private_disk) option" where
  "pdisk_put off xs disk = (case request_fn (ex_bio WRITE off xs) disk of
     Some (True, _, disk) \<Rightarrow> Some (length xs, disk) | _ \<Rightarrow> None)"

definition pdisk_get :: "nat \<Rightarrow> nat \<Rightarrow> private_disk \<Rightarrow> (nat \<times> byte list \<times> private_disk) option" where
  "pdisk_get off len disk = (case request_fn (ex_bio READ off (replicate len 0)) disk of
     Some (True, b, disk) \<Rightarrow> Some (len, concat (bi_segs b), disk) | _ \<Rightarrow> None)"

definition sbull_inv :: "sbull \<Rightarrow> bool" where
  "sbull_inv dev = (sbull_size dev = 524288 \<and> length (sbull_data dev) = 524288)"

definition sector_range :: "nat \<Rightarrow> nat \<Rightarrow> nat \<Rightarrow> bool" where
  "sector_range capacity off len = (512 dvd off \<and> 512 dvd len \<and> off + len \<le> capacity)"

definition sbull_put :: "nat \<Rightarrow> byte list \<Rightarrow> sbull \<Rightarrow> (nat \<times> sbull) option" where
  "sbull_put off xs dev = map_option (\<lambda>(_, dev). (length xs, dev))
     (sbull_transfer dev (of_nat (off div 512)) (of_nat (length xs div 512)) xs True)"

definition sbull_get :: "nat \<Rightarrow> nat \<Rightarrow> sbull \<Rightarrow> (nat \<times> byte list \<times> sbull) option" where
  "sbull_get off len dev = map_option (\<lambda>(xs, dev). (len, xs, dev))
     (sbull_transfer dev (of_nat (off div 512)) (of_nat (len div 512)) (replicate len 0) False)"

locale ram_disk =
  fixes invar :: "'s \<Rightarrow> bool"
    and data_of :: "'s \<Rightarrow> byte list"
    and put :: "nat \<Rightarrow> byte list \<Rightarrow> 's \<Rightarrow> (nat \<times> 's) option"
    and get :: "nat \<Rightarrow> nat \<Rightarrow> 's \<Rightarrow> (nat \<times> byte list \<times> 's) option"
    and range_ok :: "nat \<Rightarrow> nat \<Rightarrow> bool"
  assumes inside: "invar s \<Longrightarrow> range_ok off len \<Longrightarrow> off + len \<le> length (data_of s)"
    and put_overwrites: "invar s \<Longrightarrow> range_ok off (length xs) \<Longrightarrow>
      \<exists>s'. put off xs s = Some (length xs, s') \<and> invar s' \<and> data_of s' = overwrite off xs (data_of s)"
    and get_copies: "invar s \<Longrightarrow> range_ok off len \<Longrightarrow>
      get off len s = Some (len, take len (drop off (data_of s)), s)"

sublocale ram_disk \<subseteq> store: sparse_file invar "\<lambda>s. disk_byte (data_of s)" put get range_ok
proof unfold_locales
  fix s off and xs :: "byte list"
  assume s: "invar s" "xs \<noteq> []" "range_ok off (length xs)"
  obtain s' where "put off xs s = Some (length xs, s')" "invar s'" "data_of s' = overwrite off xs (data_of s)"
    using put_overwrites[OF s(1,3)] by blast
  then show "\<exists>n s'. put off xs s = Some (n, s') \<and> 0 < n \<and> n \<le> length xs \<and> invar s' \<and>
      (n < length xs \<longrightarrow> range_ok (off + n) (length xs - n)) \<and>
      (\<forall>i<n. disk_byte (data_of s') (off + i) = Some (xs ! i)) \<and>
      (\<forall>k. k < off \<or> off + n \<le> k \<longrightarrow> disk_byte (data_of s) k \<noteq> None \<longrightarrow> disk_byte (data_of s') k = disk_byte (data_of s) k)"
    using s(2) disk_byte_overwrite[OF inside[OF s(1,3)]] by (intro exI[of _ "length xs"] exI[of _ s']) auto
next
  fix s len off
  assume s: "invar s" "0 < len" "range_ok off len"
  then show "\<exists>n out s'. get off len s = Some (n, out, s') \<and> 0 < n \<and> n \<le> len \<and> n = length out \<and> invar s' \<and>
      (n < len \<longrightarrow> range_ok (off + n) (len - n)) \<and> disk_byte (data_of s') = disk_byte (data_of s) \<and>
      (\<forall>i<n. disk_byte (data_of s) (off + i) = Some (out ! i))"
    using get_copies[OF s(1,3)] inside[OF s(1,3)] by (simp add: disk_byte_def)
qed

section \<open>The drivers keep it\<close>

lemma one_segment:
  assumes "off + length xs \<le> length data"
  shows "bio_segments WRITE off data [xs] = Some (True, overwrite off xs data, [xs])"
    "bio_segments READ off data [xs] = Some (True, data, [take (length xs) (drop off data)])"
  using assms by (simp_all add: dirs wr_range_def rd_range_def)

interpretation bdev_disk: ram_disk bdev_inv bdev_data bdev_put bdev_get "disk_range 25600000"
proof unfold_locales
  fix s off and xs :: "byte list"
  assume s: "bdev_inv s" "disk_range 25600000 off (length xs)"
  note b = ex_bio_ok[OF s(2)]
  have l: "off + length xs \<le> length (bdev_data s)" using s by (simp add: bdev_inv_def disk_range_def)
  show "\<exists>s'. bdev_put off xs s = Some (length xs, s') \<and> bdev_inv s' \<and> bdev_data s' = overwrite off xs (bdev_data s)"
    using bdev_request_ok[OF s(1) b(1), of WRITE] b(2)[of WRITE] one_segment(1)[OF l] s(1) length_overwrite[OF l]
    by (simp add: bdev_put_def ex_bio_def bdev_inv_def del: bio_segments.simps)
next
  fix s off len
  assume s: "bdev_inv s" "disk_range 25600000 off len"
  then have s': "disk_range 25600000 off (length (replicate len (0 :: byte)))" by simp
  note b = ex_bio_ok[OF s']
  have l: "off + length (replicate len (0 :: byte)) \<le> length (bdev_data s)" using s by (simp add: bdev_inv_def disk_range_def)
  show "bdev_get off len s = Some (len, take len (drop off (bdev_data s)), s)"
    using bdev_request_ok[OF s(1) b(1), of READ] b(2)[of READ] one_segment(2)[OF l]
    by (simp add: bdev_get_def ex_bio_def del: bio_segments.simps)
qed (simp add: bdev_inv_def disk_range_def)

interpretation pdisk_disk: ram_disk pdisk_inv pdisk_data pdisk_put pdisk_get "disk_range 16777216"
proof unfold_locales
  fix s off and xs :: "byte list"
  assume s: "pdisk_inv s" "disk_range 16777216 off (length xs)"
  note b = ex_bio_ok[OF s(2)]
  have l: "off + length xs \<le> length (pdisk_data s)" using s by (simp add: pdisk_inv_def disk_range_def)
  show "\<exists>s'. pdisk_put off xs s = Some (length xs, s') \<and> pdisk_inv s' \<and> pdisk_data s' = overwrite off xs (pdisk_data s)"
    using request_fn_ok[OF b(1), of WRITE] b(2)[of WRITE] one_segment(1)[OF l] s(1) length_overwrite[OF l]
    by (simp add: pdisk_put_def ex_bio_def pdisk_inv_def del: bio_segments.simps)
next
  fix s off len
  assume s: "pdisk_inv s" "disk_range 16777216 off len"
  then have s': "disk_range 16777216 off (length (replicate len (0 :: byte)))" by simp
  note b = ex_bio_ok[OF s']
  have l: "off + length (replicate len (0 :: byte)) \<le> length (pdisk_data s)" using s by (simp add: pdisk_inv_def disk_range_def)
  show "pdisk_get off len s = Some (len, take len (drop off (pdisk_data s)), s)"
    using request_fn_ok[OF b(1), of READ] b(2)[of READ] one_segment(2)[OF l]
    by (simp add: pdisk_get_def ex_bio_def del: bio_segments.simps)
qed (simp add: pdisk_inv_def disk_range_def)

lemma sector_words:
  assumes "sector_range 524288 off len"
  shows "unat (of_nat (off div 512) * 512 :: 64 word) = off" "unat (of_nat (len div 512) * 512 :: 64 word) = len"
    "\<not> (of_nat (off div 512) * 512 + of_nat (len div 512) * 512 :: 64 word) > 524288"
proof -
  obtain p q where pq: "off = 512 * p" "len = 512 * q" "512 * p + 512 * q \<le> 524288"
    using assms unfolding sector_range_def by (elim conjE dvdE) blast
  then have w: "(of_nat (off div 512) * 512 :: 64 word) = of_nat off" "(of_nat (len div 512) * 512 :: 64 word) = of_nat len"
    by (simp_all add: mult.commute)
  show "unat (of_nat (off div 512) * 512 :: 64 word) = off" "unat (of_nat (len div 512) * 512 :: 64 word) = len"
    unfolding w unat_of_nat using pq by simp_all
  show "\<not> (of_nat (off div 512) * 512 + of_nat (len div 512) * 512 :: 64 word) > 524288"
    unfolding w of_nat_add[symmetric] word_less_nat_alt unat_of_nat using pq by simp
qed

interpretation sbull_disk: ram_disk sbull_inv sbull_data sbull_put sbull_get "sector_range 524288"
proof unfold_locales
  fix s off and xs :: "byte list"
  assume s: "sbull_inv s" "sector_range 524288 off (length xs)"
  note w = sector_words[OF s(2)]
  have l: "off + length xs \<le> length (sbull_data s)" using s by (simp add: sbull_inv_def sector_range_def)
  show "\<exists>s'. sbull_put off xs s = Some (length xs, s') \<and> sbull_inv s' \<and> sbull_data s' = overwrite off xs (sbull_data s)"
    using w l s(1) length_overwrite[OF l]
    by (simp add: sbull_put_def sbull_transfer_def KERNEL_SECTOR_SIZE_def sbull_inv_def Let_def rd_range_def wr_range_def)
next
  fix s off len
  assume s: "sbull_inv s" "sector_range 524288 off len"
  note w = sector_words[OF s(2)]
  have l: "off + len \<le> length (sbull_data s)" using s by (simp add: sbull_inv_def sector_range_def)
  show "sbull_get off len s = Some (len, take len (drop off (sbull_data s)), s)"
    using w l s(1)
    by (simp add: sbull_get_def sbull_transfer_def KERNEL_SECTOR_SIZE_def sbull_inv_def Let_def rd_range_def wr_range_def
        overwrite_def)
qed (simp add: sbull_inv_def sector_range_def)

section \<open>Properties\<close>


definition ex_disk_bio :: bio where
  "ex_disk_bio = \<lparr>bi_sector = 3, bi_size = 4, bi_dir = WRITE, bi_segs = [[1, 2, 3], [4]]\<rparr>"


text \<open>What is written is read back, and what was there outside of it is kept.\<close>

definition reads_back ::
  "(nat \<Rightarrow> byte list \<Rightarrow> 's \<Rightarrow> (nat \<times> 's) option) \<Rightarrow> (nat \<Rightarrow> nat \<Rightarrow> 's \<Rightarrow> (nat \<times> byte list \<times> 's) option) \<Rightarrow>
   ('s \<Rightarrow> byte list) \<Rightarrow> nat \<Rightarrow> byte list \<Rightarrow> 's \<Rightarrow> bool" where
  "reads_back put get data_of off xs s = (\<exists>s' s''. write_all put off xs s = Some s' \<and>
     read_all get off (length xs) s' = Some (xs, s'') \<and>
     (\<forall>k. k < off \<or> off + length xs \<le> k \<longrightarrow> disk_byte (data_of s) k \<noteq> None \<longrightarrow>
        disk_byte (data_of s'') k = disk_byte (data_of s) k))"

text \<open>C24. On each of the three RAM disks, what requests write other requests read back, and the bytes around it
  are kept.\<close>

theorem ram_disk_round_trip:
  "(bdev_inv dev \<and> disk_range 25600000 off (length xs) \<longrightarrow> reads_back bdev_put bdev_get bdev_data off xs dev) \<and>
   (pdisk_inv disk \<and> disk_range 16777216 off (length xs) \<longrightarrow> reads_back pdisk_put pdisk_get pdisk_data off xs disk) \<and>
   (sbull_inv sb \<and> sector_range 524288 off (length xs) \<longrightarrow> reads_back sbull_put sbull_get sbull_data off xs sb)"
  unfolding reads_back_def
  using bdev_disk.store.round_trip[of dev off xs] pdisk_disk.store.round_trip[of disk off xs]
    sbull_disk.store.round_trip[of sb off xs] by blast

theorem ram_disk_round_trip_witness:
  "reads_back bdev_put bdev_get bdev_data 512 [1, 2, 3] \<lparr>bdev_size = 25600000, bdev_data = replicate 25600000 0, bdev_users = 0\<rparr> \<and>
   reads_back pdisk_put pdisk_get pdisk_data 512 [1, 2, 3] \<lparr>pdisk_data = replicate 16777216 0\<rparr>"
  using ram_disk_round_trip[of "\<lparr>bdev_size = 25600000, bdev_data = replicate 25600000 0, bdev_users = 0\<rparr>" 512 "[1, 2, 3]"
      "\<lparr>pdisk_data = replicate 16777216 0\<rparr>"]
  by (simp add: bdev_inv_def pdisk_inv_def disk_range_def)

lemma bdev_geometry: "bdev_ioctl 0 HDIO_GETGEO = (0, Some g) \<Longrightarrow> cylinders g = 0"
  by (auto simp: bdev_ioctl_def NSECTORS_def HARDSECT_def)

end
