(* ===== verification/Scull_Access.thy ===== *)
theory Scull_Access
  imports Prelude
begin

text \<open>
  The two access policies of \<^verbatim>\<open>src/access\<close>, which guard the ring buffer of the pipe driver:
  \<^verbatim>\<open>scullb.c\<close> lets the files of one user in at a time, others wait or are refused;
  \<^verbatim>\<open>scullb-onlyone_access.c\<close> lets one file in at a time.  Both are modelled as steps of processes
  that open and close the device in any interleaving, an atomic step being what the code does under its
  spin lock or in one atomic operation.
\<close>

section \<open>One user at a time\<close>

record access_dev =
  user_count :: int
  user_owner :: "32 word"

text \<open>The credentials of a process, and whether it may override file permissions.\<close>

record cred =
  cr_uid :: "32 word"
  cr_euid :: "32 word"
  cr_override :: bool

definition access_init :: access_dev where
  "access_init = \<lparr>user_count = 0, user_owner = - 1\<rparr>"

definition sdev_available :: "cred \<Rightarrow> access_dev \<Rightarrow> bool" where
  "sdev_available c d = (\<not> (user_count d \<noteq> 0 \<and> \<not> cr_override c \<and> user_owner d \<noteq> cr_uid c \<and> user_owner d \<noteq> cr_euid c))"

text \<open>\<^verbatim>\<open>sdev_open\<close>: the test of the loop with the lock held up to its release, the wait, and the
  return with its value.  A step of the wait that cannot be taken is \<^term>\<open>None\<close>.\<close>

datatype open_pc = O_test | O_wait | O_done int

fun sdev_open :: "bool \<Rightarrow> bool \<Rightarrow> cred \<Rightarrow> open_pc \<Rightarrow> access_dev \<Rightarrow> (open_pc \<times> access_dev) option" where
  "sdev_open interrupted nonblock c O_test d =
     (if \<not> sdev_available c d then Some (if nonblock then O_done (- EAGAIN) else O_wait, d)
      else let d = (if user_count d = 0 then d\<lparr>user_owner := cr_uid c\<rparr> else d)
           in Some (O_done 0, d\<lparr>user_count := user_count d + 1\<rparr>))"
| "sdev_open interrupted nonblock c O_wait d =
     (if interrupted then Some (O_done (- ERESTARTSYS), d)
      else if sdev_available c d then Some (O_test, d)
      else None)"
| "sdev_open interrupted nonblock c (O_done r) d = None"

text \<open>The first result tells whether the waiting processes are woken up.\<close>

definition sdev_close :: "access_dev \<Rightarrow> bool \<times> access_dev" where
  "sdev_close d = (let tmp = user_count d - 1 in (tmp = 0, d\<lparr>user_count := tmp\<rparr>))"

text \<open>The device with the processes that have a call of open under way, and the open files.\<close>

record access_sys =
  acc_dev :: access_dev
  acc_procs :: "(cred \<times> bool \<times> open_pc) list"
  acc_files :: "cred list"

inductive access_step :: "access_sys \<Rightarrow> access_sys \<Rightarrow> bool" where
  acc_call: "access_step s (s\<lparr>acc_procs := (c, nonblock, O_test) # acc_procs s\<rparr>)"
| acc_open: "i < length (acc_procs s) \<Longrightarrow> acc_procs s ! i = (c, nonblock, pc) \<Longrightarrow>
    sdev_open interrupted nonblock c pc (acc_dev s) = Some (pc', d) \<Longrightarrow>
    access_step s (s\<lparr>acc_dev := d, acc_procs := (acc_procs s)[i := (c, nonblock, pc')],
      acc_files := (if pc' = O_done 0 then c # acc_files s else acc_files s)\<rparr>)"
| acc_close: "c \<in> set (acc_files s) \<Longrightarrow> sdev_close (acc_dev s) = (wake, d) \<Longrightarrow>
    access_step s (s\<lparr>acc_dev := d, acc_files := remove1 c (acc_files s)\<rparr>)"

inductive_cases access_stepE: "access_step s s'"

definition access_start :: access_sys where
  "access_start = \<lparr>acc_dev = access_init, acc_procs = [], acc_files = []\<rparr>"

abbreviation access_reach :: "access_sys \<Rightarrow> bool" where
  "access_reach s \<equiv> access_step\<^sup>*\<^sup>* access_start s"

definition acts_for :: "32 word \<Rightarrow> cred \<Rightarrow> bool" where
  "acts_for u c = (cr_override c \<or> cr_uid c = u \<or> cr_euid c = u)"

definition access_inv :: "access_sys \<Rightarrow> bool" where
  "access_inv s = (user_count (acc_dev s) = int (length (acc_files s)) \<and>
     list_all (acts_for (user_owner (acc_dev s))) (acc_files s))"

lemma open_cases:
  assumes "sdev_open interrupted nonblock c pc d = Some (pc', d')"
  obtains "pc' = O_done 0" "pc = O_test" "sdev_available c d"
      "d' = \<lparr>user_count = user_count d + 1, user_owner = (if user_count d = 0 then cr_uid c else user_owner d)\<rparr>"
    | "pc' \<noteq> O_done 0" "d' = d"
  using assms by (cases pc) (auto simp: Let_def split: if_splits intro!: access_dev.equality)

lemma access_step_inv:
  assumes "access_inv s" "access_step s s'"
  shows "access_inv s'"
  using assms(2)
proof (cases rule: access_step.cases)
  case (acc_open i c nonblock pc interrupted pc' d)
  show ?thesis
    using acc_open(4)
  proof (cases rule: open_cases)
    case 1
    then show ?thesis
      using assms(1) acc_open(1) by (cases "acc_files s") (auto simp: access_inv_def acts_for_def sdev_available_def)
  next
    case 2
    then show ?thesis using assms(1) acc_open(1) by (simp add: access_inv_def)
  qed
next
  case (acc_close c wake d)
  moreover have "set (remove1 c (acc_files s)) \<subseteq> set (acc_files s)" by (rule set_remove1_subset)
  moreover have "int (length (remove1 c (acc_files s))) = int (length (acc_files s)) - 1"
    using length_pos_if_in_set[OF acc_close(2)] acc_close(2) by (cases "length (acc_files s)") (simp_all add: length_remove1)
  ultimately show ?thesis
    using assms(1) by (auto simp: access_inv_def sdev_close_def Let_def list_all_iff)
qed (use assms(1) in \<open>simp add: access_inv_def\<close>)

lemma access_reach_inv: "access_reach s \<Longrightarrow> access_inv s"
proof (induction rule: rtranclp_induct)
  case base
  then show ?case by (simp add: access_inv_def access_start_def access_init_def)
qed (rule access_step_inv)

section \<open>One file at a time\<close>

text \<open>A process that found the counter not to be one has still to undo its decrement.\<close>

datatype only_pc = Only_idle | Only_failing | Only_open

record only_sys =
  available :: int
  only_procs :: "only_pc list"

inductive only_step :: "only_sys \<Rightarrow> only_sys \<Rightarrow> bool" where
  only_dec: "i < length (only_procs s) \<Longrightarrow> only_procs s ! i = Only_idle \<Longrightarrow>
    only_step s (s\<lparr>available := available s - 1,
      only_procs := (only_procs s)[i := (if available s - 1 = 0 then Only_open else Only_failing)]\<rparr>)"
| only_busy: "i < length (only_procs s) \<Longrightarrow> only_procs s ! i = Only_failing \<Longrightarrow>
    only_step s (s\<lparr>available := available s + 1, only_procs := (only_procs s)[i := Only_idle]\<rparr>)"
| only_close: "i < length (only_procs s) \<Longrightarrow> only_procs s ! i = Only_open \<Longrightarrow>
    only_step s (s\<lparr>available := available s + 1, only_procs := (only_procs s)[i := Only_idle]\<rparr>)"

definition only_start :: "nat \<Rightarrow> only_sys" where
  "only_start n = \<lparr>available = 1, only_procs = replicate n Only_idle\<rparr>"

definition only_inv :: "only_sys \<Rightarrow> bool" where
  "only_inv s = (available s = 1 - int (length (filter (\<lambda>p. p \<noteq> Only_idle) (only_procs s))) \<and>
     length (filter (\<lambda>p. p = Only_open) (only_procs s)) \<le> 1)"

lemma count_update:
  assumes "i < length xs"
  shows "length (filter P (xs[i := y])) + (if P (xs ! i) then 1 else 0) = length (filter P xs) + (if P y then 1 else 0)"
  using assms
proof (induction xs arbitrary: i)
  case (Cons x xs)
  then show ?case using Cons.IH[of "i - 1"] by (cases i) auto
qed simp

lemma only_open_le: "length (filter (\<lambda>p. p = Only_open) xs) \<le> length (filter (\<lambda>p. p \<noteq> Only_idle) xs)"
  by (induction xs) auto

lemma only_step_inv:
  assumes "only_inv s" "only_step s s'"
  shows "only_inv s'"
  using assms(2)
proof (cases rule: only_step.cases)
  case (only_dec i)
  then show ?thesis
    using assms(1) only_open_le[of "only_procs s"]
      count_update[of i "only_procs s" "\<lambda>p. p \<noteq> Only_idle"] count_update[of i "only_procs s" "\<lambda>p. p = Only_open"]
    by (auto simp: only_inv_def split: if_splits)
next
  case (only_busy i)
  then show ?thesis
    using assms(1) count_update[of i "only_procs s" "\<lambda>p. p \<noteq> Only_idle" Only_idle]
      count_update[of i "only_procs s" "\<lambda>p. p = Only_open" Only_idle]
    by (auto simp: only_inv_def)
next
  case (only_close i)
  then show ?thesis
    using assms(1) count_update[of i "only_procs s" "\<lambda>p. p \<noteq> Only_idle" Only_idle]
      count_update[of i "only_procs s" "\<lambda>p. p = Only_open" Only_idle]
    by (auto simp: only_inv_def)
qed

lemma only_reach_inv: "only_step\<^sup>*\<^sup>* (only_start n) s \<Longrightarrow> only_inv s"
proof (induction rule: rtranclp_induct)
  case base
  then show ?case by (simp add: only_inv_def only_start_def)
qed (rule only_step_inv)

section \<open>Properties\<close>

text \<open>C19. At any time, in any interleaving of processes that open and close the device, the open files of processes
  without the right to override permissions act for one common user; and when no file is open, the next process that
  tests gets in at once.\<close>

theorem access_one_user:
  assumes "access_reach s"
  shows "(\<exists>u. \<forall>c \<in> set (acc_files s). \<not> cr_override c \<longrightarrow> u = cr_uid c \<or> u = cr_euid c) \<and>
    (acc_files s = [] \<longrightarrow> (\<exists>d. sdev_open interrupted nonblock c O_test (acc_dev s) = Some (O_done 0, d)))"
  using access_reach_inv[OF assms] by (fastforce simp: access_inv_def acts_for_def list_all_iff sdev_available_def Let_def)


section \<open>Examples\<close>

definition ex_alice :: cred where "ex_alice = \<lparr>cr_uid = 1000, cr_euid = 1000, cr_override = False\<rparr>"

lemma ex_access_open:
  "access_reach \<lparr>acc_dev = \<lparr>user_count = 1, user_owner = 1000\<rparr>, acc_procs = [(ex_alice, True, O_done 0)], acc_files = [ex_alice]\<rparr>"
proof -
  let ?s = "access_start\<lparr>acc_procs := [(ex_alice, True, O_test)]\<rparr>"
  have "access_step access_start ?s" using acc_call[of access_start ex_alice True] by (simp add: access_start_def)
  moreover have "access_step ?s
      \<lparr>acc_dev = \<lparr>user_count = 1, user_owner = 1000\<rparr>, acc_procs = [(ex_alice, True, O_done 0)], acc_files = [ex_alice]\<rparr>"
    using acc_open[of 0 ?s ex_alice True O_test False "O_done 0" "\<lparr>user_count = 1, user_owner = 1000\<rparr>"]
    by (simp add: access_start_def access_init_def sdev_available_def ex_alice_def)
  ultimately show ?thesis by (meson converse_rtranclp_into_rtranclp rtranclp.rtrancl_refl)
qed

theorem access_one_user_witness:
  "(\<exists>u. u = cr_uid ex_alice \<or> u = cr_euid ex_alice) \<and>
   (\<exists>d. sdev_open False True ex_alice O_test access_init = Some (O_done 0, d))"
  using access_one_user[OF ex_access_open, of False True ex_alice]
    access_one_user[OF rtranclp.rtrancl_refl, of False True ex_alice]
  by (auto simp: access_start_def)

text \<open>A process that is being refused makes another one fail although the device has been closed meanwhile.\<close>

lemma ex_only:
  "only_step\<^sup>*\<^sup>* (only_start 3) \<lparr>available = -1, only_procs = [Only_idle, Only_failing, Only_failing]\<rparr>"
proof -
  have 1: "only_step (only_start 3) \<lparr>available = 0, only_procs = [Only_open, Only_idle, Only_idle]\<rparr>"
    using only_dec[of 0 "only_start 3"] by (simp add: only_start_def numeral_3_eq_3)
  have 2: "only_step \<lparr>available = 0, only_procs = [Only_open, Only_idle, Only_idle]\<rparr>
      \<lparr>available = -1, only_procs = [Only_open, Only_failing, Only_idle]\<rparr>"
    using only_dec[of 1 "\<lparr>available = 0, only_procs = [Only_open, Only_idle, Only_idle]\<rparr>"] by simp
  have 3: "only_step \<lparr>available = -1, only_procs = [Only_open, Only_failing, Only_idle]\<rparr>
      \<lparr>available = 0, only_procs = [Only_idle, Only_failing, Only_idle]\<rparr>"
    using only_close[of 0 "\<lparr>available = -1, only_procs = [Only_open, Only_failing, Only_idle]\<rparr>"] by simp
  have 4: "only_step \<lparr>available = 0, only_procs = [Only_idle, Only_failing, Only_idle]\<rparr>
      \<lparr>available = -1, only_procs = [Only_idle, Only_failing, Only_failing]\<rparr>"
    using only_dec[of 2 "\<lparr>available = 0, only_procs = [Only_idle, Only_failing, Only_idle]\<rparr>"] by (simp add: numeral_2_eq_2)
  show ?thesis using 1 2 3 4 by (meson converse_rtranclp_into_rtranclp rtranclp.rtrancl_refl)
qed


end
