(* ===== verification/Fin_Ring.thy ===== *)
theory Fin_Ring
  imports Scull_Pipe
begin

text \<open>
  The ring buffer of \<^verbatim>\<open>src/interrupt/fin.c\<close>, and of \<^verbatim>\<open>finopage.c\<close> that differs in the
  allocation of the buffer.  A reader waits while the ring is empty; a writer never waits, and does not look
  at the read pointer at all.  The reading side behaves as the one of the pipe driver, which is stated as a
  refinement; the ring keeps the contract of a byte pipe for the writes that do not run past the reader.
\<close>

section \<open>Data and operations\<close>

definition SSIZE :: nat where "SSIZE = 40"

record sdev =
  fin_buf :: "byte list"
  fin_wp :: nat
  fin_rp :: nat
  fin_end :: nat

definition have_read :: "sdev \<Rightarrow> nat" where
  "have_read ptr =
     (if fin_rp ptr < fin_wp ptr then fin_wp ptr - fin_rp ptr
      else if fin_rp ptr = fin_wp ptr then 0
      else fin_end ptr - fin_rp ptr)"

text \<open>The part of \<^verbatim>\<open>sdev_read\<close> after the wait, with the semaphore held.  The result of the copy is
  unsigned, so its test never holds; \<open>count\<close> is what the loop found.\<close>

definition fin_read :: "to_user \<Rightarrow> nat \<Rightarrow> sdev \<Rightarrow> (nat \<times> byte list \<times> sdev) option" where
  "fin_read copy_to_user len ptr = do {
     let count = have_read ptr;
     let count = min count len;
     let count = min count (fin_end ptr - fin_rp ptr);
     src \<leftarrow> rd_range (fin_buf ptr) (fin_rp ptr) count;
     let uncopied = copy_to_user src;
     let r = fin_rp ptr + count;
     let r = (if r = fin_end ptr then 0 else r);
     Some (count, take (count - uncopied) src, ptr\<lparr>fin_rp := r\<rparr>) }"

definition fin_write :: "from_user \<Rightarrow> byte list \<Rightarrow> sdev \<Rightarrow> (nat \<times> sdev) option" where
  "fin_write copy_from_user ubuf ptr = do {
     let count = min (length ubuf) (fin_end ptr - fin_wp ptr);
     let (landed, uncopied) = copy_from_user (take count ubuf);
     buf \<leftarrow> wr_range (fin_wp ptr) landed (fin_buf ptr);
     let w = fin_wp ptr + count;
     let w = (if w = fin_end ptr then 0 else w);
     Some (count, ptr\<lparr>fin_buf := buf, fin_wp := w\<rparr>) }"

text \<open>Loading the module, with the outcomes of the kernel calls; the second result lists what is held.\<close>

datatype fin_resource = Fin_struct | Fin_region | Fin_buf | Fin_cdev

definition fin_start :: "bool \<Rightarrow> int \<Rightarrow> byte list option \<Rightarrow> int \<Rightarrow> int \<times> fin_resource list \<times> sdev option" where
  "fin_start kzalloc alloc_chrdev_region kmalloc cdev_add =
     (if \<not> kzalloc then (- ENOMEM, [], None)
      else if alloc_chrdev_region < 0 then (- EFAULT, [], None)
      else case kmalloc of
        None \<Rightarrow> (- ENOMEM, [], None)
      | Some buf \<Rightarrow>
          if cdev_add < 0 then (- EFAULT, [], None)
          else (0, [Fin_struct, Fin_region, Fin_buf, Fin_cdev],
            Some \<lparr>fin_buf = buf, fin_wp = 0, fin_rp = 0, fin_end = SSIZE\<rparr>))"

section \<open>Specification\<close>

text \<open>The ring as a ring of the pipe driver.\<close>

definition fin_view :: "sdev \<Rightarrow> scullb" where
  "fin_view ptr = \<lparr>sbuf = Some (fin_buf ptr), sbuf_end = fin_end ptr, rp = fin_rp ptr, wp = fin_wp ptr,
     nreaders = 0, nwriters = 0, bufsize = fin_end ptr, async_queue = False\<rparr>"

definition fin_inv :: "sdev \<Rightarrow> bool" where
  "fin_inv ptr = ring_inv (fin_view ptr)"

definition fin_data :: "sdev \<Rightarrow> byte list" where
  "fin_data ptr = ring_data (fin_view ptr)"

text \<open>A write stays behind the reader.\<close>

definition fin_room :: "byte list \<Rightarrow> sdev \<Rightarrow> bool" where
  "fin_room ubuf ptr = (let n = min (length ubuf) (fin_end ptr - fin_wp ptr) in
     (fin_wp ptr < fin_rp ptr \<longrightarrow> fin_wp ptr + n < fin_rp ptr) \<and>
     \<not> (fin_rp ptr = 0 \<and> fin_wp ptr + n = fin_end ptr))"

section \<open>Refinement and contract\<close>

lemma fin_view_fields:
  "sbuf (fin_view ptr) = Some (fin_buf ptr)" "bufsize (fin_view ptr) = fin_end ptr" "rp (fin_view ptr) = fin_rp ptr"
  "wp (fin_view ptr) = fin_wp ptr"
  "fin_view (ptr\<lparr>fin_buf := b, fin_wp := w\<rparr>) = (fin_view ptr)\<lparr>sbuf := Some b, wp := w\<rparr>"
  by (simp_all add: fin_view_def)

lemma fin_read_refines:
  assumes "fin_inv ptr" "fin_rp ptr \<noteq> fin_wp ptr"
  shows "map_option (\<lambda>(n, out, ptr). (n, out, fin_view ptr)) (fin_read f len ptr) = sdev_read_copy f len (fin_view ptr)"
proof -
  have i: "length (fin_buf ptr) = fin_end ptr" "fin_rp ptr < fin_end ptr" "fin_wp ptr < fin_end ptr"
    using assms(1) by (auto simp: fin_inv_def ring_inv_def fin_view_def)
  have "min (min (have_read ptr) len) (fin_end ptr - fin_rp ptr) = read_count len (fin_view ptr)"
    using i assms(2) by (auto simp: have_read_def read_count_def fin_view_def min_def)
  then show ?thesis
    by (auto simp: fin_read_def sdev_read_copy_def fin_view_def Let_def rd_range_def)
qed

lemma fin_write_runs:
  assumes "fin_inv ptr"
  shows "fin_write (\<lambda>bs. (bs, 0)) ubuf ptr = (let n = min (length ubuf) (fin_end ptr - fin_wp ptr) in
    Some (n, ptr\<lparr>fin_buf := overwrite (fin_wp ptr) (take n ubuf) (fin_buf ptr),
      fin_wp := (if fin_wp ptr + n = fin_end ptr then 0 else fin_wp ptr + n)\<rparr>))"
proof -
  have "length (fin_buf ptr) = fin_end ptr" "fin_wp ptr < fin_end ptr"
    using assms by (simp_all add: fin_inv_def ring_inv_def fin_view_def)
  then have "wr_range (fin_wp ptr) (take (min (length ubuf) (fin_end ptr - fin_wp ptr)) ubuf) (fin_buf ptr) =
      Some (overwrite (fin_wp ptr) (take (min (length ubuf) (fin_end ptr - fin_wp ptr)) ubuf) (fin_buf ptr))"
    by (intro wr_range_Some) simp
  then show ?thesis by (simp add: fin_write_def Let_def)
qed

interpretation fin_fifo: byte_fifo fin_inv fin_data "fin_write (\<lambda>bs. (bs, 0))" "fin_read (\<lambda>_. 0)" fin_room
proof unfold_locales
  fix s xs n s'
  assume s: "fin_inv s" "fin_room xs s" "fin_write (\<lambda>bs. (bs, 0)) xs s = Some (n, s')"
  let ?n = "min (length xs) (fin_end s - fin_wp s)"
  have i: "ring_inv (fin_view s)" "length (fin_buf s) = fin_end s" "fin_rp s < fin_end s" "fin_wp s < fin_end s" "1 < fin_end s"
    using s(1) by (auto simp: fin_inv_def ring_inv_def fin_view_def)
  have run: "n = ?n" "s' = s\<lparr>fin_buf := overwrite (fin_wp s) (take ?n xs) (fin_buf s),
      fin_wp := (if fin_wp s + ?n = fin_end s then 0 else fin_wp s + ?n)\<rparr>"
    using s(3) unfolding fin_write_runs[OF s(1)] Let_def by blast+
  have le: "fin_wp s + ?n \<le> fin_end s" using i by linarith
  have "ring_data (fin_view s') = ring_data (fin_view s) @ take ?n xs"
    using ring_store_data[OF i(1) fin_view_fields(1), of "take ?n xs" ?n "fin_view s'"] s(2) le
    unfolding run(2) fin_view_fields fin_room_def Let_def by simp
  moreover have "ring_inv (fin_view s')"
    using i le by (auto simp: run(2) fin_view_def ring_inv_def overwrite_def min_def)
  ultimately show "fin_inv s' \<and> n \<le> length xs \<and> fin_data s' = fin_data s @ take n xs"
    by (simp add: fin_inv_def fin_data_def run(1))
next
  fix s len n out s'
  assume s: "fin_inv s" "fin_data s \<noteq> []" "fin_read (\<lambda>_. 0) len s = Some (n, out, s')"
  then have "fin_rp s \<noteq> fin_wp s"
    using ring_data_nil_iff[of "fin_view s"] by (simp add: fin_inv_def fin_data_def fin_view_def)
  from fin_read_refines[OF s(1) this, of "\<lambda>_. 0" len] s(3)
  have "pipe_get len (fin_view s) = Some (n, out, fin_view s')" by simp
  with s(1,2) show "fin_inv s' \<and> n = length out \<and> n \<le> len \<and> out @ fin_data s' = fin_data s"
    unfolding fin_inv_def fin_data_def by (rule scullb_fifo.get_takes)
qed

text \<open>A writer that comes round to the reader loses the whole content.\<close>

lemma fin_write_loses:
  "fin_write (\<lambda>bs. (bs, 0)) (replicate 40 1) \<lparr>fin_buf = replicate 40 0, fin_wp = 0, fin_rp = 0, fin_end = 40\<rparr> =
     Some (40, \<lparr>fin_buf = replicate 40 1, fin_wp = 0, fin_rp = 0, fin_end = 40\<rparr>)"
  by (simp add: fin_write_def wr_range_def overwrite_def)

end
