(* ===== verification/Rw_Block.thy ===== *)
theory Rw_Block
  imports Prelude
begin

text \<open>
  The blocking driver \<^verbatim>\<open>src/rw_block/scullb.c\<close>: one buffer with a read and a write position and no
  lock.  The wait for the flag that a writer sets is left out; a call is modelled from the point on where it
  goes ahead.  Lengths are below 2 ^ 31, as the kernel passes them.  The result of a read includes the bytes
  that are copied to the user, which the code does not always limit to the length of the user's buffer.
\<close>

section \<open>Operations\<close>

definition SDEVSIZE :: nat where "SDEVSIZE = 42"

record rw_dev =
  rw_buf :: "byte list"
  rw_read :: nat
  rw_write :: nat
  rw_size :: nat

definition rw_block_read :: "nat \<Rightarrow> rw_dev \<Rightarrow> (nat \<times> byte list \<times> rw_dev) option" where
  "rw_block_read len d =
     (if rw_write d > rw_read d then do {
        let count = rw_write d - rw_read d;
        out \<leftarrow> rd_range (rw_buf d) (rw_read d) count;
        Some (count, out, d\<lparr>rw_read := rw_read d + count\<rparr>) }
      else if rw_write d < rw_read d then do {
        let count = min (rw_size d - rw_read d) len;
        out \<leftarrow> rd_range (rw_buf d) (rw_read d) count;
        (if len < rw_size d - rw_read d then Some (count, out, d\<lparr>rw_read := rw_read d + count\<rparr>)
         else do {
           let sum = count;
           let count = min (rw_write d) (len - sum);
           let count = (if count \<ge> rw_write d then rw_write d - 1 else count);
           out' \<leftarrow> rd_range (rw_buf d) 0 count;
           Some (sum + count, out @ out', d\<lparr>rw_read := count\<rparr>) }) }
      else Some (0, [], d))"

text \<open>The second half of the user's bytes goes to the start of the buffer, up to its size.\<close>

definition rw_block_write :: "byte list \<Rightarrow> rw_dev \<Rightarrow> (nat \<times> rw_dev) option" where
  "rw_block_write ubuf d =
     (if length ubuf < rw_size d - rw_write d then do {
        let count = length ubuf;
        buf \<leftarrow> wr_range (rw_write d) ubuf (rw_buf d);
        Some (count, d\<lparr>rw_buf := buf, rw_write := rw_write d + count\<rparr>) }
      else do {
        let count = rw_size d - rw_write d;
        buf \<leftarrow> wr_range (rw_write d) (take count ubuf) (rw_buf d);
        let sum = count;
        let count = min (length ubuf - count) (rw_size d);
        buf \<leftarrow> wr_range 0 (take count (drop sum ubuf)) buf;
        Some (sum + count, d\<lparr>rw_buf := buf, rw_write := count\<rparr>) })"

definition rw_start :: "int \<Rightarrow> byte list option \<Rightarrow> int \<Rightarrow> int \<times> rw_dev option" where
  "rw_start alloc_chrdev_region vmalloc cdev_add =
     (if alloc_chrdev_region < 0 then (- EFAULT, None)
      else if cdev_add < 0 then (- EFAULT, None)
      else (0, map_option (\<lambda>buf. \<lparr>rw_buf = buf, rw_read = 0, rw_write = 0, rw_size = SDEVSIZE\<rparr>) vmalloc))"

section \<open>The positions stay in the buffer\<close>

definition rw_inv :: "rw_dev \<Rightarrow> bool" where
  "rw_inv d = (length (rw_buf d) = rw_size d \<and> rw_read d \<le> rw_size d \<and> rw_write d \<le> rw_size d)"

lemma wr_range_ok: "off + length src \<le> length xs \<Longrightarrow> \<exists>ys. wr_range off src xs = Some ys \<and> length ys = length xs"
  by (simp add: wr_range_def overwrite_def)

lemma rw_write_safe:
  assumes "rw_inv d"
  shows "\<exists>n d'. rw_block_write ubuf d = Some (n, d') \<and> rw_inv d' \<and> n \<le> length ubuf"
proof (cases "length ubuf < rw_size d - rw_write d")
  case True
  then have "rw_write d + length ubuf \<le> length (rw_buf d)" using assms unfolding rw_inv_def by linarith
  then obtain buf where "wr_range (rw_write d) ubuf (rw_buf d) = Some buf" "length buf = length (rw_buf d)"
    using wr_range_ok by blast
  then show ?thesis using True assms by (auto simp: rw_block_write_def rw_inv_def Let_def)
next
  case False
  let ?n = "rw_size d - rw_write d"
  let ?m = "min (length ubuf - ?n) (rw_size d)"
  obtain buf where 1: "wr_range (rw_write d) (take ?n ubuf) (rw_buf d) = Some buf" "length buf = length (rw_buf d)"
    using wr_range_ok[of "rw_write d" "take ?n ubuf" "rw_buf d"] assms False by (auto simp: rw_inv_def)
  obtain buf' where 2: "wr_range 0 (take ?m (drop ?n ubuf)) buf = Some buf'" "length buf' = length buf"
    using wr_range_ok[of 0 "take ?m (drop ?n ubuf)" buf] assms 1(2) by (auto simp: rw_inv_def)
  have "rw_block_write ubuf d = Some (?n + ?m, d\<lparr>rw_buf := buf', rw_write := ?m\<rparr>)"
    using False 1 2 by (simp add: rw_block_write_def Let_def)
  moreover have "?n + ?m \<le> length ubuf" using False by linarith
  moreover have "rw_inv (d\<lparr>rw_buf := buf', rw_write := ?m\<rparr>)" using assms 1(2) 2(2) by (simp add: rw_inv_def)
  ultimately show ?thesis by blast
qed

lemma rd_range_ok: "off + n \<le> length xs \<Longrightarrow> \<exists>ys. rd_range xs off n = Some ys \<and> length ys = n"
  by (simp add: rd_range_def)

lemma rw_read_safe:
  assumes "rw_inv d"
  shows "\<exists>n out d'. rw_block_read len d = Some (n, out, d') \<and> rw_inv d' \<and> n = length out \<and>
    (rw_write d \<le> rw_read d \<longrightarrow> n \<le> len)"
proof (cases "rw_write d < rw_read d")
  case True
  define n where "n = min (rw_size d - rw_read d) len"
  define k where "k = (let m = min (rw_write d) (len - n) in if m \<ge> rw_write d then rw_write d - 1 else m)"
  have le: "rw_read d + n \<le> length (rw_buf d)" "0 + k \<le> length (rw_buf d)" "n + k \<le> len" "k \<le> rw_size d" "n \<le> len"
    "rw_read d + n \<le> rw_size d"
    using assms unfolding rw_inv_def n_def k_def by (auto simp: min_def Let_def)
  obtain out out' where out: "rd_range (rw_buf d) (rw_read d) n = Some out" "length out = n"
      "rd_range (rw_buf d) 0 k = Some out'" "length out' = k"
    using rd_range_ok[OF le(1)] rd_range_ok[OF le(2)] by blast
  have "rw_block_read len d = (if len < rw_size d - rw_read d then Some (n, out, d\<lparr>rw_read := rw_read d + n\<rparr>)
      else Some (n + k, out @ out', d\<lparr>rw_read := k\<rparr>))"
    using True out unfolding rw_block_read_def n_def[symmetric] Let_def k_def[unfolded Let_def, symmetric] by simp
  then show ?thesis
    using assms le out(2,4) by (auto simp: rw_inv_def)
next
  case False
  then show ?thesis using assms by (auto simp: rw_block_read_def rw_inv_def rd_range_def Let_def)
qed

text \<open>With data ahead of the read position a read copies all of it, however short the user's buffer is.\<close>

lemma rw_read_overruns:
  assumes "rw_inv d" "rw_read d < rw_write d" "len < rw_write d - rw_read d"
  shows "\<exists>n out d'. rw_block_read len d = Some (n, out, d') \<and> len < length out"
  using assms by (auto simp: rw_block_read_def rw_inv_def rd_range_def Let_def)

end
