(* ===== verification/Spec2Isabelle.thy ===== *)
theory Spec2Isabelle
  imports Scull_Pipe Cdb_Parse Scst_Lun Generic_Parse Pres_In Scull_Dev Ram_Disk Scull_Access
    Fin_Ring Rw_Block
begin

text \<open>
  Verification of the drivers and of the SCSI target framework of this repository.

  The repository holds two bodies of C code.  The first is a set of device drivers
  written along the book Linux Device Drivers: character devices backed by memory
  (\<^verbatim>\<open>src/scull0\<close>), blocking pipes (\<^verbatim>\<open>src/nonblock\<close>,
  \<^verbatim>\<open>src/rw_block\<close>, \<^verbatim>\<open>src/interrupt\<close>), access control
  (\<^verbatim>\<open>src/access\<close>) and RAM disks (\<^verbatim>\<open>src/block\<close>).  The second
  is the SCST target framework (\<^verbatim>\<open>src/scst-trunk\<close>, with an older copy in
  \<^verbatim>\<open>src/scst-3.1.0\<close>).

  Plan: \<open>Prelude\<close> (checked memory accesses, big-endian encodings), \<open>Byte_Fifo\<close>
  (the pipe contract), one theory per driver, then for SCST the sense data, the command
  descriptor block table and its parsers, logical unit numbers, and persistent reservations.
\<close>

end
